(* ===== verification/Quic_Prelude.thy ===== *)
theory Quic_Prelude
  imports Main "HOL-Library.Word" "HOL-Library.AList"
begin

text \<open>
  Shared types, automation and lemmas.

  \<^item> PHP strings (\<^verbatim>\<open>zend_string\<close>) are byte strings; they are \<open>string\<close>, a list
    of 8-bit \<open>char\<close>, embedded NUL bytes included. A \<^verbatim>\<open>zend_string *\<close> that may be
    \<^verbatim>\<open>NULL\<close> is a \<open>zstring option\<close>.
  \<^item> \<^verbatim>\<open>int64_t\<close> and \<^verbatim>\<open>zend_long\<close> are 64-bit words read with \<open>sint\<close>,
    \<^verbatim>\<open>uint64_t\<close> and \<^verbatim>\<open>zend_ulong\<close> the same words read with \<open>unat\<close>, so a
    C cast between them is the identity. Lengths (\<^verbatim>\<open>size_t\<close>) are \<open>nat\<close>; a string
    longer than the address space is outside the model.
  \<^item> A PHP method returns \<open>Inl\<close> of what it threw or \<open>Inr\<close> of its value.
\<close>

type_synonym u8 = "8 word"
type_synonym u16 = "16 word"
type_synonym u32 = "32 word"
type_synonym u64 = "64 word"
type_synonym i64 = "64 word"
type_synonym zend_long = "64 word"
type_synonym zstring = string

text \<open>The lemma collections that carry the component proofs.\<close>

named_theorems wf_simps \<open>rewrite rules for well-formedness predicates\<close>
named_theorems wf_intros \<open>an operation preserves a well-formedness predicate\<close>
named_theorems frame \<open>what an operation leaves unchanged\<close>

subsection \<open>Error values\<close>

text \<open>
  The error codes of the ngtcp2 library the extension compares against, under their names,
  and \<open>Err_other\<close> for every other negative code. The library documents the codes as
  distinct and negative, with 0 for success: a call that returns an \<^verbatim>\<open>int\<close> status is
  modelled as returning \<open>None\<close> (0) or \<open>Some\<close> error.
\<close>

datatype ngtcp2_err =
    NGTCP2_ERR_CLOSING
  | NGTCP2_ERR_DRAINING
  | NGTCP2_ERR_IDLE_CLOSE
  | NGTCP2_ERR_CRYPTO
  | NGTCP2_ERR_STREAM_ID_BLOCKED
  | NGTCP2_ERR_WRITE_MORE
  | NGTCP2_ERR_STREAM_DATA_BLOCKED
  | NGTCP2_ERR_STREAM_SHUT_WR
  | NGTCP2_ERR_VERSION_NEGOTIATION
  | NGTCP2_ERR_CALLBACK_FAILURE
  | Err_other int

text \<open>
  What a method can throw, by the exception class and the text or format the source passes:
  \<^verbatim>\<open>zend_throw_exception\<close> with a fixed text, the \<^verbatim>\<open>"%s failed: %s"\<close> form with
  the name of the failed library call, \<^verbatim>\<open>zend_argument_value_error\<close> with the argument
  number, \<^verbatim>\<open>InvalidArgumentException\<close>, and the \<^verbatim>\<open>TypeError\<close> of the
  parameter parser with the argument number. An exception thrown while another is
  pending is \<open>Chained\<close>: it carries the pending one as its previous exception.
\<close>

datatype php_throw =
    Exception string
  | Call_failed string ngtcp2_err
  | Gnutls_failed string int
  | Stream_id_mismatch i64 i64
  | Unsupported_version u32
  | Value_error nat string
  | Invalid_argument string
  | Type_error nat
  | Chained string php_throw

type_synonym 'a outcome = "php_throw + 'a"

fun is_ok :: "'e + 'a \<Rightarrow> bool" where
  "is_ok (Inl e) = False"
| "is_ok (Inr a) = True"

lemma is_ok_iff: "is_ok r \<longleftrightarrow> (\<exists>a. r = Inr a)"
  by (cases r) auto

subsection \<open>Ordered hash tables\<close>

text \<open>
  A Zend \<^verbatim>\<open>HashTable\<close> keeps its elements in insertion order: updating a present key
  keeps its place, a new key goes to the end, and \<^verbatim>\<open>ZEND_HASH_FOREACH\<close> visits the
  elements in that order. It is an association list here. The clients of a table rely on the
  laws of the locale only.
\<close>

type_synonym ('k, 'v) hash_table = "('k \<times> 'v) list"

definition zend_hash_find :: "('k, 'v) hash_table \<Rightarrow> 'k \<Rightarrow> 'v option" where
  "zend_hash_find t k = map_of t k"

definition zend_hash_update :: "'k \<Rightarrow> 'v \<Rightarrow> ('k, 'v) hash_table \<Rightarrow> ('k, 'v) hash_table" where
  "zend_hash_update k v t = AList.update k v t"

definition zend_hash_del :: "'k \<Rightarrow> ('k, 'v) hash_table \<Rightarrow> ('k, 'v) hash_table" where
  "zend_hash_del k t = AList.delete k t"

definition hash_keys :: "('k, 'v) hash_table \<Rightarrow> 'k list" where
  "hash_keys t = map fst t"

locale ordered_table =
  fixes find :: "'t \<Rightarrow> 'k \<Rightarrow> 'v option"
    and upd :: "'k \<Rightarrow> 'v \<Rightarrow> 't \<Rightarrow> 't"
    and del :: "'k \<Rightarrow> 't \<Rightarrow> 't"
    and keys :: "'t \<Rightarrow> 'k list"
    and ok :: "'t \<Rightarrow> bool"
  assumes find_upd: "find (upd k v t) j = (if j = k then Some v else find t j)"
    and find_del: "ok t \<Longrightarrow> find (del k t) j = (if j = k then None else find t j)"
    and keys_upd: "keys (upd k v t) = (if k \<in> set (keys t) then keys t else keys t @ [k])"
    and keys_del: "ok t \<Longrightarrow> keys (del k t) = filter (\<lambda>j. j \<noteq> k) (keys t)"
    and find_keys: "find t k \<noteq> None \<longleftrightarrow> k \<in> set (keys t)"
    and ok_distinct: "ok t \<longleftrightarrow> distinct (keys t)"
begin

lemma find_upd_same [simp]: "find (upd k v t) k = Some v"
  by (simp add: find_upd)

lemma find_upd_other: "j \<noteq> k \<Longrightarrow> find (upd k v t) j = find t j"
  by (simp add: find_upd)

lemma ok_upd: "ok t \<Longrightarrow> ok (upd k v t)"
  by (simp add: ok_distinct keys_upd)

lemma ok_del: "ok t \<Longrightarrow> ok (del k t)"
  by (simp add: ok_distinct keys_del[unfolded ok_distinct])

lemma keys_upd_present: "find t k = Some w \<Longrightarrow> keys (upd k v t) = keys t"
  using find_keys[of t k] by (simp add: keys_upd)

lemma keys_upd_new: "find t k = None \<Longrightarrow> keys (upd k v t) = keys t @ [k]"
  using find_keys[of t k] by (simp add: keys_upd)

lemma set_keys_upd: "set (keys (upd k v t)) = insert k (set (keys t))"
  by (auto simp: keys_upd)

lemma prefix_keys_upd: "\<exists>new. keys (upd k v t) = keys t @ new"
  by (auto simp: keys_upd)

end

lemma keys_alist_update:
  "map fst (AList.update k v t) = (if k \<in> set (map fst t) then map fst t else map fst t @ [k])"
  by (induction t) auto

lemma keys_alist_delete: "map fst (AList.delete k t) = filter (\<lambda>j. j \<noteq> k) (map fst t)"
  by (induction t) (auto simp: AList.delete_eq)

interpretation hash: ordered_table zend_hash_find zend_hash_update zend_hash_del hash_keys
  "\<lambda>t. distinct (hash_keys t)"
proof unfold_locales
  fix t :: "('k \<times> 'v) list" and k j :: 'k and v :: 'v
  show "zend_hash_find (zend_hash_update k v t) j = (if j = k then Some v else zend_hash_find t j)"
    by (simp add: zend_hash_find_def zend_hash_update_def AList.update_conv')
  show "zend_hash_find (zend_hash_del k t) j = (if j = k then None else zend_hash_find t j)"
    by (simp add: zend_hash_find_def zend_hash_del_def AList.delete_conv')
  show "hash_keys (zend_hash_update k v t) =
      (if k \<in> set (hash_keys t) then hash_keys t else hash_keys t @ [k])"
    by (simp add: hash_keys_def zend_hash_update_def keys_alist_update)
  show "hash_keys (zend_hash_del k t) = filter (\<lambda>j. j \<noteq> k) (hash_keys t)"
    by (simp add: hash_keys_def zend_hash_del_def keys_alist_delete)
  show "(zend_hash_find t k \<noteq> None) = (k \<in> set (hash_keys t))"
    by (auto simp: zend_hash_find_def hash_keys_def map_of_eq_None_iff)
  show "distinct (hash_keys t) = distinct (hash_keys t)" ..
qed

lemma zend_hash_find_Nil [simp]: "zend_hash_find [] k = None"
  by (simp add: zend_hash_find_def)

lemma zend_hash_find_in_set:
  "zend_hash_find t k = Some v \<Longrightarrow> (k, v) \<in> set t"
  by (simp add: zend_hash_find_def map_of_SomeD)

lemma zend_hash_update_set:
  "set (zend_hash_update k v t) \<subseteq> insert (k, v) (set t)"
  unfolding zend_hash_update_def by (induction t) auto

lemma zend_hash_update_in_set:
  "distinct (hash_keys t) \<Longrightarrow> (j, w) \<in> set (zend_hash_update k v t) \<Longrightarrow>
    (j = k \<and> w = v) \<or> (j \<noteq> k \<and> (j, w) \<in> set t)"
  unfolding zend_hash_update_def hash_keys_def by (induction t) (auto split: if_splits simp: rev_image_eqI)

subsection \<open>Machines with an invariant\<close>

text \<open>
  An object with methods is a step function from the operation and the state to an output and
  the next state. Every component with an invariant interprets this locale once and gets the
  invariant for whole runs.
\<close>

fun run_ops :: "('op \<Rightarrow> 's \<Rightarrow> 'out \<times> 's) \<Rightarrow> 'op list \<Rightarrow> 's \<Rightarrow> 'out list \<times> 's" where
  "run_ops step [] s = ([], s)"
| "run_ops step (x # xs) s =
     (let (y, s1) = step x s; (ys, s2) = run_ops step xs s1 in (y # ys, s2))"

locale invariant_machine =
  fixes step :: "'op \<Rightarrow> 's \<Rightarrow> 'out \<times> 's"
    and inv :: "'s \<Rightarrow> bool"
  assumes step_inv: "inv s \<Longrightarrow> inv (snd (step x s))"
begin

lemma run_inv: "inv s \<Longrightarrow> inv (snd (run_ops step xs s))"
proof (induction xs arbitrary: s)
  case Nil
  then show ?case by simp
next
  case (Cons x xs)
  then have "inv (snd (step x s))" by (simp add: step_inv)
  then show ?case by (simp add: Cons.IH split: prod.splits)
       (metis Cons.IH snd_conv)
qed

end

end
