(* ===== verification/Quic_Buffer.thy ===== *)
theory Quic_Buffer
  imports Quic_Prelude
begin

text \<open>
  \<^verbatim>\<open>src/buffer.c\<close>: the growing byte buffer behind a stream's receive and transmit sides.
  A buffer is a \<^verbatim>\<open>zend_string *\<close>; both operations update it through a pointer and are
  functions to the new buffer here. \<open>byte_fifo\<close> is the contract the streams rely on.
\<close>

definition php_quic_buffer_append :: "zstring option \<Rightarrow> zstring \<Rightarrow> nat \<Rightarrow> zstring option" where
  "php_quic_buffer_append buffer data len =
     (if len = 0 then buffer
      else
        let b = (case buffer of None \<Rightarrow> '''' | Some s \<Rightarrow> s);
            current_len = length b
        in Some (take current_len b @ take len data))"

text \<open>\<^verbatim>\<open>memmove(p, p + off, n)\<close> on a block, and \<^verbatim>\<open>zend_string_truncate\<close>.\<close>

definition memmove_to_front :: "'a list \<Rightarrow> nat \<Rightarrow> nat \<Rightarrow> 'a list" where
  "memmove_to_front b off n = take n (drop off b) @ drop n b"

definition php_quic_buffer_read :: "zstring option \<Rightarrow> nat \<Rightarrow> zstring \<times> zstring option" where
  "php_quic_buffer_read buffer max_len =
     (case buffer of
        None \<Rightarrow> ('''', None)
      | Some b \<Rightarrow>
          if length b = 0 \<or> max_len = 0 then ('''', Some b)
          else
            let buffer_len = length b;
                read_len = (if max_len < buffer_len then max_len else buffer_len);
                chunk = take read_len b
            in if read_len = buffer_len then (chunk, Some '''')
               else (chunk,
                     Some (take (buffer_len - read_len)
                       (memmove_to_front b read_len (buffer_len - read_len)))))"

definition buffer_bytes :: "zstring option \<Rightarrow> zstring" where
  "buffer_bytes buffer = (case buffer of None \<Rightarrow> '''' | Some s \<Rightarrow> s)"

lemma buffer_bytes_simps [simp]:
  "buffer_bytes None = ''''"
  "buffer_bytes (Some s) = s"
  by (simp_all add: buffer_bytes_def)

subsection \<open>The contract\<close>

locale byte_fifo =
  fixes app :: "'b \<Rightarrow> 'a list \<Rightarrow> nat \<Rightarrow> 'b"
    and rd :: "'b \<Rightarrow> nat \<Rightarrow> 'a list \<times> 'b"
    and bytes :: "'b \<Rightarrow> 'a list"
  assumes bytes_app: "n \<le> length d \<Longrightarrow> bytes (app b d n) = bytes b @ take n d"
    and rd_chunk: "fst (rd b n) = take n (bytes b)"
    and rd_rest: "bytes (snd (rd b n)) = drop n (bytes b)"
begin

lemma rd_conserves: "fst (rd b n) @ bytes (snd (rd b n)) = bytes b"
  by (simp add: rd_chunk rd_rest)

lemma rd_progress: "0 < n \<Longrightarrow> bytes b \<noteq> [] \<Longrightarrow> fst (rd b n) \<noteq> []"
  by (simp add: rd_chunk)

lemma rd_all: "length (bytes b) \<le> n \<Longrightarrow> fst (rd b n) = bytes b \<and> bytes (snd (rd b n)) = []"
  by (simp add: rd_chunk rd_rest)

lemma rd_twice:
  "fst (rd b m) @ fst (rd (snd (rd b m)) n) = take (m + n) (bytes b)"
  by (simp add: rd_chunk rd_rest take_add)

end

interpretation buffer: byte_fifo php_quic_buffer_append php_quic_buffer_read buffer_bytes
proof unfold_locales
  fix b :: "zstring option" and d :: zstring and n :: nat
  show "buffer_bytes (php_quic_buffer_append b d n) = buffer_bytes b @ take n d"
    by (simp add: php_quic_buffer_append_def Let_def split: option.splits)
  show "fst (php_quic_buffer_read b n) = take n (buffer_bytes b)"
    by (simp add: php_quic_buffer_read_def Let_def split: option.splits)
  show "buffer_bytes (snd (php_quic_buffer_read b n)) = drop n (buffer_bytes b)"
    by (simp add: php_quic_buffer_read_def memmove_to_front_def Let_def split: option.splits)
qed

text \<open>The reader and the writer sides in any order: an abstract log of the operations.\<close>

datatype buffer_op = Append zstring | Read nat

fun buffer_run :: "buffer_op list \<Rightarrow> zstring option \<Rightarrow> zstring \<times> zstring option" where
  "buffer_run [] b = ('''', b)"
| "buffer_run (Append d # ops) b = buffer_run ops (php_quic_buffer_append b d (length d))"
| "buffer_run (Read n # ops) b =
     (let (chunk, b1) = php_quic_buffer_read b n;
          (rest, b2) = buffer_run ops b1
      in (chunk @ rest, b2))"

fun appended :: "buffer_op list \<Rightarrow> zstring" where
  "appended [] = ''''"
| "appended (Append d # ops) = d @ appended ops"
| "appended (Read n # ops) = appended ops"

text \<open>
  Over any interleaving of appends and reads a buffer is a byte FIFO: what the reads
  returned, in order, followed by what is still buffered, is exactly what was buffered at the
  start followed by everything appended. No byte is lost, duplicated or reordered.
\<close>

theorem buffer_fifo:
  "fst (buffer_run ops b) @ buffer_bytes (snd (buffer_run ops b)) = buffer_bytes b @ appended ops"
proof (induction ops b rule: buffer_run.induct)
  case (3 n ops b)
  obtain chunk b1 where r: "php_quic_buffer_read b n = (chunk, b1)" by fastforce
  have "chunk @ buffer_bytes b1 = buffer_bytes b"
    using buffer.rd_conserves[of b n] r by simp
  then show ?case
    using "3.IH"[OF r[symmetric]] r by (auto split: prod.splits simp flip: append_assoc) (metis append_assoc fst_conv snd_conv)
qed (simp_all add: buffer.bytes_app)

end
