(* ===== verification/Quic_Event.thy ===== *)
theory Quic_Event
  imports Quic_Prelude
begin

text \<open>
  \<^verbatim>\<open>src/event.c\<close> and the event part of \<^verbatim>\<open>src/internal/types.h\<close>: the native event
  record, the PHP event classes with their inheritance, and the objects built from native
  events. The inheritance relation is an instance of the library's class \<open>order\<close>:
  \<open>c \<le> d\<close> is \<^verbatim>\<open>c instanceof d\<close>.
\<close>

subsection \<open>Native events\<close>

definition PHP_QUIC_EVENT_HANDSHAKE_COMPLETED :: u32 where
  "PHP_QUIC_EVENT_HANDSHAKE_COMPLETED = 1"
definition PHP_QUIC_EVENT_CONNECTION_CLOSED :: u32 where
  "PHP_QUIC_EVENT_CONNECTION_CLOSED = 2"
definition PHP_QUIC_EVENT_CONNECTION_DRAINING :: u32 where
  "PHP_QUIC_EVENT_CONNECTION_DRAINING = 3"
definition PHP_QUIC_EVENT_STREAM_OPENED :: u32 where
  "PHP_QUIC_EVENT_STREAM_OPENED = 10"
definition PHP_QUIC_EVENT_STREAM_READABLE :: u32 where
  "PHP_QUIC_EVENT_STREAM_READABLE = 11"
definition PHP_QUIC_EVENT_STREAM_WRITABLE :: u32 where
  "PHP_QUIC_EVENT_STREAM_WRITABLE = 12"
definition PHP_QUIC_EVENT_STREAM_CLOSED :: u32 where
  "PHP_QUIC_EVENT_STREAM_CLOSED = 13"
definition PHP_QUIC_EVENT_STREAM_RESET :: u32 where
  "PHP_QUIC_EVENT_STREAM_RESET = 14"

lemmas event_codes =
  PHP_QUIC_EVENT_HANDSHAKE_COMPLETED_def PHP_QUIC_EVENT_CONNECTION_CLOSED_def
  PHP_QUIC_EVENT_CONNECTION_DRAINING_def PHP_QUIC_EVENT_STREAM_OPENED_def
  PHP_QUIC_EVENT_STREAM_READABLE_def PHP_QUIC_EVENT_STREAM_WRITABLE_def
  PHP_QUIC_EVENT_STREAM_CLOSED_def PHP_QUIC_EVENT_STREAM_RESET_def

record php_quic_event =
  ev_type :: u32
  ev_stream_id :: i64
  ev_error_code :: u64
  ev_by_peer :: bool
  ev_reason :: "zstring option"
  ev_timestamp :: u64

subsection \<open>The class hierarchy registered by \<^verbatim>\<open>php_ngtcp2_event_init\<close>\<close>

datatype event_class =
    Event
  | ConnectionEvent
  | StreamEvent
  | TerminalStreamEvent
  | HandshakeCompleted
  | ConnectionClosed
  | ConnectionDraining
  | StreamOpened
  | StreamReadable
  | StreamWritable
  | StreamClosed
  | StreamReset

fun event_class_parent :: "event_class \<Rightarrow> event_class option" where
  "event_class_parent Event = None"
| "event_class_parent ConnectionEvent = Some Event"
| "event_class_parent StreamEvent = Some Event"
| "event_class_parent TerminalStreamEvent = Some StreamEvent"
| "event_class_parent HandshakeCompleted = Some ConnectionEvent"
| "event_class_parent ConnectionClosed = Some ConnectionEvent"
| "event_class_parent ConnectionDraining = Some ConnectionEvent"
| "event_class_parent StreamOpened = Some StreamEvent"
| "event_class_parent StreamReadable = Some StreamEvent"
| "event_class_parent StreamWritable = Some StreamEvent"
| "event_class_parent StreamClosed = Some TerminalStreamEvent"
| "event_class_parent StreamReset = Some TerminalStreamEvent"

fun event_class_abstract :: "event_class \<Rightarrow> bool" where
  "event_class_abstract Event = True"
| "event_class_abstract ConnectionEvent = True"
| "event_class_abstract StreamEvent = True"
| "event_class_abstract TerminalStreamEvent = True"
| "event_class_abstract c = False"

text \<open>The class constants of \<^verbatim>\<open>Varion\\Ngtcp2\\Event\<close>.\<close>

definition event_class_constants :: "(string \<times> u32) list" where
  "event_class_constants =
     [(''HANDSHAKE_COMPLETED'', PHP_QUIC_EVENT_HANDSHAKE_COMPLETED),
      (''CONNECTION_CLOSED'', PHP_QUIC_EVENT_CONNECTION_CLOSED),
      (''CONNECTION_DRAINING'', PHP_QUIC_EVENT_CONNECTION_DRAINING),
      (''STREAM_OPENED'', PHP_QUIC_EVENT_STREAM_OPENED),
      (''STREAM_READABLE'', PHP_QUIC_EVENT_STREAM_READABLE),
      (''STREAM_WRITABLE'', PHP_QUIC_EVENT_STREAM_WRITABLE),
      (''STREAM_CLOSED'', PHP_QUIC_EVENT_STREAM_CLOSED),
      (''STREAM_RESET'', PHP_QUIC_EVENT_STREAM_RESET)]"

fun class_depth :: "event_class \<Rightarrow> nat" where
  "class_depth Event = 0"
| "class_depth ConnectionEvent = 1"
| "class_depth StreamEvent = 1"
| "class_depth TerminalStreamEvent = 2"
| "class_depth StreamClosed = 3"
| "class_depth StreamReset = 3"
| "class_depth c = 2"

lemma class_depth_parent: "event_class_parent c = Some p \<Longrightarrow> class_depth p < class_depth c"
  by (cases c) auto

function superclasses :: "event_class \<Rightarrow> event_class list" where
  "superclasses c =
     (case event_class_parent c of None \<Rightarrow> [c] | Some p \<Rightarrow> c # superclasses p)"
  by pat_completeness auto
termination
  by (relation "measure class_depth") (auto dest: class_depth_parent)

declare superclasses.simps [simp del]

lemma superclasses_self: "c \<in> set (superclasses c)"
  by (subst superclasses.simps) (simp split: option.split)

lemma superclasses_trans:
  "d \<in> set (superclasses c) \<Longrightarrow> set (superclasses d) \<subseteq> set (superclasses c)"
proof (induction c rule: superclasses.induct)
  case (1 c)
  then show ?case
    by (cases "event_class_parent c") (auto simp: superclasses.simps[of c] split: if_splits)
qed

lemma superclasses_depth:
  "d \<in> set (superclasses c) \<Longrightarrow> d = c \<or> class_depth d < class_depth c"
proof (induction c rule: superclasses.induct)
  case (1 c)
  then show ?case
    by (cases "event_class_parent c")
       (auto simp: superclasses.simps[of c] dest: class_depth_parent less_trans)
qed

instantiation event_class :: order
begin

definition less_eq_event_class :: "event_class \<Rightarrow> event_class \<Rightarrow> bool" where
  "less_eq_event_class c d \<longleftrightarrow> d \<in> set (superclasses c)"

definition less_event_class :: "event_class \<Rightarrow> event_class \<Rightarrow> bool" where
  "less_event_class c d \<longleftrightarrow> c \<le> d \<and> \<not> d \<le> (c :: event_class)"

instance
proof
  fix a b c :: event_class
  show "(a < b) = (a \<le> b \<and> \<not> b \<le> a)" by (rule less_event_class_def)
  show "a \<le> a" by (simp add: less_eq_event_class_def superclasses_self)
  show "a \<le> b \<Longrightarrow> b \<le> c \<Longrightarrow> a \<le> c"
    using superclasses_trans by (auto simp: less_eq_event_class_def)
  show "a \<le> b \<Longrightarrow> b \<le> a \<Longrightarrow> a = b"
    using superclasses_depth[of a b] superclasses_depth[of b a]
    by (auto simp: less_eq_event_class_def)
qed

end

subsection \<open>Event objects\<close>

record php_quic_event_object =
  eo_class :: event_class
  eo_type :: u32
  eo_stream_id :: i64
  eo_error_code :: u64
  eo_by_peer :: bool
  eo_reason :: zstring
  eo_timestamp :: u64

definition php_quic_event_create_object :: "event_class \<Rightarrow> php_quic_event_object" where
  "php_quic_event_create_object ce =
     \<lparr>eo_class = ce, eo_type = PHP_QUIC_EVENT_STREAM_OPENED, eo_stream_id = -1,
      eo_error_code = 0, eo_by_peer = False, eo_reason = '''', eo_timestamp = 0\<rparr>"

definition php_quic_event_class_for_type :: "u32 \<Rightarrow> event_class" where
  "php_quic_event_class_for_type t =
     (if t = PHP_QUIC_EVENT_HANDSHAKE_COMPLETED then HandshakeCompleted
      else if t = PHP_QUIC_EVENT_CONNECTION_CLOSED then ConnectionClosed
      else if t = PHP_QUIC_EVENT_CONNECTION_DRAINING then ConnectionDraining
      else if t = PHP_QUIC_EVENT_STREAM_READABLE then StreamReadable
      else if t = PHP_QUIC_EVENT_STREAM_WRITABLE then StreamWritable
      else if t = PHP_QUIC_EVENT_STREAM_CLOSED then StreamClosed
      else if t = PHP_QUIC_EVENT_STREAM_RESET then StreamReset
      else StreamOpened)"

definition php_quic_event_create_from_native :: "php_quic_event \<Rightarrow> php_quic_event_object" where
  "php_quic_event_create_from_native event =
     (let event_obj = php_quic_event_create_object (php_quic_event_class_for_type (ev_type event))
      in event_obj
        \<lparr>eo_type := ev_type event, eo_stream_id := ev_stream_id event,
         eo_error_code := ev_error_code event, eo_by_peer := ev_by_peer event,
         eo_timestamp := ev_timestamp event,
         eo_reason := (case ev_reason event of Some r \<Rightarrow> r | None \<Rightarrow> '''')\<rparr>)"

text \<open>
  \<^verbatim>\<open>Event::__construct\<close> on an object: optional arguments that were not passed are
  \<open>None\<close>; \<open>hrtime\<close> is what \<^verbatim>\<open>zend_hrtime()\<close> returned. The cast of the type to the
  enum keeps the low 32 bits.
\<close>

definition Event_construct ::
  "php_quic_event_object \<Rightarrow> zend_long \<Rightarrow> zend_long option \<Rightarrow> zend_long option \<Rightarrow> bool option \<Rightarrow>
   zstring option \<Rightarrow> u64 \<Rightarrow> php_quic_event_object" where
  "Event_construct event_obj type stream_id error_code by_peer reason hrtime =
     event_obj
       \<lparr>eo_type := ucast type,
        eo_stream_id := (case stream_id of None \<Rightarrow> -1 | Some s \<Rightarrow> s),
        eo_error_code := (case error_code of None \<Rightarrow> 0 | Some e \<Rightarrow> e),
        eo_by_peer := (case by_peer of None \<Rightarrow> False | Some b \<Rightarrow> b),
        eo_timestamp := hrtime div 1000000,
        eo_reason := (case reason of Some r \<Rightarrow> r | None \<Rightarrow> '''')\<rparr>"

definition Event_getType :: "php_quic_event_object \<Rightarrow> zend_long" where
  "Event_getType event_obj = ucast (eo_type event_obj)"
definition Event_getStreamId :: "php_quic_event_object \<Rightarrow> zend_long" where
  "Event_getStreamId event_obj = eo_stream_id event_obj"
definition Event_getErrorCode :: "php_quic_event_object \<Rightarrow> zend_long" where
  "Event_getErrorCode event_obj = eo_error_code event_obj"
definition Event_isByPeer :: "php_quic_event_object \<Rightarrow> bool" where
  "Event_isByPeer event_obj = eo_by_peer event_obj"
definition Event_getReason :: "php_quic_event_object \<Rightarrow> zstring" where
  "Event_getReason event_obj = eo_reason event_obj"
definition Event_getTimestamp :: "php_quic_event_object \<Rightarrow> zend_long" where
  "Event_getTimestamp event_obj = eo_timestamp event_obj"

lemmas event_getters =
  Event_getType_def Event_getStreamId_def Event_getErrorCode_def Event_isByPeer_def
  Event_getReason_def Event_getTimestamp_def

lemma event_class_concrete: "\<not> event_class_abstract (php_quic_event_class_for_type t)"
  by (simp add: php_quic_event_class_for_type_def)

lemma superclasses_of_concrete:
  "set (superclasses (php_quic_event_class_for_type t)) =
     (if t \<in> {PHP_QUIC_EVENT_HANDSHAKE_COMPLETED, PHP_QUIC_EVENT_CONNECTION_CLOSED,
               PHP_QUIC_EVENT_CONNECTION_DRAINING}
      then {php_quic_event_class_for_type t, ConnectionEvent, Event}
      else if t \<in> {PHP_QUIC_EVENT_STREAM_CLOSED, PHP_QUIC_EVENT_STREAM_RESET}
      then {php_quic_event_class_for_type t, TerminalStreamEvent, StreamEvent, Event}
      else {php_quic_event_class_for_type t, StreamEvent, Event})"
  by (auto simp: php_quic_event_class_for_type_def superclasses.simps event_codes)


end
