(* ===== verification/Quic_Event_Queue.thy ===== *)
theory Quic_Event_Queue
  imports Quic_Event
begin

text \<open>
  \<^verbatim>\<open>src/queue.c\<close>: the singly linked event queue with head and tail pointers. The nodes
  live in a store from addresses to nodes (the blocks \<^verbatim>\<open>emalloc\<close> handed out and
  \<^verbatim>\<open>efree\<close> did not take back); \<open>q_brk\<close> is the next address \<^verbatim>\<open>emalloc\<close> returns,
  one that was never returned before. \<open>queue_list\<close> reads the queue as the list of its
  events, and \<open>event_fifo\<close> is the contract the connection relies on.
\<close>

record php_quic_event_node =
  n_event :: php_quic_event
  n_next :: "nat option"

record php_quic_event_queue =
  q_head :: "nat option"
  q_tail :: "nat option"
  q_size :: u32
  q_nodes :: "(nat \<times> php_quic_event_node) list"
  q_brk :: nat

definition php_quic_event_queue_init :: php_quic_event_queue where
  "php_quic_event_queue_init =
     \<lparr>q_head = None, q_tail = None, q_size = 0, q_nodes = [], q_brk = 0\<rparr>"

text \<open>\<^verbatim>\<open>p->next = n\<close> through a pointer into the store.\<close>

definition set_next ::
  "nat \<Rightarrow> nat \<Rightarrow> (nat \<times> php_quic_event_node) list \<Rightarrow> (nat \<times> php_quic_event_node) list" where
  "set_next p n h = (case map_of h p of None \<Rightarrow> h | Some node \<Rightarrow> AList.update p (node\<lparr>n_next := Some n\<rparr>) h)"

definition php_quic_event_queue_push ::
  "php_quic_event_queue \<Rightarrow> php_quic_event \<Rightarrow> php_quic_event_queue" where
  "php_quic_event_queue_push queue event =
     (let node = q_brk queue;
          queue1 = queue\<lparr>q_nodes := AList.update node \<lparr>n_event = event, n_next = None\<rparr> (q_nodes queue),
                         q_brk := Suc node\<rparr>;
          queue2 = (case q_tail queue1 of
                      Some tail \<Rightarrow> queue1\<lparr>q_nodes := set_next tail node (q_nodes queue1)\<rparr>
                    | None \<Rightarrow> queue1\<lparr>q_head := Some node\<rparr>)
      in queue2\<lparr>q_tail := Some node, q_size := q_size queue2 + 1\<rparr>)"

text \<open>
  \<^verbatim>\<open>php_quic_event_queue_pop\<close>: \<open>None\<close> is the return value 0. A head pointer that is
  not in the store would be a dangling pointer; well-formed queues have none
  (\<open>queue_pop_Cons\<close>).
\<close>

definition php_quic_event_queue_pop ::
  "php_quic_event_queue \<Rightarrow> (php_quic_event \<times> php_quic_event_queue) option" where
  "php_quic_event_queue_pop queue =
     (case q_head queue of
        None \<Rightarrow> None
      | Some p \<Rightarrow>
          (case map_of (q_nodes queue) p of
             None \<Rightarrow> None
           | Some node \<Rightarrow>
               let queue1 = queue\<lparr>q_head := n_next node\<rparr>;
                   queue2 = (if q_head queue1 = None then queue1\<lparr>q_tail := None\<rparr> else queue1);
                   queue3 = queue2\<lparr>q_nodes := AList.delete p (q_nodes queue2)\<rparr>
               in Some (n_event node, queue3\<lparr>q_size := q_size queue3 - 1\<rparr>)))"

subsection \<open>The queue as a list\<close>

fun chain :: "(nat \<times> php_quic_event_node) list \<Rightarrow> nat option \<Rightarrow> nat list \<Rightarrow> bool" where
  "chain h p [] \<longleftrightarrow> p = None"
| "chain h p (a # as) \<longleftrightarrow>
     p = Some a \<and> (\<exists>node. map_of h a = Some node \<and> chain h (n_next node) as)"

fun follow :: "(nat \<times> php_quic_event_node) list \<Rightarrow> nat \<Rightarrow> nat option \<Rightarrow> php_quic_event list" where
  "follow h 0 p = []"
| "follow h (Suc fuel) None = []"
| "follow h (Suc fuel) (Some a) =
     (case map_of h a of None \<Rightarrow> [] | Some node \<Rightarrow> n_event node # follow h fuel (n_next node))"

definition queue_list :: "php_quic_event_queue \<Rightarrow> php_quic_event list" where
  "queue_list queue = follow (q_nodes queue) (length (q_nodes queue)) (q_head queue)"

definition queue_chain :: "php_quic_event_queue \<Rightarrow> nat list \<Rightarrow> bool" where
  "queue_chain queue as \<longleftrightarrow>
     chain (q_nodes queue) (q_head queue) as \<and>
     distinct as \<and>
     distinct (map fst (q_nodes queue)) \<and>
     set (map fst (q_nodes queue)) = set as \<and>
     (\<forall>a \<in> set as. a < q_brk queue) \<and>
     q_tail queue = (if as = [] then None else Some (last as)) \<and>
     q_size queue = of_nat (length as)"

definition queue_wf :: "php_quic_event_queue \<Rightarrow> bool" where
  "queue_wf queue \<longleftrightarrow> (\<exists>as. queue_chain queue as)"

definition node_events :: "(nat \<times> php_quic_event_node) list \<Rightarrow> nat list \<Rightarrow> php_quic_event list" where
  "node_events h as = map (\<lambda>a. n_event (the (map_of h a))) as"

lemma chain_cong:
  "(\<And>a. a \<in> set as \<Longrightarrow> map_of h' a = map_of h a) \<Longrightarrow> chain h' p as = chain h p as"
  by (induction as arbitrary: p) auto

lemma chain_append_cell:
  assumes "chain h p as" "as \<noteq> []" "distinct as" "map_of h (last as) = Some node"
    and "map_of h' (last as) = Some (node\<lparr>n_next := Some b\<rparr>)"
    and "\<And>a. a \<in> set as \<Longrightarrow> a \<noteq> last as \<Longrightarrow> map_of h' a = map_of h a"
    and "map_of h' b = Some nb" "n_next nb = None"
  shows "chain h' p (as @ [b])"
  using assms
proof (induction as arbitrary: p)
  case (Cons a as)
  show ?case
  proof (cases "as = []")
    case True
    with Cons.prems show ?thesis by auto
  next
    case False
    with Cons.prems have "a \<noteq> last as" by auto
    with Cons.prems False obtain na where
      "p = Some a" "map_of h' a = Some na" "map_of h a = Some na" "chain h (n_next na) as"
      by auto
    moreover have "chain h' (n_next na) (as @ [b])"
      using Cons.prems False \<open>chain h (n_next na) as\<close> by (intro Cons.IH) auto
    ultimately show ?thesis by simp
  qed
qed simp

lemma follow_chain:
  "chain h p as \<Longrightarrow> length as \<le> fuel \<Longrightarrow> follow h fuel p = node_events h as"
proof (induction as arbitrary: p fuel)
  case Nil
  then show ?case by (cases fuel) (auto simp: node_events_def)
next
  case (Cons a as)
  then obtain f where "fuel = Suc f" by (cases fuel) auto
  with Cons show ?case by (auto simp: node_events_def)
qed

lemma queue_chain_length:
  "queue_chain queue as \<Longrightarrow> length (q_nodes queue) = length as"
  unfolding queue_chain_def by (metis distinct_card length_map)

lemma queue_list_chain:
  "queue_chain queue as \<Longrightarrow> queue_list queue = node_events (q_nodes queue) as"
  using queue_chain_length[of queue as]
  by (simp add: queue_list_def follow_chain queue_chain_def)

lemma queue_chain_init: "queue_chain php_quic_event_queue_init []"
  by (simp add: queue_chain_def php_quic_event_queue_init_def)

lemma map_of_alist_update: "map_of (AList.update k v h) = (map_of h)(k \<mapsto> v)"
  by (simp add: update_conv')

lemma queue_chain_push_empty:
  assumes "queue_chain queue []"
  shows "queue_chain (php_quic_event_queue_push queue e) [q_brk queue] \<and>
    queue_list (php_quic_event_queue_push queue e) = [e]"
  using assms
  by (simp add: queue_chain_def php_quic_event_queue_push_def Let_def queue_list_def)

lemma queue_chain_push_nonempty:
  fixes e :: php_quic_event
  assumes q: "queue_chain queue as" and ne: "as \<noteq> []"
  defines "queue' \<equiv> php_quic_event_queue_push queue e"
  shows "queue_chain queue' (as @ [q_brk queue])"
    and "node_events (q_nodes queue') (as @ [q_brk queue]) = node_events (q_nodes queue) as @ [e]"
proof -
  let ?n = "q_brk queue" and ?t = "last as"
  let ?h1 = "AList.update ?n \<lparr>n_event = e, n_next = None\<rparr> (q_nodes queue)"
  have tail: "q_tail queue = Some ?t" and fresh: "\<forall>a \<in> set as. a < ?n" and d: "distinct as"
    and ch: "chain (q_nodes queue) (q_head queue) as" and keys: "fst ` set (q_nodes queue) = set as"
    using q ne by (auto simp: queue_chain_def)
  have t: "?t \<in> set as" "?t < ?n" using ne fresh by auto
  then obtain node where node: "map_of (q_nodes queue) ?t = Some node"
    using keys by (metis map_of_eq_None_iff not_None_eq)
  have h1t: "map_of ?h1 ?t = Some node" using t node by (simp add: map_of_alist_update)
  have q': "queue' = queue\<lparr>q_nodes := AList.update ?t (node\<lparr>n_next := Some ?n\<rparr>) ?h1,
      q_brk := Suc ?n, q_tail := Some ?n, q_size := q_size queue + 1\<rparr>"
    using tail h1t
    by (simp add: queue'_def php_quic_event_queue_push_def Let_def set_next_def)
  have head: "q_head queue' = q_head queue" by (simp add: q')
  let ?h = "q_nodes queue'"
  have m: "map_of ?h = (map_of (q_nodes queue))(?n \<mapsto> \<lparr>n_event = e, n_next = None\<rparr>,
      ?t \<mapsto> node\<lparr>n_next := Some ?n\<rparr>)"
    using t by (simp add: q' map_of_alist_update)
  have nt: "?n \<noteq> ?t" using t by simp
  have "chain ?h (q_head queue) (as @ [?n])"
    using ch ne d node fresh nt by (intro chain_append_cell[where node = node]) (auto simp: m)
  moreover have "distinct (as @ [?n])" using d fresh by auto
  moreover have "distinct (map fst ?h)" "set (map fst ?h) = set (as @ [?n])"
    using q t fresh by (auto simp: q' queue_chain_def keys_alist_update)
  ultimately show "queue_chain queue' (as @ [?n])"
    using q fresh less_Suc_eq by (auto simp: queue_chain_def head) (auto simp: q')
  show "node_events ?h (as @ [?n]) = node_events (q_nodes queue) as @ [e]"
    using fresh node nt by (auto simp: node_events_def m)
qed

lemma queue_push_list:
  assumes "queue_wf queue"
  shows "queue_wf (php_quic_event_queue_push queue e) \<and>
    queue_list (php_quic_event_queue_push queue e) = queue_list queue @ [e]"
proof -
  from assms obtain as where as: "queue_chain queue as" by (auto simp: queue_wf_def)
  show ?thesis
  proof (cases "as = []")
    case True
    with as queue_chain_push_empty[of queue e] queue_list_chain[OF as] show ?thesis
      by (auto simp: queue_wf_def node_events_def)
  next
    case False
    note p = queue_chain_push_nonempty[OF as False, of e]
    with queue_list_chain[OF as] queue_list_chain[OF p(1)] show ?thesis
      by (auto simp: queue_wf_def)
  qed
qed

lemma queue_pop_Nil:
  "queue_chain queue [] \<Longrightarrow> php_quic_event_queue_pop queue = None"
  by (simp add: queue_chain_def php_quic_event_queue_pop_def)

lemma queue_pop_Cons:
  assumes q: "queue_chain queue (a # as)"
  obtains queue' e where "php_quic_event_queue_pop queue = Some (e, queue')"
    and "queue_chain queue' as"
    and "node_events (q_nodes queue) (a # as) = e # node_events (q_nodes queue') as"
proof -
  from q obtain node where h: "q_head queue = Some a" and n: "map_of (q_nodes queue) a = Some node"
    and ch: "chain (q_nodes queue) (n_next node) as"
    by (auto simp: queue_chain_def)
  have a: "a \<notin> set as" using q by (simp add: queue_chain_def)
  define queue' where "queue' = queue\<lparr>q_head := n_next node,
      q_tail := (if n_next node = None then None else q_tail queue),
      q_nodes := AList.delete a (q_nodes queue), q_size := q_size queue - 1\<rparr>"
  have pop: "php_quic_event_queue_pop queue = Some (n_event node, queue')"
    using h n by (simp add: php_quic_event_queue_pop_def Let_def queue'_def)
  have m: "map_of (q_nodes queue') = (map_of (q_nodes queue))(a := None)"
    by (simp add: queue'_def delete_conv')
  have "chain (q_nodes queue') (n_next node) as"
    using ch a by (subst chain_cong[where h = "q_nodes queue"]) (auto simp: m)
  moreover have "n_next node = None \<longleftrightarrow> as = []" using ch by (cases as) auto
  moreover have "distinct (map fst (q_nodes queue'))" "set (map fst (q_nodes queue')) = set as"
    using q a by (auto simp: queue'_def queue_chain_def keys_alist_delete)
  ultimately have "queue_chain queue' as"
    using q by (auto simp: queue_chain_def) (auto simp: queue'_def)
  moreover have "node_events (q_nodes queue) (a # as) = n_event node # node_events (q_nodes queue') as"
    using a n by (auto simp: node_events_def m)
  ultimately show thesis using pop that by blast
qed

lemma queue_pop_list:
  assumes "queue_wf queue"
  shows "case php_quic_event_queue_pop queue of
      None \<Rightarrow> queue_list queue = []
    | Some (e, queue') \<Rightarrow> queue_wf queue' \<and> queue_list queue = e # queue_list queue'"
proof -
  from assms obtain as where as: "queue_chain queue as" by (auto simp: queue_wf_def)
  show ?thesis
  proof (cases as)
    case Nil
    with as queue_pop_Nil[of queue] queue_list_chain[OF as] show ?thesis
      by (simp add: node_events_def)
  next
    case (Cons a as')
    with as obtain queue' e where "php_quic_event_queue_pop queue = Some (e, queue')"
      "queue_chain queue' as'"
      "node_events (q_nodes queue) (a # as') = e # node_events (q_nodes queue') as'"
      by (auto elim: queue_pop_Cons)
    with as Cons queue_list_chain[of queue' as'] queue_list_chain[OF as] show ?thesis
      by (auto simp: queue_wf_def)
  qed
qed

subsection \<open>The contract\<close>

locale event_fifo =
  fixes init :: "'q"
    and push :: "'q \<Rightarrow> 'e \<Rightarrow> 'q"
    and pop :: "'q \<Rightarrow> ('e \<times> 'q) option"
    and items :: "'q \<Rightarrow> 'e list"
    and wf :: "'q \<Rightarrow> bool"
  assumes wf_init: "wf init"
    and items_init: "items init = []"
    and wf_push: "wf q \<Longrightarrow> wf (push q e)"
    and items_push: "wf q \<Longrightarrow> items (push q e) = items q @ [e]"
    and pop_None: "wf q \<Longrightarrow> pop q = None \<Longrightarrow> items q = []"
    and pop_Some: "wf q \<Longrightarrow> pop q = Some (e, q') \<Longrightarrow> wf q' \<and> items q = e # items q'"
begin

lemma pop_None_iff: "wf q \<Longrightarrow> pop q = None \<longleftrightarrow> items q = []"
  by (metis list.distinct(1) not_None_eq pop_None pop_Some surj_pair)

lemma pop_push: "wf q \<Longrightarrow> items q = [] \<Longrightarrow> \<exists>q'. pop (push q e) = Some (e, q') \<and> items q' = []"
  using items_push[of q e] pop_None_iff[OF wf_push[of q e]]
  by (cases "pop (push q e)") (auto dest: pop_Some[OF wf_push])

lemma wf_fold_push: "wf q \<Longrightarrow> wf (fold (\<lambda>e q. push q e) es q)"
  by (induction es arbitrary: q) (auto simp: wf_push)

lemma items_fold_push: "wf q \<Longrightarrow> items (fold (\<lambda>e q. push q e) es q) = items q @ es"
  by (induction es arbitrary: q) (auto simp: wf_push items_push)

end

interpretation event_queue: event_fifo php_quic_event_queue_init php_quic_event_queue_push
  php_quic_event_queue_pop queue_list queue_wf
proof unfold_locales
  show "queue_wf php_quic_event_queue_init"
    using queue_chain_init by (auto simp: queue_wf_def)
  show "queue_list php_quic_event_queue_init = []"
    by (simp add: queue_list_def php_quic_event_queue_init_def)
next
  fix q q' :: php_quic_event_queue and e :: php_quic_event
  assume wf: "queue_wf q"
  show "queue_wf (php_quic_event_queue_push q e)"
    and "queue_list (php_quic_event_queue_push q e) = queue_list q @ [e]"
    using queue_push_list[OF wf] by simp_all
  show "queue_list q = []" if "php_quic_event_queue_pop q = None"
    using queue_pop_list[OF wf] that by simp
  show "queue_wf q' \<and> queue_list q = e # queue_list q'"
    if "php_quic_event_queue_pop q = Some (e, q')"
    using queue_pop_list[OF wf] that by simp
qed

subsection \<open>Loops over the queue\<close>

lemma queue_pop_shrinks:
  "php_quic_event_queue_pop queue = Some (e, queue') \<Longrightarrow>
    length (q_nodes queue') < length (q_nodes queue)"
  by (auto simp: php_quic_event_queue_pop_def Let_def split: option.splits if_splits
      dest!: map_of_SomeD simp: AList.delete_eq intro!: length_filter_less)

function php_quic_event_queue_destroy :: "php_quic_event_queue \<Rightarrow> php_quic_event_queue" where
  "php_quic_event_queue_destroy queue =
     (case php_quic_event_queue_pop queue of
        None \<Rightarrow> queue
      | Some (event, queue1) \<Rightarrow> php_quic_event_queue_destroy queue1)"
  by pat_completeness auto
termination
  by (relation "measure (\<lambda>queue. length (q_nodes queue))") (auto dest: queue_pop_shrinks)

declare php_quic_event_queue_destroy.simps [simp del]

lemma queue_destroy_list:
  "queue_wf queue \<Longrightarrow> queue_wf (php_quic_event_queue_destroy queue) \<and>
    queue_list (php_quic_event_queue_destroy queue) = []"
proof (induction queue rule: php_quic_event_queue_destroy.induct)
  case (1 queue)
  show ?case
  proof (cases "php_quic_event_queue_pop queue")
    case None
    with 1 show ?thesis
      by (simp add: php_quic_event_queue_destroy.simps[of queue] event_queue.pop_None)
  next
    case (Some r)
    then obtain e queue' where "php_quic_event_queue_pop queue = Some (e, queue')"
      by (cases r) auto
    with 1 show ?thesis
      by (auto simp: php_quic_event_queue_destroy.simps[of queue] dest: event_queue.pop_Some)
  qed
qed

text \<open>Pushes and pops in any order, on the linked queue and on plain lists.\<close>

datatype queue_op = Push php_quic_event | Pop

fun queue_step :: "queue_op \<Rightarrow> php_quic_event_queue \<Rightarrow> php_quic_event option \<times> php_quic_event_queue" where
  "queue_step (Push e) queue = (None, php_quic_event_queue_push queue e)"
| "queue_step Pop queue =
     (case php_quic_event_queue_pop queue of
        None \<Rightarrow> (None, queue)
      | Some (e, queue') \<Rightarrow> (Some e, queue'))"

fun list_step :: "queue_op \<Rightarrow> php_quic_event list \<Rightarrow> php_quic_event option \<times> php_quic_event list" where
  "list_step (Push e) es = (None, es @ [e])"
| "list_step Pop [] = (None, [])"
| "list_step Pop (e # es) = (Some e, es)"

lemma queue_step_refines:
  assumes "queue_wf queue"
  shows "queue_wf (snd (queue_step op queue)) \<and>
    list_step op (queue_list queue) =
      (fst (queue_step op queue), queue_list (snd (queue_step op queue)))"
proof (cases op)
  case (Push e)
  with assms show ?thesis by (simp add: event_queue.wf_push event_queue.items_push)
next
  case Pop
  with queue_pop_list[OF assms] assms show ?thesis
    by (cases "php_quic_event_queue_pop queue") auto
qed

interpretation queue_machine: invariant_machine queue_step queue_wf
  by unfold_locales (use queue_step_refines in blast)

lemma queue_run_refines:
  "queue_wf queue \<Longrightarrow> run_ops list_step ops (queue_list queue) =
    (fst (run_ops queue_step ops queue), queue_list (snd (run_ops queue_step ops queue)))"
proof (induction ops arbitrary: queue)
  case (Cons op ops)
  from queue_step_refines[OF Cons.prems, of op]
  have "queue_wf (snd (queue_step op queue))" and
    "list_step op (queue_list queue) = (fst (queue_step op queue), queue_list (snd (queue_step op queue)))"
    by auto
  with Cons.IH[of "snd (queue_step op queue)"] show ?case
    by (auto split: prod.splits)
qed simp

lemma queue_size_list: "queue_wf queue \<Longrightarrow> q_size queue = of_nat (length (queue_list queue))"
  by (auto simp: queue_wf_def queue_list_chain node_events_def) (simp add: queue_chain_def)

text \<open>
  C17. The linked queue refines a list: from \<^verbatim>\<open>php_quic_event_queue_init\<close>, any sequence
  of pushes and pops returns exactly what the same sequence returns on a plain FIFO list, the
  pointers stay well formed (no dangling head, tail or next pointer, no leaked node) and the
  size field counts the queued events modulo 2^32.
\<close>

theorem queue_refines_fifo:
  "let (out, queue) = run_ops queue_step ops php_quic_event_queue_init in
     run_ops list_step ops [] = (out, queue_list queue) \<and>
     queue_wf queue \<and>
     length (q_nodes queue) = length (queue_list queue) \<and>
     q_size queue = of_nat (length (queue_list queue))"
proof -
  let ?r = "run_ops queue_step ops php_quic_event_queue_init"
  have wf: "queue_wf (snd ?r)"
    by (rule queue_machine.run_inv) (rule event_queue.wf_init)
  then have "length (q_nodes (snd ?r)) = length (queue_list (snd ?r))"
    by (auto simp: queue_wf_def queue_list_chain node_events_def queue_chain_length)
  with wf queue_run_refines[OF event_queue.wf_init, of ops] queue_size_list[OF wf] show ?thesis
    by (cases ?r) (simp add: event_queue.items_init)
qed

end
