(* ===== verification/Quic_Cstring.thy ===== *)
theory Quic_Cstring
  imports Quic_Prelude
begin

text \<open>
  The parts of the C library the address code uses, on NUL-terminated strings: a pointer into
  a \<^verbatim>\<open>zend_string\<close> is the string from that position on; every \<^verbatim>\<open>zend_string\<close> is
  followed by one NUL byte, and the C functions stop at the first NUL they meet, which may be
  an embedded one.
\<close>

abbreviation NUL :: char where "NUL \<equiv> CHR 0x00"

text \<open>\<^verbatim>\<open>s[i]\<close>, the terminating NUL included.\<close>

definition char_at :: "zstring \<Rightarrow> nat \<Rightarrow> char" where
  "char_at s i = (if i < length s then s ! i else NUL)"

text \<open>The C string a pointer denotes: up to the first NUL.\<close>

definition cstr :: "zstring \<Rightarrow> zstring" where
  "cstr s = takeWhile (\<lambda>c. c \<noteq> NUL) s"

fun strchr :: "zstring \<Rightarrow> char \<Rightarrow> nat option" where
  "strchr [] c = None"
| "strchr (x # xs) c =
     (if x = NUL then None else if x = c then Some 0 else map_option Suc (strchr xs c))"

fun strrchr :: "zstring \<Rightarrow> char \<Rightarrow> nat option" where
  "strrchr [] c = None"
| "strrchr (x # xs) c =
     (if x = NUL then None
      else case strrchr xs c of
        Some i \<Rightarrow> Some (Suc i)
      | None \<Rightarrow> if x = c then Some 0 else None)"

lemma strchr_Some:
  "strchr s c = Some i \<Longrightarrow> i < length s \<and> s ! i = c \<and> c \<noteq> NUL \<and> c \<notin> set (take i s) \<and> NUL \<notin> set (take i s)"
  by (induction s arbitrary: i) (auto split: if_splits)

lemma strrchr_Some:
  "strrchr s c = Some i \<Longrightarrow> i < length s \<and> s ! i = c \<and> c \<noteq> NUL \<and> NUL \<notin> set (take i s)"
  by (induction s arbitrary: i) (auto split: if_splits option.splits)

lemma strchr_append:
  "c \<notin> set xs \<Longrightarrow> NUL \<notin> set xs \<Longrightarrow> c \<noteq> NUL \<Longrightarrow> strchr (xs @ c # ys) c = Some (length xs)"
  by (induction xs) auto

lemma strrchr_None: "c \<notin> set xs \<Longrightarrow> strrchr xs c = None"
  by (induction xs) auto

lemma strrchr_append:
  "NUL \<notin> set xs \<Longrightarrow> c \<notin> set ys \<Longrightarrow> c \<noteq> NUL \<Longrightarrow>
    strrchr (xs @ c # ys) c = Some (length xs)"
  by (induction xs) (auto simp: strrchr_None)

subsection \<open>Decimal numbers\<close>

fun isspace :: "char \<Rightarrow> bool" where
  "isspace c \<longleftrightarrow> c = CHR '' '' \<or> c = CHR 0x09 \<or> c = CHR 0x0A \<or> c = CHR 0x0B \<or> c = CHR 0x0C \<or> c = CHR 0x0D"

definition digit_value :: "char \<Rightarrow> nat" where
  "digit_value c = (of_char c :: nat) - 48"

definition isdigit :: "char \<Rightarrow> bool" where
  "isdigit c \<longleftrightarrow> 48 \<le> (of_char c :: nat) \<and> (of_char c :: nat) \<le> 57"

definition digits_value :: "zstring \<Rightarrow> nat" where
  "digits_value ds = foldl (\<lambda>n c. 10 * n + digit_value c) 0 ds"

definition LONG_MAX :: int where "LONG_MAX = 9223372036854775807"
definition LONG_MIN :: int where "LONG_MIN = -9223372036854775808"

text \<open>
  \<^verbatim>\<open>strtol(s, &end, 10)\<close>: the value, saturated at the limits of \<^verbatim>\<open>long\<close>, and how far
  \<^verbatim>\<open>end\<close> is from \<^verbatim>\<open>s\<close> (0 if there was no number).
\<close>

definition strtol :: "zstring \<Rightarrow> int \<times> nat" where
  "strtol s =
     (let s1 = dropWhile isspace s;
          ws = length s - length s1;
          neg = (case s1 of c # _ \<Rightarrow> c = CHR ''-'' | [] \<Rightarrow> False);
          signed = (case s1 of c # _ \<Rightarrow> c = CHR ''-'' \<or> c = CHR ''+'' | [] \<Rightarrow> False);
          s2 = (if signed then tl s1 else s1);
          ds = takeWhile isdigit s2;
          v = (if neg then - int (digits_value ds) else int (digits_value ds))
      in if ds = [] then (0, 0)
         else (max LONG_MIN (min LONG_MAX v), ws + (if signed then 1 else 0) + length ds))"

text \<open>\<^verbatim>\<open>%ld\<close>.\<close>

fun show_nat :: "nat \<Rightarrow> zstring" where
  "show_nat n = (if n < 10 then [char_of (48 + n)] else show_nat (n div 10) @ [char_of (48 + n mod 10)])"

declare show_nat.simps [simp del]

definition show_long :: "zend_long \<Rightarrow> zstring" where
  "show_long n = (if sint n < 0 then CHR ''-'' # show_nat (nat (- sint n)) else show_nat (nat (sint n)))"

lemma digit_char: "d < 10 \<Longrightarrow> isdigit (char_of (48 + d)) \<and> digit_value (char_of (48 + d)) = d"
  by (auto simp: isdigit_def digit_value_def)

lemma isdigit_not_NUL: "isdigit c \<Longrightarrow> c \<noteq> NUL"
  by (auto simp: isdigit_def)

lemma show_nat_digits: "\<forall>c \<in> set (show_nat n). isdigit c"
proof (induction n rule: show_nat.induct)
  case (1 n)
  then show ?case
    using digit_char[of n] digit_char[of "n mod 10"]
    by (subst show_nat.simps) (auto split: if_splits)
qed

lemma show_nat_not_Nil [simp]: "show_nat n \<noteq> []"
  by (subst show_nat.simps) simp

lemma digits_value_snoc: "digits_value (ds @ [c]) = 10 * digits_value ds + digit_value c"
  by (simp add: digits_value_def)

lemma show_nat_length: "n < 10 ^ k \<Longrightarrow> 0 < k \<Longrightarrow> length (show_nat n) \<le> k"
proof (induction k arbitrary: n)
  case (Suc k)
  show ?case
  proof (cases "n < 10")
    case False
    with Suc.prems have "n div 10 < 10 ^ k" "0 < k" by (auto intro: gr0I simp: less_mult_imp_div_less mult.commute)
    from Suc.IH[OF this] False show ?thesis by (subst show_nat.simps) simp
  qed (subst show_nat.simps, simp)
qed simp

lemma digits_value_show_nat: "digits_value (show_nat n) = n"
proof (induction n rule: show_nat.induct)
  case (1 n)
  show ?case
  proof (cases "n < 10")
    case True
    then show ?thesis
      by (subst show_nat.simps) (use digit_char[of n] in \<open>simp add: digits_value_def\<close>)
  next
    case False
    with 1 digit_char[of "n mod 10"] show ?thesis
      by (subst show_nat.simps) (simp add: digits_value_snoc)
  qed
qed

lemma isdigit_not_special: "isdigit c \<Longrightarrow> \<not> isspace c \<and> c \<noteq> CHR ''-'' \<and> c \<noteq> CHR ''+'' \<and> c \<noteq> CHR '':''"
  by (auto simp: isdigit_def)

lemma strtol_show_nat:
  assumes "int n \<le> LONG_MAX"
  shows "strtol (show_nat n) = (int n, length (show_nat n))"
proof -
  obtain c cs where c: "show_nat n = c # cs" by (cases "show_nat n") auto
  have all: "\<forall>x \<in> set (show_nat n). isdigit x" by (rule show_nat_digits)
  then have "isdigit c" using c by simp
  with isdigit_not_special[of c] have d: "\<not> isspace c" "c \<noteq> CHR ''-''" "c \<noteq> CHR ''+''" by auto
  have "takeWhile isdigit (show_nat n) = show_nat n"
    using all by (simp add: takeWhile_eq_all_conv)
  moreover have "LONG_MIN \<le> int n" by (simp add: LONG_MIN_def)
  ultimately show ?thesis
    using d c assms digits_value_show_nat[of n] by (simp add: strtol_def Let_def del: isspace.simps)
qed

lemma strtol_range: "LONG_MIN \<le> fst (strtol s) \<and> fst (strtol s) \<le> LONG_MAX"
  by (simp add: strtol_def Let_def LONG_MIN_def LONG_MAX_def)

lemma show_nat_no_NUL: "NUL \<notin> set (show_nat n)"
  using show_nat_digits isdigit_not_NUL by blast

subsection \<open>What strtol reads\<close>

text \<open>
  A text with a decimal number up to its first NUL: white space, at most one sign, digits. These are
  the texts that \<^verbatim>\<open>strtol\<close> reads to the end.
\<close>

definition number_text :: "zstring \<Rightarrow> int \<Rightarrow> bool" where
  "number_text t p \<longleftrightarrow>
     (\<exists>ws sign ds. cstr t = ws @ sign @ ds \<and> (\<forall>c \<in> set ws. isspace c) \<and> sign \<in> {'''', ''+'', ''-''} \<and>
        ds \<noteq> '''' \<and> (\<forall>c \<in> set ds. isdigit c) \<and>
        p = (if sign = ''-'' then - int (digits_value ds) else int (digits_value ds)))"

lemma isspace_not_NUL: "isspace c \<Longrightarrow> c \<noteq> NUL"
  by auto

lemma char_at_drop: "char_at s (i + n) = char_at (drop i s) n"
  by (auto simp: char_at_def)

lemma char_at_append: "char_at (xs @ ys) (length xs) = char_at ys 0"
  by (auto simp: char_at_def nth_append)

lemma char_at_NUL: "char_at s 0 = NUL \<longleftrightarrow> cstr s = ''''"
  by (cases s) (auto simp: char_at_def cstr_def)

lemma cstr_append: "NUL \<notin> set xs \<Longrightarrow> cstr (xs @ ys) = xs @ cstr ys"
  by (induction xs) (auto simp: cstr_def)

lemma cstr_split: obtains tail where "t = cstr t @ tail" "cstr tail = ''''"
proof -
  have "t = cstr t @ dropWhile (\<lambda>c. c \<noteq> NUL) t" by (simp add: cstr_def)
  moreover have "cstr (dropWhile (\<lambda>c. c \<noteq> NUL) t) = ''''"
    by (induction t) (auto simp: cstr_def)
  ultimately show thesis using that by blast
qed

definition strtol_sign :: "zstring \<Rightarrow> zstring" where
  "strtol_sign s = (case s of c # _ \<Rightarrow> if c = CHR ''-'' \<or> c = CHR ''+'' then [c] else '''' | [] \<Rightarrow> '''')"

lemma strtol_eq:
  "strtol t =
    (let s1 = dropWhile isspace t; sign = strtol_sign s1; ds = takeWhile isdigit (drop (length sign) s1)
     in if ds = '''' then (0, 0)
        else (max LONG_MIN (min LONG_MAX (if sign = ''-'' then - int (digits_value ds) else int (digits_value ds))),
              length (takeWhile isspace t) + length sign + length ds))"
proof -
  have l: "length t - length (dropWhile isspace t) = length (takeWhile isspace t)"
    by (metis add_diff_cancel_right' length_append takeWhile_dropWhile_id)
  show ?thesis
  proof (cases "dropWhile isspace t")
    case Nil
    then show ?thesis unfolding strtol_def strtol_sign_def Let_def Nil by simp
  next
    case (Cons c cs)
    consider "c = CHR ''-''" | "c = CHR ''+''" | "c \<noteq> CHR ''-''" "c \<noteq> CHR ''+''" by blast
    then show ?thesis
      by cases (simp_all add: strtol_def strtol_sign_def l[unfolded Cons, simplified] Cons Let_def del: isspace.simps)
  qed
qed

lemma strtol_sign_cases:
  "strtol_sign s \<in> {'''', ''+'', ''-''}" "\<exists>s2. s = strtol_sign s @ s2" "NUL \<notin> set (strtol_sign s)"
  by (auto simp: strtol_sign_def split: list.splits)

lemma strtol_parts:
  assumes "t = ws @ sign @ ds @ tail" "\<forall>c \<in> set ws. isspace c" "sign \<in> {'''', ''+'', ''-''}"
    and "ds \<noteq> ''''" "\<forall>c \<in> set ds. isdigit c" "tail = '''' \<or> \<not> isdigit (hd tail)"
  shows "strtol t =
    (max LONG_MIN (min LONG_MAX (if sign = ''-'' then - int (digits_value ds) else int (digits_value ds))),
     length ws + length sign + length ds)"
proof -
  obtain d cs where d: "ds = d # cs" using assms(4) by (cases ds) auto
  have nd: "\<not> isspace d" "d \<noteq> CHR ''-''" "d \<noteq> CHR ''+''" using assms(5) d isdigit_not_special[of d] by auto
  have "sign @ ds @ tail \<noteq> []" "\<not> isspace (hd (sign @ ds @ tail))" using d nd(1) assms(3) by auto
  then have "takeWhile isspace (sign @ ds @ tail) = []" "dropWhile isspace (sign @ ds @ tail) = sign @ ds @ tail"
    by (cases "sign @ ds @ tail"; simp del: isspace.simps)+
  then have t: "takeWhile isspace t = ws" "dropWhile isspace t = sign @ ds @ tail"
    using assms(1,2) by (simp_all add: takeWhile_append2 dropWhile_append2 del: isspace.simps)
  have sg: "strtol_sign (sign @ ds @ tail) = sign" using assms(3) d nd(2,3) by (auto simp: strtol_sign_def)
  have "takeWhile isdigit tail = []" using assms(6) by (cases tail) auto
  then have "takeWhile isdigit (ds @ tail) = ds" using assms(5) by (simp add: takeWhile_append2)
  then show ?thesis using assms(4) unfolding strtol_eq t Let_def sg by simp
qed

text \<open>\<^verbatim>\<open>strtol\<close> reads a non-empty text up to its end exactly when it is a number.\<close>

lemma strtol_reads:
  assumes p: "0 \<le> p" "p \<le> 65535"
  shows "char_at t 0 \<noteq> NUL \<and> fst (strtol t) = p \<and> char_at t (snd (strtol t)) = NUL \<longleftrightarrow> number_text t p"
proof
  assume l: "char_at t 0 \<noteq> NUL \<and> fst (strtol t) = p \<and> char_at t (snd (strtol t)) = NUL"
  define ws where "ws = takeWhile isspace t"
  define sign where "sign = strtol_sign (dropWhile isspace t)"
  obtain s2 where s2: "dropWhile isspace t = sign @ s2" using strtol_sign_cases(2) unfolding sign_def by blast
  define ds where "ds = takeWhile isdigit s2"
  define rest where "rest = dropWhile isdigit s2"
  have t: "t = ws @ sign @ ds @ rest"
    unfolding ws_def ds_def rest_def takeWhile_dropWhile_id s2[symmetric] ..
  have e: "strtol t = (if ds = '''' then (0, 0)
      else (max LONG_MIN (min LONG_MAX (if sign = ''-'' then - int (digits_value ds) else int (digits_value ds))),
            length ws + length sign + length ds))"
    unfolding strtol_eq[of t] Let_def sign_def[symmetric] ws_def[symmetric] unfolding s2 ds_def by simp
  have ds: "ds \<noteq> ''''" using e l by auto
  have "char_at t (snd (strtol t)) = char_at rest 0"
    using e ds char_at_append[of "ws @ sign @ ds" rest] t by (simp add: add.assoc)
  then have "cstr rest = ''''" using l char_at_NUL by metis
  moreover have digits: "\<forall>c \<in> set ds. isdigit c" and spaces: "\<forall>c \<in> set ws. isspace c"
    unfolding ds_def ws_def by (metis set_takeWhileD)+
  moreover have "NUL \<notin> set (ws @ sign @ ds)"
    using digits spaces strtol_sign_cases(3) isdigit_not_NUL isspace_not_NUL unfolding sign_def set_append by blast
  ultimately have c: "cstr t = ws @ sign @ ds" using cstr_append[of "ws @ sign @ ds" rest] t by simp
  have "p = max LONG_MIN (min LONG_MAX (if sign = ''-'' then - int (digits_value ds) else int (digits_value ds)))"
    using l e ds by simp
  then have "p = (if sign = ''-'' then - int (digits_value ds) else int (digits_value ds))"
    using p by (simp add: LONG_MIN_def LONG_MAX_def min_def max_def split: if_splits)
  then show "number_text t p" unfolding number_text_def
    using c digits spaces ds strtol_sign_cases(1) unfolding sign_def by blast
next
  assume "number_text t p"
  then obtain ws sign ds where n: "cstr t = ws @ sign @ ds" "\<forall>c \<in> set ws. isspace c" "sign \<in> {'''', ''+'', ''-''}"
    "ds \<noteq> ''''" "\<forall>c \<in> set ds. isdigit c" "p = (if sign = ''-'' then - int (digits_value ds) else int (digits_value ds))"
    unfolding number_text_def by blast
  obtain tail where tail: "t = cstr t @ tail" "cstr tail = ''''" by (rule cstr_split)
  have t: "t = ws @ sign @ ds @ tail" using tail(1) n(1) by simp
  have "tail = '''' \<or> \<not> isdigit (hd tail)"
    using tail(2) isdigit_not_NUL by (cases tail) (auto simp: cstr_def split: if_splits)
  note e = strtol_parts[OF t n(2-5) this]
  have "char_at t (snd (strtol t)) = char_at tail 0"
    using char_at_append[of "ws @ sign @ ds" tail] t unfolding e by (simp add: add.assoc)
  moreover have "cstr t \<noteq> ''''" using n(1,4) by simp
  moreover have "fst (strtol t) = p"
    using p n(6) unfolding e by (simp add: LONG_MIN_def LONG_MAX_def split: if_splits)
  ultimately show "char_at t 0 \<noteq> NUL \<and> fst (strtol t) = p \<and> char_at t (snd (strtol t)) = NUL"
    using tail(2) char_at_NUL by metis
qed

end
