(* ===== verification/Quic_Address.thy ===== *)
theory Quic_Address
  imports Quic_Cstring
begin

text \<open>
  \<^verbatim>\<open>src/address.c\<close>: the PHP class \<^verbatim>\<open>Address\<close>, the parser of
  \<^verbatim>\<open>Address::fromString\<close>, and the conversions from and to socket addresses. The
  resolver \<^verbatim>\<open>getaddrinfo\<close> and \<^verbatim>\<open>inet_ntop\<close> depend on the system; they are parameters.
\<close>

record php_quic_address =
  ad_host :: zstring
  ad_port :: zend_long

definition php_quic_address_create_object :: php_quic_address where
  "php_quic_address_create_object = \<lparr>ad_host = '''', ad_port = 0\<rparr>"

subsection \<open>Parsing\<close>

text \<open>
  The tail of \<^verbatim>\<open>php_quic_address_parse_endpoint\<close> once host and port are located by
  positions in the string: \<open>FAILURE\<close> is \<open>None\<close>.
\<close>

definition parse_endpoint_port :: "zstring \<Rightarrow> nat \<Rightarrow> nat \<Rightarrow> nat \<Rightarrow> (zstring \<times> zend_long) option" where
  "parse_endpoint_port value host_start host_len port_start =
     (if char_at value port_start = NUL then None
      else
        let (parsed_port, n) = strtol (drop port_start value);
            endptr = port_start + n
        in if char_at value port_start = NUL \<or> char_at value endptr \<noteq> NUL then None
           else if parsed_port < 0 \<or> parsed_port > 65535 then None
           else Some (take host_len (drop host_start value), word_of_int parsed_port))"

definition php_quic_address_parse_endpoint :: "zstring \<Rightarrow> (zstring \<times> zend_long) option" where
  "php_quic_address_parse_endpoint value =
     (let len = length value in
      if len = 0 then None
      else if char_at value 0 = CHR ''['' then
        (case strchr (drop 1 value) (CHR '']'') of
           None \<Rightarrow> None
         | Some i \<Rightarrow>
             let closing = 1 + i; host_start = 1; host_len = closing - host_start in
             if host_len = 0 then None
             else if closing + 1 \<ge> len \<or> char_at value (closing + 1) \<noteq> CHR '':'' then None
             else parse_endpoint_port value host_start host_len (closing + 2))
      else
        (case strrchr value (CHR '':'') of
           None \<Rightarrow> None
         | Some sep \<Rightarrow>
             if sep = 0 then None
             else if strchr value (CHR '':'') \<noteq> Some sep then None
             else parse_endpoint_port value 0 sep (sep + 1)))"

definition Address_construct :: "php_quic_address \<Rightarrow> zstring \<Rightarrow> zend_long \<Rightarrow> php_quic_address" where
  "Address_construct address host port = address\<lparr>ad_host := host, ad_port := port\<rparr>"

definition Address_getHost :: "php_quic_address \<Rightarrow> zstring" where
  "Address_getHost address = ad_host address"

definition Address_getPort :: "php_quic_address \<Rightarrow> zend_long" where
  "Address_getPort address = ad_port address"

definition Address_fromString :: "zstring \<Rightarrow> php_quic_address outcome" where
  "Address_fromString endpoint =
     (case php_quic_address_parse_endpoint endpoint of
        None \<Rightarrow> Inl (Invalid_argument ''Address::fromString [endpoint]: invalid endpoint format, expected host:port or [ipv6]:port'')
      | Some (host, port) \<Rightarrow>
          Inr (php_quic_address_create_object\<lparr>ad_host := host, ad_port := port\<rparr>))"

subsection \<open>Socket addresses\<close>

datatype af = AF_INET | AF_INET6 | AF_OTHER int

record sockaddr =
  sa_family :: af
  sa_addr :: "u8 list"
  sa_port :: u16

type_synonym getaddrinfo = "zstring \<Rightarrow> zstring \<Rightarrow> sockaddr list option"

text \<open>
  \<open>getaddrinfo host service\<close> returns \<open>None\<close> for a nonzero status and the
  results in list order otherwise. \<^verbatim>\<open>php_quic_address_to_sockaddr\<close> takes the argument
  \<open>None\<close> for a value that is not an \<^verbatim>\<open>Address\<close> object. The eight bytes of
  \<^verbatim>\<open>port_buf\<close> hold every port that passed the range check (\<open>port_text_fits\<close>).
\<close>

lemma port_text_fits:
  assumes "0 \<le> sint port" "sint port \<le> 65535"
  shows "take 7 (show_long port) = show_long port"
proof -
  have "nat (sint port) < 10 ^ 5" using assms by simp
  then have "length (show_nat (nat (sint port))) \<le> 5" by (rule show_nat_length) simp
  with assms(1) show ?thesis by (simp add: show_long_def)
qed

definition php_quic_address_to_sockaddr ::
  "getaddrinfo \<Rightarrow> php_quic_address option \<Rightarrow> sockaddr option" where
  "php_quic_address_to_sockaddr gai address_zv =
     (case address_zv of
        None \<Rightarrow> None
      | Some address \<Rightarrow>
          if length (ad_host address) = 0 then None
          else if sint (ad_port address) < 0 \<or> sint (ad_port address) > 65535 then None
          else
            let port_buf = take 7 (show_long (ad_port address)) in
            case gai (cstr (ad_host address)) port_buf of
              None \<Rightarrow> None
            | Some res \<Rightarrow> find (\<lambda>rp. sa_family rp = AF_INET \<or> sa_family rp = AF_INET6) res)"

text \<open>\<^verbatim>\<open>addr\<close> is \<open>None\<close> for a \<^verbatim>\<open>NULL\<close> pointer; \<open>ntop\<close> is \<^verbatim>\<open>inet_ntop\<close>.\<close>

definition php_quic_address_init_from_sockaddr ::
  "(af \<Rightarrow> u8 list \<Rightarrow> zstring) \<Rightarrow> sockaddr option \<Rightarrow> php_quic_address" where
  "php_quic_address_init_from_sockaddr ntop addr =
     (let (host, port) =
            (case addr of
               None \<Rightarrow> ('''', 0 :: u16)
             | Some sa \<Rightarrow>
                 (case sa_family sa of
                    AF_INET \<Rightarrow> (ntop AF_INET (sa_addr sa), sa_port sa)
                  | AF_INET6 \<Rightarrow> (ntop AF_INET6 (sa_addr sa), sa_port sa)
                  | AF_OTHER _ \<Rightarrow> ('''', 0)))
      in php_quic_address_create_object\<lparr>ad_host := cstr host, ad_port := ucast port\<rparr>)"

subsection \<open>Lemmas\<close>

lemma sint_of_port: "0 \<le> p \<Longrightarrow> p \<le> 65535 \<Longrightarrow> sint (word_of_int p :: zend_long) = p"
  by (simp add: signed_take_bit_int_eq_self sint_sbintrunc')

lemma parse_port_show:
  assumes p: "p \<le> 65535" and v: "drop ps value = show_nat p"
  shows "parse_endpoint_port value hs hl ps = Some (take hl (drop hs value), word_of_int (int p))"
proof -
  have len: "length value = ps + length (show_nat p)"
  proof -
    have "length (show_nat p) = length value - ps" using v[symmetric] by simp
    moreover have "0 < length (show_nat p)" by simp
    ultimately show ?thesis by linarith
  qed
  have lt: "ps < length value" using len by (metis length_greater_0_conv less_add_same_cancel1 show_nat_not_Nil)
  then have "value ! ps = hd (show_nat p)"
    using v by (metis hd_drop_conv_nth)
  moreover have "hd (show_nat p) \<noteq> NUL"
    using show_nat_no_NUL[of p] show_nat_not_Nil hd_in_set by metis
  moreover have "strtol (drop ps value) = (int p, length (show_nat p))"
    unfolding v by (rule strtol_show_nat) (use p in \<open>simp add: LONG_MAX_def\<close>)
  ultimately show ?thesis
    using p len lt by (simp add: parse_endpoint_port_def char_at_def)
qed

lemma show_nat_no_colon: "CHR '':'' \<notin> set (show_nat n)"
  using show_nat_digits isdigit_not_special by blast

lemma host_no_colon:
  assumes "strchr value (CHR '':'') = Some sep"
  shows "CHR '':'' \<notin> set (take sep value) \<and> NUL \<notin> set (take sep value) \<and> sep < length value"
  using strchr_Some[OF assms] by auto

text \<open>The port part: the rest of the text is a number up to its first NUL, in the range of ports.\<close>

lemma parse_port_iff:
  "parse_endpoint_port endpoint hs hl ps = Some (host, port) \<longleftrightarrow>
     host = take hl (drop hs endpoint) \<and>
     (\<exists>p. number_text (drop ps endpoint) p \<and> 0 \<le> p \<and> p \<le> 65535 \<and> port = word_of_int p)"
proof -
  let ?t = "drop ps endpoint"
  obtain v n where vn: "strtol ?t = (v, n)" by fastforce
  have "parse_endpoint_port endpoint hs hl ps = Some (host, port) \<longleftrightarrow>
      (char_at ?t 0 \<noteq> NUL \<and> char_at ?t n = NUL \<and> 0 \<le> v \<and> v \<le> 65535) \<and>
      host = take hl (drop hs endpoint) \<and> port = word_of_int v"
    using char_at_drop[of endpoint ps 0] char_at_drop[of endpoint ps n]
    by (auto simp: parse_endpoint_port_def vn Let_def)
  also have "\<dots> \<longleftrightarrow> host = take hl (drop hs endpoint) \<and>
      (\<exists>p. number_text ?t p \<and> 0 \<le> p \<and> p \<le> 65535 \<and> port = word_of_int p)"
    using strtol_reads[of _ ?t] by (auto simp: vn)
  finally show ?thesis .
qed

text \<open>
  What an endpoint denotes: \<^verbatim>\<open>[host]:port\<close> or \<^verbatim>\<open>host:port\<close>, with a host that is not
  empty and has no NUL, and a number from 0 to 65535 for the port. A host in brackets has no closing
  bracket; a plain one has no colon and does not start with a bracket. Of the port only the text up
  to its first NUL counts.
\<close>

definition endpoint_denotes :: "zstring \<Rightarrow> php_quic_address \<Rightarrow> bool" where
  "endpoint_denotes endpoint address \<longleftrightarrow>
     (\<exists>port_text p.
        ((endpoint = CHR ''['' # ad_host address @ CHR '']'' # CHR '':'' # port_text \<and>
          CHR '']'' \<notin> set (ad_host address)) \<or>
         (endpoint = ad_host address @ CHR '':'' # port_text \<and>
          CHR '':'' \<notin> set (ad_host address) \<and> hd (ad_host address) \<noteq> CHR ''['')) \<and>
        ad_host address \<noteq> '''' \<and> NUL \<notin> set (ad_host address) \<and>
        number_text port_text p \<and> 0 \<le> p \<and> p \<le> 65535 \<and> ad_port address = word_of_int p)"

lemma number_no_colon: "number_text t p \<Longrightarrow> CHR '':'' \<notin> set (cstr t)"
  using isdigit_not_special unfolding number_text_def by fastforce

lemma bracket_parse:
  assumes e: "endpoint = CHR ''['' # host @ CHR '']'' # CHR '':'' # port_text"
    and host: "host \<noteq> ''''" "NUL \<notin> set host" "CHR '']'' \<notin> set host"
  shows "php_quic_address_parse_endpoint endpoint =
    parse_endpoint_port endpoint 1 (length host) (length host + 3)"
proof -
  have "strchr (host @ CHR '']'' # CHR '':'' # port_text) (CHR '']'') = Some (length host)"
    using host by (intro strchr_append) auto
  with host show ?thesis
    by (simp add: e php_quic_address_parse_endpoint_def char_at_def nth_append numeral_3_eq_3)
qed

lemma strrchr_cstr: "CHR '':'' \<notin> set (cstr t) \<Longrightarrow> strrchr t (CHR '':'') = None"
  by (induction t) (auto simp: cstr_def)

lemma strrchr_last:
  "NUL \<notin> set xs \<Longrightarrow> strrchr ys (CHR '':'') = None \<Longrightarrow> strrchr (xs @ CHR '':'' # ys) (CHR '':'') = Some (length xs)"
  by (induction xs) auto

lemma plain_parse:
  assumes e: "endpoint = host @ CHR '':'' # port_text" and "number_text port_text p"
    and host: "host \<noteq> ''''" "NUL \<notin> set host" "CHR '':'' \<notin> set host" "hd host \<noteq> CHR ''[''"
  shows "php_quic_address_parse_endpoint endpoint =
    parse_endpoint_port endpoint 0 (length host) (length host + 1)"
proof -
  have "strrchr endpoint (CHR '':'') = Some (length host)"
    unfolding e using strrchr_last[OF host(2) strrchr_cstr[OF number_no_colon[OF assms(2)]]] .
  moreover have "strchr endpoint (CHR '':'') = Some (length host)"
    unfolding e using host by (intro strchr_append) auto
  moreover have "char_at endpoint 0 = hd host" using host e by (cases host) (auto simp: char_at_def)
  ultimately show ?thesis using host e by (simp add: php_quic_address_parse_endpoint_def)
qed

lemma parse_denotes:
  assumes "endpoint_denotes endpoint address"
  shows "php_quic_address_parse_endpoint endpoint = Some (ad_host address, ad_port address)"
proof -
  let ?h = "ad_host address"
  from assms obtain t p where d:
    "(endpoint = CHR ''['' # ?h @ CHR '']'' # CHR '':'' # t \<and> CHR '']'' \<notin> set ?h) \<or>
     (endpoint = ?h @ CHR '':'' # t \<and> CHR '':'' \<notin> set ?h \<and> hd ?h \<noteq> CHR ''['')"
    and h: "?h \<noteq> ''''" "NUL \<notin> set ?h" and p: "number_text t p" "0 \<le> p" "p \<le> 65535" "ad_port address = word_of_int p"
    unfolding endpoint_denotes_def by blast
  from d show ?thesis
  proof
    assume e: "endpoint = CHR ''['' # ?h @ CHR '']'' # CHR '':'' # t \<and> CHR '']'' \<notin> set ?h"
    have "drop (length ?h + 3) endpoint = t" "take (length ?h) (drop 1 endpoint) = ?h"
      using e by (simp_all add: numeral_3_eq_3)
    with p bracket_parse[OF conjunct1[OF e] h conjunct2[OF e]] show ?thesis
      by (auto simp: parse_port_iff)
  next
    assume e: "endpoint = ?h @ CHR '':'' # t \<and> CHR '':'' \<notin> set ?h \<and> hd ?h \<noteq> CHR ''[''"
    then have "drop (length ?h + 1) endpoint = t" "take (length ?h) (drop 0 endpoint) = ?h" by simp_all
    with p plain_parse[OF conjunct1[OF e] p(1) h] e show ?thesis
      by (auto simp: parse_port_iff)
  qed
qed

lemma bracket_Some:
  assumes hp: "php_quic_address_parse_endpoint endpoint = Some (host, port)"
    and br: "hd endpoint = CHR ''[''"
  shows "endpoint_denotes endpoint \<lparr>ad_host = host, ad_port = port\<rparr>"
proof -
  from hp br obtain v where v: "endpoint = CHR ''['' # v"
    by (cases endpoint) (auto simp: php_quic_address_parse_endpoint_def)
  from hp v obtain i where i: "strchr v (CHR '']'') = Some i" "0 < i"
    and c: "char_at endpoint (2 + i) = CHR '':''" "2 + i < length endpoint"
    and p: "parse_endpoint_port endpoint 1 i (3 + i) = Some (host, port)"
    by (auto simp: php_quic_address_parse_endpoint_def char_at_def Let_def numeral_3_eq_3
        split: option.splits if_splits)
  have s: "i < length v" "v ! i = CHR '']''" "CHR '']'' \<notin> set (take i v)"
    "NUL \<notin> set (take i v)"
    using strchr_Some[OF i(1)] by auto
  have host: "host = take i v" using p v by (simp add: parse_port_iff)
  have "v ! Suc i = CHR '':''" "Suc i < length v" using c v by (auto simp: char_at_def)
  then have "drop (Suc i) v = CHR '':'' # drop (Suc (Suc i)) v"
    by (metis Cons_nth_drop_Suc)
  then have "host @ CHR '']'' # CHR '':'' # drop (Suc (Suc i)) v = v"
    using id_take_nth_drop[OF s(1), symmetric] s(2) host by simp
  then have "endpoint = CHR ''['' # host @ CHR '']'' # CHR '':'' # drop (Suc (Suc i)) v" using v by simp
  moreover have "drop (3 + i) endpoint = drop (Suc (Suc i)) v" using v by (simp add: numeral_3_eq_3)
  with p obtain q where "number_text (drop (Suc (Suc i)) v) q" "0 \<le> q" "q \<le> 65535" "port = word_of_int q"
    by (auto simp: parse_port_iff)
  moreover have "host \<noteq> ''''" using host s(1) i(2) by (cases v; cases i) auto
  ultimately show ?thesis using s(3,4) unfolding endpoint_denotes_def host by auto
qed

lemma plain_Some:
  assumes hp: "php_quic_address_parse_endpoint endpoint = Some (host, port)"
    and br: "hd endpoint \<noteq> CHR ''[''"
  shows "endpoint_denotes endpoint \<lparr>ad_host = host, ad_port = port\<rparr>"
proof -
  from hp br obtain sep where sep: "strchr endpoint (CHR '':'') = Some sep" "0 < sep"
    and p: "parse_endpoint_port endpoint 0 sep (sep + 1) = Some (host, port)"
    by (auto simp: php_quic_address_parse_endpoint_def char_at_def Let_def hd_conv_nth
        split: option.splits if_splits)
  have host: "host = take sep endpoint" using p by (simp add: parse_port_iff)
  have "endpoint = host @ CHR '':'' # drop (Suc sep) endpoint"
    using strchr_Some[OF sep(1)] host by (metis id_take_nth_drop)
  moreover have "hd host = hd endpoint" "host \<noteq> ''''" using host sep strchr_Some[OF sep(1)]
    by (cases endpoint; cases sep; auto)+
  moreover from p obtain q where "number_text (drop (Suc sep) endpoint) q" "0 \<le> q" "q \<le> 65535" "port = word_of_int q"
    by (auto simp: parse_port_iff)
  ultimately show ?thesis
    using host_no_colon[OF sep(1)] br unfolding endpoint_denotes_def host[symmetric] by auto
qed

text \<open>
  C32. \<^verbatim>\<open>Address::fromString\<close> accepts exactly the endpoints: it returns an address if and
  only if the text is \<^verbatim>\<open>host:port\<close> or \<^verbatim>\<open>[host]:port\<close>, the host not empty and
  without NUL, a plain one without a colon or a leading bracket, one in brackets without a closing
  bracket, and the port text, up to its first NUL, white space, an optional sign and digits with a
  value from 0 to 65535. The address is that host and that value. Every other text throws
  \<^verbatim>\<open>InvalidArgumentException\<close>.
\<close>

theorem fromString_exact:
  "case Address_fromString endpoint of
     Inl e \<Rightarrow> (\<exists>msg. e = Invalid_argument msg) \<and> \<not> (\<exists>address. endpoint_denotes endpoint address)
   | Inr address \<Rightarrow> (\<forall>other. endpoint_denotes endpoint other \<longleftrightarrow> other = address)"
proof (cases "php_quic_address_parse_endpoint endpoint")
  case None
  then show ?thesis using parse_denotes by (fastforce simp: Address_fromString_def)
next
  case (Some hp)
  then obtain host port where hp: "php_quic_address_parse_endpoint endpoint = Some (host, port)"
    by (cases hp) auto
  have "endpoint_denotes endpoint \<lparr>ad_host = host, ad_port = port\<rparr>"
    using bracket_Some[OF hp] plain_Some[OF hp] by blast
  moreover have "other = \<lparr>ad_host = host, ad_port = port\<rparr>" if "endpoint_denotes endpoint other" for other
    using parse_denotes[OF that] hp by (cases other) simp
  ultimately have "endpoint_denotes endpoint other \<longleftrightarrow> other = \<lparr>ad_host = host, ad_port = port\<rparr>" for other
    by blast
  moreover have "Address_fromString endpoint = Inr \<lparr>ad_host = host, ad_port = port\<rparr>"
    by (simp add: Address_fromString_def hp php_quic_address_create_object_def)
  ultimately show ?thesis by (simp only: sum.case) blast
qed

text \<open>
  C33. Round trip: printing a host and a port (0..65535) as \<^verbatim>\<open>host:port\<close>, or as
  \<^verbatim>\<open>[host]:port\<close> when the host contains a colon, gives an endpoint that
  \<^verbatim>\<open>Address::fromString\<close> reads back as the same host and port, for every non-empty host
  without NUL, closing bracket or leading bracket.
\<close>

theorem fromString_roundtrip:
  assumes host: "host \<noteq> ''''" "NUL \<notin> set host" "CHR '']'' \<notin> set host" "hd host \<noteq> CHR ''[''"
    and port: "p \<le> 65535"
  shows "Address_fromString
      (if CHR '':'' \<in> set host then CHR ''['' # host @ CHR '']'' # CHR '':'' # show_nat p
       else host @ CHR '':'' # show_nat p) = Inr \<lparr>ad_host = host, ad_port = word_of_int (int p)\<rparr>"
proof (cases "CHR '':'' \<in> set host")
  case True
  let ?e = "CHR ''['' # host @ CHR '']'' # CHR '':'' # show_nat p"
  have "strchr (host @ CHR '']'' # CHR '':'' # show_nat p) (CHR '']'') = Some (length host)"
    using host by (intro strchr_append) auto
  moreover have "drop (length host + 3) ?e = show_nat p" by (simp add: numeral_3_eq_3)
  ultimately have "php_quic_address_parse_endpoint ?e = Some (host, word_of_int (int p))"
    using host port parse_port_show[of p "length host + 3" ?e 1 "length host"]
    by (simp add: php_quic_address_parse_endpoint_def char_at_def nth_append numeral_3_eq_3)
  with True show ?thesis
    by (simp add: Address_fromString_def php_quic_address_create_object_def)
next
  case False
  let ?e = "host @ CHR '':'' # show_nat p"
  have "strchr ?e (CHR '':'') = Some (length host)" "strrchr ?e (CHR '':'') = Some (length host)"
    using host False show_nat_no_colon by (auto intro!: strchr_append strrchr_append)
  moreover have "drop (length host + 1) ?e = show_nat p" by simp
  moreover have "char_at ?e 0 = hd host" using host by (cases host) (auto simp: char_at_def)
  ultimately have "php_quic_address_parse_endpoint ?e = Some (host, word_of_int (int p))"
    using host port parse_port_show[of p "length host + 1" ?e 0 "length host"]
    by (simp add: php_quic_address_parse_endpoint_def)
  with False show ?thesis
    by (simp add: Address_fromString_def php_quic_address_create_object_def)
qed

theorem fromString_roundtrip_witness:
  "Address_fromString (CHR ''['' # ''::1'' @ CHR '']'' # CHR '':'' # show_nat 443) =
     Inr \<lparr>ad_host = ''::1'', ad_port = word_of_int (int 443)\<rparr>"
  using fromString_roundtrip[of "''::1''" 443] by simp

end
