(* ===== verification/Quic_Ngtcp2.thy ===== *)
theory Quic_Ngtcp2
  imports Quic_Address
begin

text \<open>
  The interface of the libraries the extension is glue for. None of their code is in the
  repository, so every function is a parameter: the field of a record that every definition
  takes as its argument \<open>L\<close>. The type \<open>'c\<close> is the state behind an \<^verbatim>\<open>ngtcp2_conn *\<close>;
  a call takes it and returns the new one. Theorems hold for every \<open>L\<close>; where one needs a
  documented behaviour of the library it is a named hypothesis about the fields.

  ngtcp2 calls back into the extension during a call. A call that can do so returns the list
  of the callbacks it made, in order, with the arguments it passed, and the caller runs the
  extension's callbacks on its own state. \<open>Cb_stream_open\<close> carries the \<^verbatim>\<open>ngtcp2_conn\<close> the
  callback receives, the only callback that looks at it.
\<close>

datatype 'c ngtcp2_callback =
    Cb_handshake_completed
  | Cb_stream_open 'c i64
  | Cb_recv_stream_data u32 i64 u64 zstring
  | Cb_stream_close u32 i64 u64
  | Cb_stream_reset i64 u64 u64
  | Cb_acked_stream_data_offset i64 u64 u64

text \<open>An address of a path is \<open>None\<close> when its storage is still all zero.\<close>

record ngtcp2_path =
  path_local :: "sockaddr option"
  path_remote :: "sockaddr option"

text \<open>\<^verbatim>\<open>ngtcp2_ccerr\<close>: the fields the extension sets or reads.\<close>

record ngtcp2_ccerr =
  ce_error_code :: u64
  ce_reason :: zstring

record ngtcp2_transport_params =
  initial_max_streams_bidi :: u64
  initial_max_streams_uni :: u64
  initial_max_stream_data_bidi_local :: u64
  initial_max_stream_data_bidi_remote :: u64
  initial_max_stream_data_uni :: u64
  initial_max_data :: u64
  max_idle_timeout :: u64
  active_connection_id_limit :: u64
  stateless_reset_token :: "zstring option"
  original_dcid :: "zstring option"

record ngtcp2_version_cid =
  vc_version :: u32
  vc_dcid :: zstring
  vc_scid :: zstring

record 'c ngtcp2 =
  NGTCP2_MILLISECONDS :: u64
  NGTCP2_SECONDS :: u64
  NGTCP2_STREAM_DATA_FLAG_FIN :: u32
  NGTCP2_STREAM_CLOSE_FLAG_APP_ERROR_CODE_SET :: u32
  NGTCP2_WRITE_STREAM_FLAG_MORE :: u32
  NGTCP2_WRITE_STREAM_FLAG_FIN :: u32
  NGTCP2_MIN_INITIAL_DCIDLEN :: nat
  NGTCP2_MAX_CIDLEN :: nat
  NGTCP2_STATELESS_RESET_TOKENLEN :: nat
  NGTCP2_PROTO_VER_V1 :: u32
  ngtcp2_is_bidi_stream :: "i64 \<Rightarrow> bool"
  ngtcp2_is_supported_version :: "u32 \<Rightarrow> bool"
  ngtcp2_ccerr_default :: ngtcp2_ccerr
  ngtcp2_ccerr_set_liberr :: "ngtcp2_err \<Rightarrow> ngtcp2_ccerr"
  ngtcp2_ccerr_set_tls_alert :: "u8 \<Rightarrow> ngtcp2_ccerr"
  ngtcp2_ccerr_set_application_error :: "u64 \<Rightarrow> zstring \<Rightarrow> ngtcp2_ccerr"
  ngtcp2_transport_params_default :: ngtcp2_transport_params
  ngtcp2_pkt_decode_version_cid :: "zstring \<Rightarrow> ngtcp2_err option \<times> ngtcp2_version_cid"
  ngtcp2_conn_is_server :: "'c \<Rightarrow> bool"
  ngtcp2_conn_is_local_stream :: "'c \<Rightarrow> i64 \<Rightarrow> bool"
  ngtcp2_conn_in_draining_period :: "'c \<Rightarrow> bool"
  ngtcp2_conn_in_closing_period :: "'c \<Rightarrow> bool"
  ngtcp2_conn_get_ccerr :: "'c \<Rightarrow> ngtcp2_ccerr option"
  ngtcp2_conn_get_tls_alert :: "'c \<Rightarrow> u8"
  ngtcp2_conn_get_expiry :: "'c \<Rightarrow> u64"
  ngtcp2_conn_handle_expiry :: "'c \<Rightarrow> u64 \<Rightarrow>
    ngtcp2_err option \<times> 'c ngtcp2_callback list \<times> 'c"
  ngtcp2_conn_read_pkt :: "'c \<Rightarrow> ngtcp2_path \<Rightarrow> zstring \<Rightarrow> u64 \<Rightarrow>
    ngtcp2_err option \<times> 'c ngtcp2_callback list \<times> 'c"
  ngtcp2_conn_open_bidi_stream :: "'c \<Rightarrow> ngtcp2_err option \<times> i64 \<times> 'c"
  ngtcp2_conn_open_uni_stream :: "'c \<Rightarrow> ngtcp2_err option \<times> i64 \<times> 'c"
  ngtcp2_conn_shutdown_stream :: "'c \<Rightarrow> u32 \<Rightarrow> i64 \<Rightarrow> u64 \<Rightarrow> ngtcp2_err option \<times> 'c"
  ngtcp2_conn_writev_stream :: "'c \<Rightarrow> nat \<Rightarrow> u32 \<Rightarrow> i64 \<Rightarrow> zstring option \<Rightarrow> u64 \<Rightarrow>
    (ngtcp2_err + zstring) \<times> int \<times> 'c ngtcp2_callback list \<times> 'c"
  ngtcp2_conn_write_connection_close :: "'c \<Rightarrow> nat \<Rightarrow> ngtcp2_ccerr \<Rightarrow> u64 \<Rightarrow>
    (ngtcp2_err + zstring) \<times> 'c ngtcp2_callback list \<times> 'c"
  ngtcp2_conn_client_new :: "zstring \<Rightarrow> zstring \<Rightarrow> ngtcp2_path \<Rightarrow> u32 \<Rightarrow> u64 \<Rightarrow>
    ngtcp2_transport_params \<Rightarrow> ngtcp2_err option \<times> 'c"
  ngtcp2_conn_server_new :: "zstring \<Rightarrow> zstring \<Rightarrow> ngtcp2_path \<Rightarrow> u32 \<Rightarrow> u64 \<Rightarrow>
    ngtcp2_transport_params \<Rightarrow> ngtcp2_err option \<times> 'c"
  ngtcp2_conn_set_tls_native_handle :: "'c \<Rightarrow> nat option \<Rightarrow> 'c"

text \<open>
  Reading the results: a status is \<open>None\<close> for 0. \<open>ngtcp2_conn_writev_stream\<close> takes the
  size of the packet buffer, the flags, the stream id, the data vector (\<open>None\<close> when it is
  empty) and the time, and returns a negative code or the packet (empty for 0), the value
  stored through \<^verbatim>\<open>pdatalen\<close>, its callbacks and the new state.
\<close>

end
