(* ===== verification/Quic_Connection.thy ===== *)
theory Quic_Connection
  imports Quic_Ngtcp2 Quic_Buffer Quic_Event_Queue
begin

text \<open>
  The state of a connection (\<^verbatim>\<open>php_quic_connection\<close> and \<^verbatim>\<open>php_quic_stream_entry\<close> in
  \<^verbatim>\<open>src/internal/types.h\<close>) and the helpers of \<^verbatim>\<open>src/connection.c\<close> that do not call
  back into the library: events, stream entries, the state flags, stream ids, and the
  bookkeeping of what has been handed to the library for sending.

  The pointer to a stream entry stays valid as long as the connection lives (entries are never
  removed), so a pointer is the key of its slot in the table.

  \<open>c_hrtime\<close> and \<open>c_reads\<close> are not in the C structure: they are the values
  \<^verbatim>\<open>zend_hrtime()\<close> will return to this connection and how many it has read so far, so that
  every reading of the monotonic clock in the code is a reading of its own here.
\<close>

unbundle bit_operations_syntax

record php_quic_stream_entry =
  se_stream_id :: i64
  se_rx_buffer :: "zstring option"
  se_tx_buffer :: "zstring option"
  se_tx_offset :: u64
  se_readable :: bool
  se_writable :: bool
  se_closed :: bool
  se_reset :: bool
  se_fin_sent :: bool
  se_fin_recv :: bool
  se_fin_pending :: bool
  se_pending_open :: bool

datatype address_zval = Addr_undef | Addr_null | Addr php_quic_address

record 'c php_quic_connection =
  c_conn :: "'c option"
  c_cred :: "nat option"
  c_session :: "nat option"
  c_last_error :: ngtcp2_ccerr
  c_remote_addr :: "sockaddr option"
  c_local_addr :: "sockaddr option"
  c_remote_address_zv :: address_zval
  c_local_address_zv :: address_zval
  c_close_reason :: "zstring option"
  c_streams :: "(u64, php_quic_stream_entry) hash_table"
  c_events :: php_quic_event_queue
  c_next_bidi_stream_id :: i64
  c_next_uni_stream_id :: i64
  c_established :: bool
  c_draining :: bool
  c_closed :: bool
  c_close_requested :: bool
  c_close_packet_sent :: bool
  c_close_event_emitted :: bool
  c_draining_event_emitted :: bool
  c_hrtime :: "nat \<Rightarrow> u64"
  c_reads :: nat

definition php_quic_connection_create_object ::
  "'c ngtcp2 \<Rightarrow> (nat \<Rightarrow> u64) \<Rightarrow> 'c php_quic_connection" where
  "php_quic_connection_create_object L hr =
     \<lparr>c_conn = None, c_cred = None, c_session = None,
      c_last_error = ngtcp2_ccerr_default L,
      c_remote_addr = None, c_local_addr = None,
      c_remote_address_zv = Addr_undef, c_local_address_zv = Addr_undef,
      c_close_reason = None, c_streams = [], c_events = php_quic_event_queue_init,
      c_next_bidi_stream_id = 0, c_next_uni_stream_id = 2,
      c_established = False, c_draining = False, c_closed = False,
      c_close_requested = False, c_close_packet_sent = False,
      c_close_event_emitted = False, c_draining_event_emitted = False,
      c_hrtime = hr, c_reads = 0\<rparr>"

subsection \<open>Time\<close>

definition php_quic_timestamp :: "'c php_quic_connection \<Rightarrow> u64 \<times> 'c php_quic_connection" where
  "php_quic_timestamp c = (c_hrtime c (c_reads c), c\<lparr>c_reads := Suc (c_reads c)\<rparr>)"

text \<open>
  \<^verbatim>\<open>gettimeofday\<close> is a parameter: \<open>None\<close> when it fails, else seconds and microseconds.
\<close>

definition php_quic_epoch_milliseconds :: "(zend_long \<times> zend_long) option \<Rightarrow> zend_long" where
  "php_quic_epoch_milliseconds tv =
     (case tv of None \<Rightarrow> 0 | Some (sec, usec) \<Rightarrow> sec * 1000 + word_of_int (sint usec div 1000))"

definition php_quic_connection_get_next_expiry ::
  "'c ngtcp2 \<Rightarrow> 'c php_quic_connection \<Rightarrow> (u64 \<times> u64) option \<times> 'c php_quic_connection" where
  "php_quic_connection_get_next_expiry L c =
     (case c_conn c of
        None \<Rightarrow> (None, c)
      | Some n \<Rightarrow>
          if c_closed c then (None, c)
          else let (now, c1) = php_quic_timestamp c
               in (Some (now, ngtcp2_conn_get_expiry L n), c1))"

definition php_quic_connection_get_next_timeout_ms ::
  "'c ngtcp2 \<Rightarrow> 'c php_quic_connection \<Rightarrow> zend_long option \<times> 'c php_quic_connection" where
  "php_quic_connection_get_next_timeout_ms L c =
     (case php_quic_connection_get_next_expiry L c of
        (None, c1) \<Rightarrow> (None, c1)
      | (Some (now, expiry), c1) \<Rightarrow>
          if expiry \<le> now then (Some 0, c1)
          else (Some ((expiry - now) div NGTCP2_MILLISECONDS L), c1))"

fun php_quic_connection_is_nonfatal_closing_error :: "ngtcp2_err \<Rightarrow> bool" where
  "php_quic_connection_is_nonfatal_closing_error rv \<longleftrightarrow>
     rv = NGTCP2_ERR_CLOSING \<or> rv = NGTCP2_ERR_DRAINING \<or> rv = NGTCP2_ERR_IDLE_CLOSE"

subsection \<open>Events\<close>

definition php_quic_connection_push_event ::
  "'c php_quic_connection \<Rightarrow> u32 \<Rightarrow> i64 \<Rightarrow> u64 \<Rightarrow> bool \<Rightarrow> zstring option \<Rightarrow> 'c php_quic_connection" where
  "php_quic_connection_push_event c type stream_id error_code by_peer reason =
     (let (hrtime, c1) = php_quic_timestamp c;
          event = \<lparr>ev_type = type, ev_stream_id = stream_id, ev_error_code = error_code,
                   ev_by_peer = by_peer, ev_reason = map_option cstr reason,
                   ev_timestamp = hrtime div 1000000\<rparr>
      in c1\<lparr>c_events := php_quic_event_queue_push (c_events c1) event\<rparr>)"

definition php_quic_connection_sync_state ::
  "'c ngtcp2 \<Rightarrow> 'c php_quic_connection \<Rightarrow> 'c php_quic_connection" where
  "php_quic_connection_sync_state L c =
     (case c_conn c of
        None \<Rightarrow> c
      | Some n \<Rightarrow>
          let c1 =
                (if ngtcp2_conn_in_draining_period L n then
                   let c = c\<lparr>c_draining := True\<rparr> in
                   if \<not> c_draining_event_emitted c then
                     php_quic_connection_push_event (c\<lparr>c_draining_event_emitted := True\<rparr>)
                       PHP_QUIC_EVENT_CONNECTION_DRAINING (-1) 0 True None
                   else c
                 else c)
          in if ngtcp2_conn_in_closing_period L n \<or> ngtcp2_conn_in_draining_period L n then
               let c2 = c1\<lparr>c_closed := True\<rparr> in
               if \<not> c_close_event_emitted c2 then
                 let error_code = (case ngtcp2_conn_get_ccerr L n of
                                     None \<Rightarrow> 0 | Some ccerr \<Rightarrow> ce_error_code ccerr)
                 in (php_quic_connection_push_event c2 PHP_QUIC_EVENT_CONNECTION_CLOSED (-1)
                       error_code True None)\<lparr>c_close_event_emitted := True\<rparr>
               else c2
             else c1)"

subsection \<open>Stream entries\<close>

definition php_quic_stream_entry_alloc :: "i64 \<Rightarrow> php_quic_stream_entry" where
  "php_quic_stream_entry_alloc stream_id =
     \<lparr>se_stream_id = stream_id, se_rx_buffer = Some '''', se_tx_buffer = Some '''',
      se_tx_offset = 0, se_readable = False, se_writable = True, se_closed = False,
      se_reset = False, se_fin_sent = False, se_fin_recv = False, se_fin_pending = False,
      se_pending_open = False\<rparr>"

definition php_quic_connection_get_stream_entry ::
  "'c php_quic_connection \<Rightarrow> i64 \<Rightarrow> php_quic_stream_entry option" where
  "php_quic_connection_get_stream_entry c stream_id = zend_hash_find (c_streams c) stream_id"

definition put_stream_entry ::
  "'c php_quic_connection \<Rightarrow> u64 \<Rightarrow> php_quic_stream_entry \<Rightarrow> 'c php_quic_connection" where
  "put_stream_entry c k entry = c\<lparr>c_streams := zend_hash_update k entry (c_streams c)\<rparr>"

definition php_quic_connection_open_stream_entry ::
  "'c php_quic_connection \<Rightarrow> i64 \<Rightarrow> php_quic_stream_entry \<times> 'c php_quic_connection" where
  "php_quic_connection_open_stream_entry c stream_id =
     (case php_quic_connection_get_stream_entry c stream_id of
        Some entry \<Rightarrow> (entry, c)
      | None \<Rightarrow>
          let entry = php_quic_stream_entry_alloc stream_id
          in (entry, put_stream_entry c stream_id entry))"

definition php_quic_connection_ensure_next_stream_id ::
  "'c ngtcp2 \<Rightarrow> 'c php_quic_connection \<Rightarrow> bool \<Rightarrow> 'c php_quic_connection" where
  "php_quic_connection_ensure_next_stream_id L c bidi =
     (let server = (case c_conn c of None \<Rightarrow> False | Some n \<Rightarrow> ngtcp2_conn_is_server L n);
          minimum_stream_id = (if server then (if bidi then 1 else 3)
                               else (if bidi then 0 else 2)) :: i64;
          next_stream_id = (if bidi then c_next_bidi_stream_id c else c_next_uni_stream_id c)
      in if sint next_stream_id < sint minimum_stream_id \<or>
            next_stream_id AND 3 \<noteq> minimum_stream_id AND 3
         then (if bidi then c\<lparr>c_next_bidi_stream_id := minimum_stream_id\<rparr>
               else c\<lparr>c_next_uni_stream_id := minimum_stream_id\<rparr>)
         else c)"

subsection \<open>What is waiting to be sent\<close>

abbreviation tx_len :: "php_quic_stream_entry \<Rightarrow> nat" where
  "tx_len entry \<equiv> length (buffer_bytes (se_tx_buffer entry))"

abbreviation rx_len :: "php_quic_stream_entry \<Rightarrow> nat" where
  "rx_len entry \<equiv> length (buffer_bytes (se_rx_buffer entry))"

text \<open>
  The loop of \<^verbatim>\<open>php_quic_connection_pick_tx_stream\<close>: the first live entry with unsent
  bytes or a pending FIN, with its offset clamped, the bytes for the data vector
  (\<open>None\<close> for \<^verbatim>\<open>*datavcnt = 0\<close>) and \<^verbatim>\<open>*fin\<close>.
\<close>

fun pick_tx_entry ::
  "(u64, php_quic_stream_entry) hash_table \<Rightarrow>
   (u64 \<times> php_quic_stream_entry \<times> zstring option \<times> bool) option" where
  "pick_tx_entry [] = None"
| "pick_tx_entry ((k, entry) # rest) =
     (if se_closed entry \<or> se_reset entry then pick_tx_entry rest
      else if unat (se_tx_offset entry) < tx_len entry \<or> se_fin_pending entry then
        let entry1 = (if unat (se_tx_offset entry) > tx_len entry
                      then entry\<lparr>se_tx_offset := of_nat (tx_len entry)\<rparr> else entry);
            datav = (if unat (se_tx_offset entry1) < tx_len entry1
                     then Some (drop (unat (se_tx_offset entry1)) (buffer_bytes (se_tx_buffer entry1)))
                     else None)
        in Some (k, entry1, datav, se_fin_pending entry1)
      else pick_tx_entry rest)"

record tx_pick =
  tp_entry :: "u64 option"
  tp_stream_id :: i64
  tp_datav :: "zstring option"
  tp_fin :: bool

definition no_tx_pick :: tx_pick where
  "no_tx_pick = \<lparr>tp_entry = None, tp_stream_id = -1, tp_datav = None, tp_fin = False\<rparr>"

definition php_quic_connection_pick_tx_stream ::
  "'c php_quic_connection \<Rightarrow> tx_pick \<times> 'c php_quic_connection" where
  "php_quic_connection_pick_tx_stream c =
     (case pick_tx_entry (c_streams c) of
        None \<Rightarrow> (no_tx_pick, c)
      | Some (k, entry, datav, fin) \<Rightarrow>
          (\<lparr>tp_entry = Some k, tp_stream_id = se_stream_id entry, tp_datav = datav, tp_fin = fin\<rparr>,
           put_stream_entry c k entry))"

text \<open>
  \<^verbatim>\<open>php_quic_connection_update_tx_entry\<close> in two parts: the entry after the library
  accepted \<open>wdatalen\<close> bytes, and whether it becomes writable again (which pushes an event).
\<close>

definition tx_entry_advance ::
  "php_quic_stream_entry \<Rightarrow> int \<Rightarrow> bool \<Rightarrow> bool \<Rightarrow> php_quic_stream_entry" where
  "tx_entry_advance entry wdatalen fin_attempted packet_emitted =
     (let e1 = (if wdatalen > 0
                then entry\<lparr>se_tx_offset := se_tx_offset entry + word_of_int wdatalen\<rparr> else entry);
          n = tx_len e1;
          e2 = (if unat (se_tx_offset e1) > n then e1\<lparr>se_tx_offset := of_nat n\<rparr> else e1);
          e3 = (if fin_attempted \<and> packet_emitted \<and> se_fin_pending e2 \<and> unat (se_tx_offset e2) \<ge> n
                then e2\<lparr>se_fin_pending := False, se_fin_sent := True, se_writable := False\<rparr>
                else e2)
      in if unat (se_tx_offset e3) \<ge> n \<and> n > 0
         then e3\<lparr>se_tx_buffer := Some '''', se_tx_offset := 0\<rparr> else e3)"

definition tx_entry_flushed :: "php_quic_stream_entry \<Rightarrow> bool" where
  "tx_entry_flushed entry \<longleftrightarrow>
     \<not> se_fin_pending entry \<and> \<not> se_fin_sent entry \<and> \<not> se_closed entry \<and> \<not> se_writable entry \<and>
     se_tx_offset entry = 0 \<and> tx_len entry = 0"

definition php_quic_connection_update_tx_entry ::
  "'c php_quic_connection \<Rightarrow> u64 option \<Rightarrow> int \<Rightarrow> bool \<Rightarrow> bool \<Rightarrow> 'c php_quic_connection" where
  "php_quic_connection_update_tx_entry c entry_ref wdatalen fin_attempted packet_emitted =
     (case entry_ref of
        None \<Rightarrow> c
      | Some k \<Rightarrow>
          (case zend_hash_find (c_streams c) k of
             None \<Rightarrow> c
           | Some entry \<Rightarrow>
               let entry1 = tx_entry_advance entry wdatalen fin_attempted packet_emitted
               in if tx_entry_flushed entry1 then
                    php_quic_connection_push_event
                      (put_stream_entry c k (entry1\<lparr>se_writable := True\<rparr>))
                      PHP_QUIC_EVENT_STREAM_WRITABLE (se_stream_id entry1) 0 False None
                  else put_stream_entry c k entry1))"

definition tx_entry_discard :: "php_quic_stream_entry \<Rightarrow> php_quic_stream_entry" where
  "tx_entry_discard entry =
     (let e1 = (if se_tx_buffer entry \<noteq> None then entry\<lparr>se_tx_buffer := Some ''''\<rparr> else entry)
      in e1\<lparr>se_tx_offset := 0, se_fin_pending := False, se_fin_sent := True, se_writable := False\<rparr>)"

definition php_quic_connection_discard_tx_entry ::
  "'c php_quic_connection \<Rightarrow> u64 option \<Rightarrow> 'c php_quic_connection" where
  "php_quic_connection_discard_tx_entry c entry_ref =
     (case entry_ref of
        None \<Rightarrow> c
      | Some k \<Rightarrow>
          (case zend_hash_find (c_streams c) k of
             None \<Rightarrow> c
           | Some entry \<Rightarrow> put_stream_entry c k (tx_entry_discard entry)))"

end
