(* ===== verification/Quic_Conn_Inv.thy ===== *)
theory Quic_Conn_Inv
  imports Quic_Connection
begin

text \<open>
  The invariant of a connection (\<open>conn_wf\<close>: its event queue and stream table are well
  formed, its flags agree with each other) and what never goes back (\<open>conn_progress\<close>: no
  flag is cleared, no stream disappears or reopens, the clock only advances). An operation that
  keeps both is a \<open>conn_operation\<close>; the helpers of \<open>Quic_Connection\<close> are interpreted as
  such here.
\<close>

definition entry_wf :: "php_quic_stream_entry \<Rightarrow> bool" where
  "entry_wf entry \<longleftrightarrow>
     se_rx_buffer entry \<noteq> None \<and> se_tx_buffer entry \<noteq> None \<and>
     unat (se_tx_offset entry) \<le> tx_len entry \<and>
     (se_reset entry \<longrightarrow> se_closed entry) \<and>
     (se_readable entry \<longrightarrow> rx_len entry > 0) \<and>
     (rx_len entry > 0 \<longrightarrow> se_readable entry \<or> se_reset entry)"

definition streams_wf :: "(u64, php_quic_stream_entry) hash_table \<Rightarrow> bool" where
  "streams_wf t \<longleftrightarrow>
     distinct (hash_keys t) \<and>
     (\<forall>k entry. zend_hash_find t k = Some entry \<longrightarrow> se_stream_id entry = k \<and> entry_wf entry)"

definition flags_wf :: "'c php_quic_connection \<Rightarrow> bool" where
  "flags_wf c \<longleftrightarrow>
     (c_closed c \<longleftrightarrow> c_close_event_emitted c) \<and>
     (c_draining c \<longleftrightarrow> c_draining_event_emitted c) \<and>
     (c_draining c \<longrightarrow> c_closed c) \<and>
     (c_close_requested c \<longrightarrow> c_closed c) \<and>
     (c_close_packet_sent c \<longrightarrow> c_close_requested c)"

definition conn_wf :: "'c php_quic_connection \<Rightarrow> bool" where
  "conn_wf c \<longleftrightarrow> queue_wf (c_events c) \<and> streams_wf (c_streams c) \<and> flags_wf c"

text \<open>The application has ended its side of the stream: nothing more can be written.\<close>

definition tx_ended :: "php_quic_stream_entry \<Rightarrow> bool" where
  "tx_ended e \<longleftrightarrow> se_closed e \<or> se_fin_sent e \<or> se_fin_pending e"

definition entry_progress :: "php_quic_stream_entry \<Rightarrow> php_quic_stream_entry \<Rightarrow> bool" where
  "entry_progress e e' \<longleftrightarrow>
     se_stream_id e' = se_stream_id e \<and> (se_closed e \<longrightarrow> se_closed e') \<and>
     (se_reset e \<longrightarrow> se_reset e') \<and> (se_fin_sent e \<longrightarrow> se_fin_sent e') \<and>
     (se_fin_recv e \<longrightarrow> se_fin_recv e') \<and> (tx_ended e \<longrightarrow> tx_ended e')"

definition streams_progress ::
  "(u64, php_quic_stream_entry) hash_table \<Rightarrow> (u64, php_quic_stream_entry) hash_table \<Rightarrow> bool" where
  "streams_progress t t' \<longleftrightarrow>
     (\<exists>new. hash_keys t' = hash_keys t @ new) \<and>
     (\<forall>k e. zend_hash_find t k = Some e \<longrightarrow>
       (\<exists>e'. zend_hash_find t' k = Some e' \<and> entry_progress e e'))"

definition conn_progress :: "'c php_quic_connection \<Rightarrow> 'c php_quic_connection \<Rightarrow> bool" where
  "conn_progress c c' \<longleftrightarrow>
     (c_established c \<longrightarrow> c_established c') \<and> (c_draining c \<longrightarrow> c_draining c') \<and>
     (c_closed c \<longrightarrow> c_closed c') \<and> (c_close_requested c \<longrightarrow> c_close_requested c') \<and>
     (c_close_packet_sent c \<longrightarrow> c_close_packet_sent c') \<and>
     c_hrtime c' = c_hrtime c \<and> c_reads c \<le> c_reads c' \<and>
     streams_progress (c_streams c) (c_streams c')"

subsection \<open>Progress is a preorder\<close>

lemma entry_progress_refl [simp]: "entry_progress e e"
  by (simp add: entry_progress_def)

lemma entry_progress_trans: "entry_progress a b \<Longrightarrow> entry_progress b c \<Longrightarrow> entry_progress a c"
  by (simp add: entry_progress_def)

lemma streams_progress_refl [simp]: "streams_progress t t"
  by (auto simp: streams_progress_def)

lemma streams_progress_trans:
  assumes "streams_progress a b" "streams_progress b c"
  shows "streams_progress a c"
proof -
  have "\<exists>e''. zend_hash_find c k = Some e'' \<and> entry_progress e e''"
    if "zend_hash_find a k = Some e" for k e
    using assms that unfolding streams_progress_def by (meson entry_progress_trans)
  moreover have "\<exists>new. hash_keys c = hash_keys a @ new"
    using assms unfolding streams_progress_def by (metis append_assoc)
  ultimately show ?thesis by (simp add: streams_progress_def)
qed

lemma conn_progress_refl [simp]: "conn_progress c c"
  by (simp add: conn_progress_def)

lemma conn_progress_trans: "conn_progress a b \<Longrightarrow> conn_progress b c \<Longrightarrow> conn_progress a c"
  unfolding conn_progress_def by (auto intro: streams_progress_trans)

subsection \<open>Operations that keep the invariant and make progress\<close>

locale conn_operation =
  fixes f :: "'x \<Rightarrow> 'c php_quic_connection \<Rightarrow> 'c php_quic_connection"
  assumes op_wf: "conn_wf c \<Longrightarrow> conn_wf (f x c)"
    and op_progress: "conn_wf c \<Longrightarrow> conn_progress c (f x c)"
begin

lemma fold_wf: "conn_wf c \<Longrightarrow> conn_wf (fold f xs c)"
  by (induction xs arbitrary: c) (auto simp: op_wf)

lemma fold_progress: "conn_wf c \<Longrightarrow> conn_progress c (fold f xs c)"
proof (induction xs arbitrary: c)
  case (Cons x xs)
  then have "conn_progress c (f x c)" "conn_progress (f x c) (fold f xs (f x c))"
    by (auto simp: op_wf op_progress)
  then show ?case by (auto intro: conn_progress_trans)
qed simp

end

subsection \<open>Events\<close>

lemma push_event_frame [frame, simp]:
  "c_conn (php_quic_connection_push_event c t s e b r) = c_conn c"
  "c_cred (php_quic_connection_push_event c t s e b r) = c_cred c"
  "c_session (php_quic_connection_push_event c t s e b r) = c_session c"
  "c_last_error (php_quic_connection_push_event c t s e b r) = c_last_error c"
  "c_remote_addr (php_quic_connection_push_event c t s e b r) = c_remote_addr c"
  "c_local_addr (php_quic_connection_push_event c t s e b r) = c_local_addr c"
  "c_remote_address_zv (php_quic_connection_push_event c t s e b r) = c_remote_address_zv c"
  "c_local_address_zv (php_quic_connection_push_event c t s e b r) = c_local_address_zv c"
  "c_close_reason (php_quic_connection_push_event c t s e b r) = c_close_reason c"
  "c_streams (php_quic_connection_push_event c t s e b r) = c_streams c"
  "c_next_bidi_stream_id (php_quic_connection_push_event c t s e b r) = c_next_bidi_stream_id c"
  "c_next_uni_stream_id (php_quic_connection_push_event c t s e b r) = c_next_uni_stream_id c"
  "c_established (php_quic_connection_push_event c t s e b r) = c_established c"
  "c_draining (php_quic_connection_push_event c t s e b r) = c_draining c"
  "c_closed (php_quic_connection_push_event c t s e b r) = c_closed c"
  "c_close_requested (php_quic_connection_push_event c t s e b r) = c_close_requested c"
  "c_close_packet_sent (php_quic_connection_push_event c t s e b r) = c_close_packet_sent c"
  "c_close_event_emitted (php_quic_connection_push_event c t s e b r) = c_close_event_emitted c"
  "c_draining_event_emitted (php_quic_connection_push_event c t s e b r) = c_draining_event_emitted c"
  "c_hrtime (php_quic_connection_push_event c t s e b r) = c_hrtime c"
  "c_reads (php_quic_connection_push_event c t s e b r) = Suc (c_reads c)"
  by (simp_all add: php_quic_connection_push_event_def php_quic_timestamp_def)

lemma push_event_queue:
  "c_events (php_quic_connection_push_event c t s e b r) =
     php_quic_event_queue_push (c_events c)
       \<lparr>ev_type = t, ev_stream_id = s, ev_error_code = e, ev_by_peer = b,
        ev_reason = map_option cstr r, ev_timestamp = c_hrtime c (c_reads c) div 1000000\<rparr>"
  by (simp add: php_quic_connection_push_event_def php_quic_timestamp_def)

lemma push_event_list:
  "queue_wf (c_events c) \<Longrightarrow>
    queue_list (c_events (php_quic_connection_push_event c t s e b r)) =
     queue_list (c_events c) @
       [\<lparr>ev_type = t, ev_stream_id = s, ev_error_code = e, ev_by_peer = b,
        ev_reason = map_option cstr r, ev_timestamp = c_hrtime c (c_reads c) div 1000000\<rparr>]"
  by (simp add: push_event_queue event_queue.items_push)

lemma push_event_queue_wf:
  "queue_wf (c_events c) \<Longrightarrow> queue_wf (c_events (php_quic_connection_push_event c t s e b r))"
  by (simp add: push_event_queue event_queue.wf_push)

lemma push_event_wf: "conn_wf c \<Longrightarrow> conn_wf (php_quic_connection_push_event c t s e b r)"
  by (auto simp: conn_wf_def flags_wf_def push_event_queue_wf)

lemma push_event_progress: "conn_progress c (php_quic_connection_push_event c t s e b r)"
  by (simp add: conn_progress_def)

lemma timestamp_frame [frame, simp]:
  "php_quic_timestamp c = (c_hrtime c (c_reads c), c\<lparr>c_reads := Suc (c_reads c)\<rparr>)"
  by (simp add: php_quic_timestamp_def)

lemma conn_wf_update [wf_simps, simp]:
  "conn_wf (c\<lparr>c_reads := n\<rparr>) = conn_wf c"
  "conn_wf (c\<lparr>c_conn := h\<rparr>) = conn_wf c"
  "conn_wf (c\<lparr>c_last_error := err\<rparr>) = conn_wf c"
  "conn_wf (c\<lparr>c_established := est\<rparr>) = conn_wf c"
  "conn_wf (c\<lparr>c_next_bidi_stream_id := i\<rparr>) = conn_wf c"
  "conn_wf (c\<lparr>c_next_uni_stream_id := i\<rparr>) = conn_wf c"
  "conn_wf (c\<lparr>c_close_reason := cr\<rparr>) = conn_wf c"
  by (simp_all add: conn_wf_def flags_wf_def)

lemma conn_progress_update [wf_simps, simp]:
  "conn_progress c (c\<lparr>c_reads := Suc (c_reads c)\<rparr>)"
  "conn_progress c (c\<lparr>c_conn := h\<rparr>)"
  "conn_progress c (c\<lparr>c_last_error := err\<rparr>)"
  "conn_progress c (c\<lparr>c_established := True\<rparr>)"
  "conn_progress c (c\<lparr>c_next_bidi_stream_id := i\<rparr>)"
  "conn_progress c (c\<lparr>c_next_uni_stream_id := i\<rparr>)"
  "conn_progress c (c\<lparr>c_close_reason := cr\<rparr>)"
  by (simp_all add: conn_progress_def)

subsection \<open>Stream entries\<close>

lemma put_entry_frame [frame, simp]:
  "c_conn (put_stream_entry c k entry) = c_conn c"
  "c_events (put_stream_entry c k entry) = c_events c"
  "c_closed (put_stream_entry c k entry) = c_closed c"
  "c_established (put_stream_entry c k entry) = c_established c"
  "c_draining (put_stream_entry c k entry) = c_draining c"
  "c_close_requested (put_stream_entry c k entry) = c_close_requested c"
  "c_close_packet_sent (put_stream_entry c k entry) = c_close_packet_sent c"
  "c_close_event_emitted (put_stream_entry c k entry) = c_close_event_emitted c"
  "c_draining_event_emitted (put_stream_entry c k entry) = c_draining_event_emitted c"
  "c_hrtime (put_stream_entry c k entry) = c_hrtime c"
  "c_reads (put_stream_entry c k entry) = c_reads c"
  "c_remote_address_zv (put_stream_entry c k entry) = c_remote_address_zv c"
  "c_local_address_zv (put_stream_entry c k entry) = c_local_address_zv c"
  "c_next_bidi_stream_id (put_stream_entry c k entry) = c_next_bidi_stream_id c"
  "c_next_uni_stream_id (put_stream_entry c k entry) = c_next_uni_stream_id c"
  by (simp_all add: put_stream_entry_def)

lemma put_entry_find:
  "zend_hash_find (c_streams (put_stream_entry c k entry)) j =
     (if j = k then Some entry else zend_hash_find (c_streams c) j)"
  by (simp add: put_stream_entry_def hash.find_upd)

lemma put_entry_streams: "c_streams (put_stream_entry c k entry) = zend_hash_update k entry (c_streams c)"
  by (simp add: put_stream_entry_def)

lemma streams_wf_update:
  "streams_wf t \<Longrightarrow> entry_wf entry \<Longrightarrow> se_stream_id entry = k \<Longrightarrow>
    streams_wf (zend_hash_update k entry t)"
  by (simp add: streams_wf_def hash.ok_upd hash.find_upd)

lemma streams_wf_find:
  "streams_wf t \<Longrightarrow> zend_hash_find t k = Some entry \<Longrightarrow> entry_wf entry \<and> se_stream_id entry = k"
  by (simp add: streams_wf_def)

lemma conn_wf_find:
  "conn_wf c \<Longrightarrow> zend_hash_find (c_streams c) k = Some entry \<Longrightarrow> entry_wf entry \<and> se_stream_id entry = k"
  by (auto simp: conn_wf_def streams_wf_find)

lemma put_entry_wf:
  "conn_wf c \<Longrightarrow> entry_wf entry \<Longrightarrow> se_stream_id entry = k \<Longrightarrow> conn_wf (put_stream_entry c k entry)"
  by (auto simp: conn_wf_def flags_wf_def put_entry_streams streams_wf_update)

lemma streams_progress_update:
  "(\<And>old. zend_hash_find t k = Some old \<Longrightarrow> entry_progress old entry) \<Longrightarrow>
    streams_progress t (zend_hash_update k entry t)"
  unfolding streams_progress_def by (auto simp: hash.find_upd hash.keys_upd)

lemma put_entry_progress:
  "(\<And>old. zend_hash_find (c_streams c) k = Some old \<Longrightarrow> entry_progress old entry) \<Longrightarrow>
    conn_progress c (put_stream_entry c k entry)"
  by (simp add: conn_progress_def put_entry_streams streams_progress_update)

lemma entry_alloc_wf: "entry_wf (php_quic_stream_entry_alloc sid)"
  by (simp add: entry_wf_def php_quic_stream_entry_alloc_def)

lemma open_stream_entry_wf:
  fixes sid :: i64
  assumes "conn_wf c"
  defines "r \<equiv> php_quic_connection_open_stream_entry c sid"
  shows "conn_wf (snd r)" and "conn_progress c (snd r)"
    and "zend_hash_find (c_streams (snd r)) sid = Some (fst r)"
    and "entry_wf (fst r)" and "se_stream_id (fst r) = sid"
proof -
  have "conn_wf (snd r) \<and> conn_progress c (snd r) \<and>
      zend_hash_find (c_streams (snd r)) sid = Some (fst r) \<and>
      entry_wf (fst r) \<and> se_stream_id (fst r) = sid"
    using assms(1) conn_wf_find[OF assms(1), of sid] entry_alloc_wf[of sid]
    by (auto simp: r_def php_quic_connection_open_stream_entry_def
        php_quic_connection_get_stream_entry_def php_quic_stream_entry_alloc_def put_entry_find
        Let_def split: option.splits intro!: put_entry_wf put_entry_progress)
  then show "conn_wf (snd r)" "conn_progress c (snd r)"
    "zend_hash_find (c_streams (snd r)) sid = Some (fst r)"
    "entry_wf (fst r)" "se_stream_id (fst r) = sid" by blast+
qed

lemma open_stream_entry_frame [frame, simp]:
  "c_conn (snd (php_quic_connection_open_stream_entry c sid)) = c_conn c"
  "c_events (snd (php_quic_connection_open_stream_entry c sid)) = c_events c"
  "c_closed (snd (php_quic_connection_open_stream_entry c sid)) = c_closed c"
  "c_reads (snd (php_quic_connection_open_stream_entry c sid)) = c_reads c"
  "c_hrtime (snd (php_quic_connection_open_stream_entry c sid)) = c_hrtime c"
  "c_established (snd (php_quic_connection_open_stream_entry c sid)) = c_established c"
  "c_close_event_emitted (snd (php_quic_connection_open_stream_entry c sid)) = c_close_event_emitted c"
  "c_draining_event_emitted (snd (php_quic_connection_open_stream_entry c sid)) = c_draining_event_emitted c"
  by (simp_all add: php_quic_connection_open_stream_entry_def Let_def split: option.splits)

text \<open>Replacing an opened entry by a changed one that keeps the entry's invariant.\<close>

lemma put_opened_wf:
  assumes c: "conn_wf c" and o: "php_quic_connection_open_stream_entry c sid = (entry, c1)"
    and e: "entry_wf entry'" "entry_progress entry entry'"
  shows "conn_wf (put_stream_entry c1 sid entry') \<and> conn_progress c (put_stream_entry c1 sid entry')"
proof -
  have "conn_wf c1" "conn_progress c c1" "se_stream_id entry = sid"
    "zend_hash_find (c_streams c1) sid = Some entry"
    using open_stream_entry_wf[OF c, of sid] o by auto
  moreover from this have "conn_progress c1 (put_stream_entry c1 sid entry')"
    using e by (intro put_entry_progress) auto
  ultimately show ?thesis
    using e by (auto simp: entry_progress_def intro!: put_entry_wf intro: conn_progress_trans)
qed

subsection \<open>The state flags\<close>

lemma sync_state_wf: "conn_wf c \<Longrightarrow> conn_wf (php_quic_connection_sync_state L c)"
  by (auto simp: php_quic_connection_sync_state_def conn_wf_def flags_wf_def Let_def
      push_event_queue_wf split: option.split)

lemma sync_state_progress: "conn_progress c (php_quic_connection_sync_state L c)"
  by (auto simp: php_quic_connection_sync_state_def conn_progress_def Let_def split: option.split)

interpretation sync_state: conn_operation "\<lambda>_ :: unit. php_quic_connection_sync_state L"
  by unfold_locales (simp_all add: sync_state_wf sync_state_progress)

lemma sync_state_frame [frame, simp]:
  "c_conn (php_quic_connection_sync_state L c) = c_conn c"
  "c_streams (php_quic_connection_sync_state L c) = c_streams c"
  "c_close_requested (php_quic_connection_sync_state L c) = c_close_requested c"
  "c_close_packet_sent (php_quic_connection_sync_state L c) = c_close_packet_sent c"
  "c_established (php_quic_connection_sync_state L c) = c_established c"
  "c_remote_address_zv (php_quic_connection_sync_state L c) = c_remote_address_zv c"
  "c_local_address_zv (php_quic_connection_sync_state L c) = c_local_address_zv c"
  by (auto simp: php_quic_connection_sync_state_def Let_def split: option.split)

subsection \<open>The transmit side\<close>

definition unsent :: "php_quic_stream_entry \<Rightarrow> zstring" where
  "unsent entry = drop (unat (se_tx_offset entry)) (buffer_bytes (se_tx_buffer entry))"

lemma of_nat_offset_le: "unat (of_nat n :: u64) \<le> n"
  by (simp add: unat_of_nat)

lemma tx_entry_advance_wf: "entry_wf entry \<Longrightarrow> entry_wf (tx_entry_advance entry w fa pe)"
  using of_nat_offset_le[of "tx_len entry"]
  by (auto simp: entry_wf_def tx_entry_advance_def Let_def)

lemma tx_entry_advance_progress: "entry_progress entry (tx_entry_advance entry w fa pe)"
  by (simp add: entry_progress_def tx_ended_def tx_entry_advance_def Let_def)

lemma tx_entry_advance_frame [frame, simp]:
  "se_stream_id (tx_entry_advance entry w fa pe) = se_stream_id entry"
  "se_closed (tx_entry_advance entry w fa pe) = se_closed entry"
  "se_reset (tx_entry_advance entry w fa pe) = se_reset entry"
  "se_rx_buffer (tx_entry_advance entry w fa pe) = se_rx_buffer entry"
  "se_readable (tx_entry_advance entry w fa pe) = se_readable entry"
  "se_pending_open (tx_entry_advance entry w fa pe) = se_pending_open entry"
  by (simp_all add: tx_entry_advance_def Let_def)

lemma tx_entry_discard_wf: "entry_wf entry \<Longrightarrow> entry_wf (tx_entry_discard entry)"
  by (auto simp: entry_wf_def tx_entry_discard_def Let_def)

lemma tx_entry_discard_progress: "entry_progress entry (tx_entry_discard entry)"
  by (simp add: entry_progress_def tx_ended_def tx_entry_discard_def Let_def)

lemma entry_wf_writable [wf_simps, simp]: "entry_wf (entry\<lparr>se_writable := b\<rparr>) = entry_wf entry"
  by (simp add: entry_wf_def)

lemma entry_progress_writable [wf_simps, simp]:
  "entry_progress old (entry\<lparr>se_writable := b\<rparr>) = entry_progress old entry"
  by (simp add: entry_progress_def tx_ended_def)

lemma update_tx_entry_wf:
  assumes c: "conn_wf c"
  shows "conn_wf (php_quic_connection_update_tx_entry c r w fa pe) \<and>
    conn_progress c (php_quic_connection_update_tx_entry c r w fa pe)"
proof (cases "\<exists>k entry. r = Some k \<and> zend_hash_find (c_streams c) k = Some entry")
  case True
  then obtain k entry where r: "r = Some k" "zend_hash_find (c_streams c) k = Some entry" by auto
  define e1 where "e1 = tx_entry_advance entry w fa pe"
  have e1: "entry_wf e1" "se_stream_id e1 = k" "entry_progress entry e1"
    using conn_wf_find[OF c r(2)] tx_entry_advance_wf tx_entry_advance_progress
    by (auto simp: e1_def)
  have "conn_wf (put_stream_entry c k (e1\<lparr>se_writable := b\<rparr>)) \<and>
      conn_progress c (put_stream_entry c k (e1\<lparr>se_writable := b\<rparr>))" for b
    using c e1 r by (auto intro!: put_entry_wf put_entry_progress)
  moreover have "conn_wf (put_stream_entry c k e1) \<and> conn_progress c (put_stream_entry c k e1)"
    using c e1 r by (auto intro!: put_entry_wf put_entry_progress)
  ultimately show ?thesis
    using r by (auto simp: php_quic_connection_update_tx_entry_def Let_def e1_def[symmetric]
        intro!: push_event_wf intro: conn_progress_trans[OF _ push_event_progress])
qed (auto simp: php_quic_connection_update_tx_entry_def c split: option.splits)

lemma discard_tx_entry_wf:
  assumes c: "conn_wf c"
  shows "conn_wf (php_quic_connection_discard_tx_entry c r) \<and>
    conn_progress c (php_quic_connection_discard_tx_entry c r)"
proof (cases "\<exists>k entry. r = Some k \<and> zend_hash_find (c_streams c) k = Some entry")
  case True
  then obtain k entry where r: "r = Some k" "zend_hash_find (c_streams c) k = Some entry" by auto
  have "entry_wf (tx_entry_discard entry)" "se_stream_id (tx_entry_discard entry) = k"
    using conn_wf_find[OF c r(2)] tx_entry_discard_wf tx_entry_discard_progress[of entry]
    by (auto simp: entry_progress_def)
  with c r tx_entry_discard_progress[of entry] show ?thesis
    by (auto simp: php_quic_connection_discard_tx_entry_def intro!: put_entry_wf put_entry_progress)
qed (auto simp: php_quic_connection_discard_tx_entry_def c split: option.splits)

definition tx_wanted :: "php_quic_stream_entry \<Rightarrow> bool" where
  "tx_wanted entry \<longleftrightarrow> \<not> se_closed entry \<and> \<not> se_reset entry \<and>
     (unat (se_tx_offset entry) < tx_len entry \<or> se_fin_pending entry)"

definition tx_offer ::
  "u64 \<Rightarrow> php_quic_stream_entry \<Rightarrow> u64 \<times> php_quic_stream_entry \<times> zstring option \<times> bool" where
  "tx_offer k entry = (k, entry, if unsent entry = '''' then None else Some (unsent entry), se_fin_pending entry)"

lemma pick_tx_entry_Cons:
  assumes "entry_wf entry"
  shows "pick_tx_entry ((k, entry) # rest) =
    (if tx_wanted entry then Some (tx_offer k entry) else pick_tx_entry rest)"
  using assms by (simp add: tx_wanted_def tx_offer_def entry_wf_def unsent_def Let_def)

declare pick_tx_entry.simps(2) [simp del]

lemma pick_tx_entry_Some:
  assumes "pick_tx_entry t = Some offer" "distinct (hash_keys t)" "\<forall>(k, entry) \<in> set t. entry_wf entry"
  shows "\<exists>k entry. offer = tx_offer k entry \<and> zend_hash_find t k = Some entry \<and> tx_wanted entry"
  using assms
proof (induction t)
  case (Cons a rest)
  obtain k entry where a: "a = (k, entry)" by fastforce
  show ?case
  proof (cases "tx_wanted entry")
    case True
    with Cons.prems a show ?thesis by (auto simp: pick_tx_entry_Cons zend_hash_find_def)
  next
    case False
    with Cons.prems a have "pick_tx_entry rest = Some offer" by (simp add: pick_tx_entry_Cons)
    with Cons a obtain k' entry' where *: "offer = tx_offer k' entry'"
      "zend_hash_find rest k' = Some entry'" "tx_wanted entry'"
      by (auto simp: hash_keys_def)
    moreover have "k' \<noteq> k"
      using *(2) Cons.prems(2) a zend_hash_find_in_set[of rest k' entry']
      by (auto simp: hash_keys_def rev_image_eqI)
    ultimately show ?thesis using a by (auto simp: zend_hash_find_def)
  qed
qed simp

lemma streams_wf_entries: "streams_wf t \<Longrightarrow> \<forall>(k, entry) \<in> set t. entry_wf entry"
  by (auto simp: streams_wf_def zend_hash_find_def hash_keys_def)

text \<open>On a well-formed connection picking changes nothing: no offset needs the clamp.\<close>

lemma pick_tx_stream_Some:
  assumes c: "conn_wf c" and p: "php_quic_connection_pick_tx_stream c = (pick, c1)"
    and k: "tp_entry pick = Some k"
  obtains entry where "zend_hash_find (c_streams c) k = Some entry"
    and "\<not> se_closed entry" "\<not> se_reset entry"
    and "unsent entry \<noteq> '''' \<or> se_fin_pending entry"
    and "tp_stream_id pick = k" "tp_fin pick = se_fin_pending entry"
    and "tp_datav pick = (if unsent entry = '''' then None else Some (unsent entry))"
    and "c1 = put_stream_entry c k entry"
proof -
  from p k obtain offer where pt: "pick_tx_entry (c_streams c) = Some offer"
    by (auto simp: php_quic_connection_pick_tx_stream_def no_tx_pick_def split: option.splits)
  have t: "streams_wf (c_streams c)" using c by (simp add: conn_wf_def)
  then have "distinct (hash_keys (c_streams c))" by (simp add: streams_wf_def)
  from pick_tx_entry_Some[OF pt this streams_wf_entries[OF t]] obtain j entry where
    old: "offer = tx_offer j entry" "zend_hash_find (c_streams c) j = Some entry" "tx_wanted entry"
    by blast
  with p pt k have "j = k" and c1: "c1 = put_stream_entry c k entry"
    and "pick = \<lparr>tp_entry = Some k, tp_stream_id = se_stream_id entry,
      tp_datav = (if unsent entry = '''' then None else Some (unsent entry)), tp_fin = se_fin_pending entry\<rparr>"
    by (auto simp: php_quic_connection_pick_tx_stream_def tx_offer_def)
  with old conn_wf_find[OF c old(2)] show thesis
    by (intro that[of entry]) (auto simp: unsent_def tx_wanted_def)
qed

lemma pick_tx_stream_None:
  assumes "php_quic_connection_pick_tx_stream c = (pick, c1)" "tp_entry pick = None"
  shows "pick = no_tx_pick" "c1 = c"
  using assms by (auto simp: php_quic_connection_pick_tx_stream_def split: option.splits)

lemma pick_tx_stream_wf:
  assumes "conn_wf c" "php_quic_connection_pick_tx_stream c = (pick, c1)"
  shows "conn_wf c1 \<and> conn_progress c c1"
proof (cases "tp_entry pick")
  case None
  with assms show ?thesis
    by (auto simp: php_quic_connection_pick_tx_stream_def split: option.splits)
next
  case (Some k)
  with assms obtain entry where "zend_hash_find (c_streams c) k = Some entry" "c1 = put_stream_entry c k entry"
    by (rule pick_tx_stream_Some)
  with assms(1) conn_wf_find[OF assms(1)] show ?thesis
    by (auto intro!: put_entry_wf put_entry_progress)
qed

end
