(* ===== verification/Quic_Callbacks.thy ===== *)
theory Quic_Callbacks
  imports Quic_Conn_Inv
begin

text \<open>
  \<^verbatim>\<open>src/callbacks.c\<close>: what the extension does when ngtcp2 calls back. Each callback gets
  the connection through \<^verbatim>\<open>user_data\<close>; a handler is a function to the new connection
  (all of these return 0). \<open>php_quic_callbacks_init\<close> is the table the extension registers,
  \<open>invoke_callback\<close> is a call through it, and \<open>run_callbacks\<close> runs the callbacks of one
  library call in order.
\<close>

text \<open>
  \<^verbatim>\<open>gnutls_rnd\<close> is a parameter: from the state of the generator and a length to
  \<open>None\<close> (an error) or that many bytes.
\<close>

type_synonym 'r gnutls_rnd = "'r \<Rightarrow> nat \<Rightarrow> zstring option \<times> 'r"

definition php_quic_rand_cb :: "'r gnutls_rnd \<Rightarrow> 'r \<Rightarrow> nat \<Rightarrow> zstring \<times> 'r" where
  "php_quic_rand_cb rnd r destlen =
     (case rnd r destlen of
        (None, r1) \<Rightarrow> (replicate destlen NUL, r1)
      | (Some bytes, r1) \<Rightarrow> (bytes, r1))"

definition php_quic_get_new_connection_id_cb ::
  "'c ngtcp2 \<Rightarrow> 'r gnutls_rnd \<Rightarrow> 'r \<Rightarrow> nat \<Rightarrow> (ngtcp2_err + zstring \<times> zstring) \<times> 'r" where
  "php_quic_get_new_connection_id_cb L rnd r cidlen =
     (case rnd r cidlen of
        (None, r1) \<Rightarrow> (Inl NGTCP2_ERR_CALLBACK_FAILURE, r1)
      | (Some cid_data, r1) \<Rightarrow>
          (case rnd r1 (NGTCP2_STATELESS_RESET_TOKENLEN L) of
             (None, r2) \<Rightarrow> (Inl NGTCP2_ERR_CALLBACK_FAILURE, r2)
           | (Some token, r2) \<Rightarrow> (Inr (cid_data, token), r2)))"

definition php_quic_handshake_completed_cb :: "'c php_quic_connection \<Rightarrow> 'c php_quic_connection" where
  "php_quic_handshake_completed_cb c =
     (if \<not> c_established c then
        php_quic_connection_push_event (c\<lparr>c_established := True\<rparr>)
          PHP_QUIC_EVENT_HANDSHAKE_COMPLETED (-1) 0 False None
      else c)"

definition php_quic_stream_open_cb ::
  "'c ngtcp2 \<Rightarrow> 'c \<Rightarrow> i64 \<Rightarrow> 'c php_quic_connection \<Rightarrow> 'c php_quic_connection" where
  "php_quic_stream_open_cb L conn stream_id c =
     (let (entry, c1) = php_quic_connection_open_stream_entry c stream_id;
          local_stream = ngtcp2_conn_is_local_stream L conn stream_id;
          bidi_stream = ngtcp2_is_bidi_stream L stream_id;
          entry1 = entry\<lparr>se_writable := local_stream \<or> bidi_stream\<rparr>
      in php_quic_connection_push_event (put_stream_entry c1 stream_id entry1)
           PHP_QUIC_EVENT_STREAM_OPENED stream_id 0 True None)"

definition php_quic_recv_stream_data_cb ::
  "'c ngtcp2 \<Rightarrow> u32 \<Rightarrow> i64 \<Rightarrow> zstring \<Rightarrow> 'c php_quic_connection \<Rightarrow> 'c php_quic_connection" where
  "php_quic_recv_stream_data_cb L flags stream_id data c =
     (let (entry, c1) = php_quic_connection_open_stream_entry c stream_id;
          datalen = length data;
          entry1 = (if datalen > 0
                    then entry\<lparr>se_rx_buffer := php_quic_buffer_append (se_rx_buffer entry) data datalen\<rparr>
                    else entry);
          newly = (\<not> se_readable entry1 \<and> rx_len entry1 > 0);
          entry2 = (if newly then entry1\<lparr>se_readable := True\<rparr> else entry1);
          entry3 = (if flags AND NGTCP2_STREAM_DATA_FLAG_FIN L \<noteq> 0
                    then entry2\<lparr>se_fin_recv := True\<rparr> else entry2);
          c2 = put_stream_entry c1 stream_id entry3
      in if newly
         then php_quic_connection_push_event c2 PHP_QUIC_EVENT_STREAM_READABLE stream_id 0 True None
         else c2)"

definition php_quic_stream_close_cb ::
  "'c ngtcp2 \<Rightarrow> u32 \<Rightarrow> i64 \<Rightarrow> u64 \<Rightarrow> 'c php_quic_connection \<Rightarrow> 'c php_quic_connection" where
  "php_quic_stream_close_cb L flags stream_id app_error_code c =
     (let (entry, c1) = php_quic_connection_open_stream_entry c stream_id;
          entry1 = entry\<lparr>se_closed := True, se_writable := False\<rparr>
      in php_quic_connection_push_event (put_stream_entry c1 stream_id entry1)
           PHP_QUIC_EVENT_STREAM_CLOSED stream_id
           (if flags AND NGTCP2_STREAM_CLOSE_FLAG_APP_ERROR_CODE_SET L \<noteq> 0
            then app_error_code else 0) True None)"

definition php_quic_stream_reset_cb ::
  "i64 \<Rightarrow> u64 \<Rightarrow> 'c php_quic_connection \<Rightarrow> 'c php_quic_connection" where
  "php_quic_stream_reset_cb stream_id app_error_code c =
     (let (entry, c1) = php_quic_connection_open_stream_entry c stream_id;
          entry1 = entry\<lparr>se_reset := True, se_closed := True, se_writable := False\<rparr>
      in php_quic_connection_push_event (put_stream_entry c1 stream_id entry1)
           PHP_QUIC_EVENT_STREAM_RESET stream_id app_error_code True None)"

definition php_quic_acked_stream_data_offset_cb ::
  "i64 \<Rightarrow> 'c php_quic_connection \<Rightarrow> 'c php_quic_connection" where
  "php_quic_acked_stream_data_offset_cb stream_id c =
     (case php_quic_connection_get_stream_entry c stream_id of
        None \<Rightarrow> c
      | Some entry \<Rightarrow>
          if se_closed entry \<or> se_reset entry \<or> se_fin_sent entry then c
          else if \<not> se_writable entry then
            php_quic_connection_push_event
              (put_stream_entry c stream_id (entry\<lparr>se_writable := True\<rparr>))
              PHP_QUIC_EVENT_STREAM_WRITABLE stream_id 0 True None
          else c)"

subsection \<open>The callback table\<close>

datatype callback_slot =
    Slot_recv_client_initial | Slot_client_initial | Slot_recv_crypto_data
  | Slot_handshake_completed | Slot_encrypt | Slot_decrypt | Slot_hp_mask
  | Slot_recv_stream_data | Slot_acked_stream_data_offset | Slot_stream_open
  | Slot_stream_close | Slot_stream_reset | Slot_recv_retry | Slot_rand
  | Slot_get_new_connection_id | Slot_update_key | Slot_delete_crypto_aead_ctx
  | Slot_delete_crypto_cipher_ctx | Slot_get_path_challenge_data | Slot_version_negotiation
  | Slot_other nat

text \<open>
  What a slot points at: one of the handlers above, or a function of the library's own crypto
  helper, by its name.
\<close>

datatype callback_fn =
    Fn_crypto string
  | Fn_handshake_completed | Fn_recv_stream_data | Fn_acked_stream_data_offset
  | Fn_stream_open | Fn_stream_close | Fn_stream_reset | Fn_rand | Fn_get_new_connection_id

fun php_quic_callbacks_init :: "callback_slot \<Rightarrow> callback_fn option" where
  "php_quic_callbacks_init Slot_recv_client_initial = Some (Fn_crypto ''ngtcp2_crypto_recv_client_initial_cb'')"
| "php_quic_callbacks_init Slot_client_initial = Some (Fn_crypto ''ngtcp2_crypto_client_initial_cb'')"
| "php_quic_callbacks_init Slot_recv_crypto_data = Some (Fn_crypto ''ngtcp2_crypto_recv_crypto_data_cb'')"
| "php_quic_callbacks_init Slot_handshake_completed = Some Fn_handshake_completed"
| "php_quic_callbacks_init Slot_encrypt = Some (Fn_crypto ''ngtcp2_crypto_encrypt_cb'')"
| "php_quic_callbacks_init Slot_decrypt = Some (Fn_crypto ''ngtcp2_crypto_decrypt_cb'')"
| "php_quic_callbacks_init Slot_hp_mask = Some (Fn_crypto ''ngtcp2_crypto_hp_mask_cb'')"
| "php_quic_callbacks_init Slot_recv_stream_data = Some Fn_recv_stream_data"
| "php_quic_callbacks_init Slot_acked_stream_data_offset = Some Fn_acked_stream_data_offset"
| "php_quic_callbacks_init Slot_stream_open = Some Fn_stream_open"
| "php_quic_callbacks_init Slot_stream_close = Some Fn_stream_close"
| "php_quic_callbacks_init Slot_stream_reset = Some Fn_stream_reset"
| "php_quic_callbacks_init Slot_recv_retry = Some (Fn_crypto ''ngtcp2_crypto_recv_retry_cb'')"
| "php_quic_callbacks_init Slot_rand = Some Fn_rand"
| "php_quic_callbacks_init Slot_get_new_connection_id = Some Fn_get_new_connection_id"
| "php_quic_callbacks_init Slot_update_key = Some (Fn_crypto ''ngtcp2_crypto_update_key_cb'')"
| "php_quic_callbacks_init Slot_delete_crypto_aead_ctx = Some (Fn_crypto ''ngtcp2_crypto_delete_crypto_aead_ctx_cb'')"
| "php_quic_callbacks_init Slot_delete_crypto_cipher_ctx = Some (Fn_crypto ''ngtcp2_crypto_delete_crypto_cipher_ctx_cb'')"
| "php_quic_callbacks_init Slot_get_path_challenge_data = Some (Fn_crypto ''ngtcp2_crypto_get_path_challenge_data_cb'')"
| "php_quic_callbacks_init Slot_version_negotiation = Some (Fn_crypto ''ngtcp2_crypto_version_negotiation_cb'')"
| "php_quic_callbacks_init (Slot_other i) = None"

fun slot_of :: "'c ngtcp2_callback \<Rightarrow> callback_slot" where
  "slot_of Cb_handshake_completed = Slot_handshake_completed"
| "slot_of (Cb_stream_open conn sid) = Slot_stream_open"
| "slot_of (Cb_recv_stream_data flags sid off data) = Slot_recv_stream_data"
| "slot_of (Cb_stream_close flags sid err) = Slot_stream_close"
| "slot_of (Cb_stream_reset sid fsize err) = Slot_stream_reset"
| "slot_of (Cb_acked_stream_data_offset sid off len) = Slot_acked_stream_data_offset"

text \<open>
  A call through a slot: the registered handler on the arguments of the callback. The C types
  of the slots rule out every other pairing of a handler and arguments.
\<close>

fun call_handler ::
  "'c ngtcp2 \<Rightarrow> callback_fn \<Rightarrow> 'c ngtcp2_callback \<Rightarrow> 'c php_quic_connection \<Rightarrow> 'c php_quic_connection" where
  "call_handler L Fn_handshake_completed Cb_handshake_completed c = php_quic_handshake_completed_cb c"
| "call_handler L Fn_stream_open (Cb_stream_open conn sid) c = php_quic_stream_open_cb L conn sid c"
| "call_handler L Fn_recv_stream_data (Cb_recv_stream_data flags sid off data) c =
     php_quic_recv_stream_data_cb L flags sid data c"
| "call_handler L Fn_stream_close (Cb_stream_close flags sid err) c =
     php_quic_stream_close_cb L flags sid err c"
| "call_handler L Fn_stream_reset (Cb_stream_reset sid fsize err) c = php_quic_stream_reset_cb sid err c"
| "call_handler L Fn_acked_stream_data_offset (Cb_acked_stream_data_offset sid off len) c =
     php_quic_acked_stream_data_offset_cb sid c"
| "call_handler L f cb c = c"

definition invoke_callback ::
  "'c ngtcp2 \<Rightarrow> 'c ngtcp2_callback \<Rightarrow> 'c php_quic_connection \<Rightarrow> 'c php_quic_connection" where
  "invoke_callback L cb c =
     (case php_quic_callbacks_init (slot_of cb) of
        None \<Rightarrow> c
      | Some f \<Rightarrow> call_handler L f cb c)"

definition run_callbacks ::
  "'c ngtcp2 \<Rightarrow> 'c ngtcp2_callback list \<Rightarrow> 'c php_quic_connection \<Rightarrow> 'c php_quic_connection" where
  "run_callbacks L = fold (invoke_callback L)"

lemma invoke_callback_simps [simp]:
  "invoke_callback L Cb_handshake_completed c = php_quic_handshake_completed_cb c"
  "invoke_callback L (Cb_stream_open conn sid) c = php_quic_stream_open_cb L conn sid c"
  "invoke_callback L (Cb_recv_stream_data flags sid off data) c = php_quic_recv_stream_data_cb L flags sid data c"
  "invoke_callback L (Cb_stream_close flags sid err) c = php_quic_stream_close_cb L flags sid err c"
  "invoke_callback L (Cb_stream_reset sid fsize err) c = php_quic_stream_reset_cb sid err c"
  "invoke_callback L (Cb_acked_stream_data_offset sid off len) c = php_quic_acked_stream_data_offset_cb sid c"
  by (simp_all add: invoke_callback_def)

lemma run_callbacks_simps [simp]:
  "run_callbacks L [] c = c"
  "run_callbacks L (cb # cbs) c = run_callbacks L cbs (invoke_callback L cb c)"
  by (simp_all add: run_callbacks_def)

subsection \<open>Every callback keeps the invariant\<close>

lemma handshake_completed_cb_op:
  "conn_wf c \<Longrightarrow> conn_wf (php_quic_handshake_completed_cb c) \<and>
    conn_progress c (php_quic_handshake_completed_cb c)"
  by (auto simp: php_quic_handshake_completed_cb_def intro!: push_event_wf
      intro: conn_progress_trans[OF _ push_event_progress])

lemma push_after_put_op:
  assumes "conn_wf c" "php_quic_connection_open_stream_entry c sid = (entry, c1)"
    and "entry_wf entry'" "entry_progress entry entry'"
  shows "conn_wf (php_quic_connection_push_event (put_stream_entry c1 sid entry') t s e b r) \<and>
    conn_progress c (php_quic_connection_push_event (put_stream_entry c1 sid entry') t s e b r)"
  using put_opened_wf[OF assms] push_event_wf push_event_progress conn_progress_trans by blast

lemma opened_entry_wf:
  "conn_wf c \<Longrightarrow> php_quic_connection_open_stream_entry c sid = (entry, c1) \<Longrightarrow>
    entry_wf entry \<and> se_stream_id entry = sid \<and> zend_hash_find (c_streams c1) sid = Some entry \<and>
    conn_wf c1 \<and> conn_progress c c1"
  using open_stream_entry_wf[of c sid] by auto

lemma stream_open_cb_op:
  assumes c: "conn_wf c"
  shows "conn_wf (php_quic_stream_open_cb L n sid c) \<and> conn_progress c (php_quic_stream_open_cb L n sid c)"
proof -
  obtain entry c1 where o: "php_quic_connection_open_stream_entry c sid = (entry, c1)" by fastforce
  show ?thesis unfolding php_quic_stream_open_cb_def o Let_def prod.case
    by (rule push_after_put_op[OF c o]) (use opened_entry_wf[OF c o] in simp_all)
qed

lemma stream_close_cb_op:
  assumes c: "conn_wf c"
  shows "conn_wf (php_quic_stream_close_cb L fl sid e c) \<and> conn_progress c (php_quic_stream_close_cb L fl sid e c)"
proof -
  obtain entry c1 where o: "php_quic_connection_open_stream_entry c sid = (entry, c1)" by fastforce
  show ?thesis unfolding php_quic_stream_close_cb_def o Let_def prod.case
    by (rule push_after_put_op[OF c o])
       (use opened_entry_wf[OF c o] in \<open>simp_all add: entry_wf_def entry_progress_def tx_ended_def\<close>)
qed

lemma stream_reset_cb_op:
  assumes c: "conn_wf c"
  shows "conn_wf (php_quic_stream_reset_cb sid e c) \<and> conn_progress c (php_quic_stream_reset_cb sid e c)"
proof -
  obtain entry c1 where o: "php_quic_connection_open_stream_entry c sid = (entry, c1)" by fastforce
  show ?thesis unfolding php_quic_stream_reset_cb_def o Let_def prod.case
    by (rule push_after_put_op[OF c o])
       (use opened_entry_wf[OF c o] in \<open>auto simp: entry_wf_def entry_progress_def tx_ended_def\<close>)
qed

lemma acked_cb_op:
  assumes c: "conn_wf c"
  shows "conn_wf (php_quic_acked_stream_data_offset_cb sid c) \<and>
    conn_progress c (php_quic_acked_stream_data_offset_cb sid c)"
proof (cases "php_quic_connection_get_stream_entry c sid")
  case (Some entry)
  then have "entry_wf entry \<and> se_stream_id entry = sid"
    using conn_wf_find[OF c] by (simp add: php_quic_connection_get_stream_entry_def)
  with c Some have "conn_wf (put_stream_entry c sid (entry\<lparr>se_writable := True\<rparr>)) \<and>
      conn_progress c (put_stream_entry c sid (entry\<lparr>se_writable := True\<rparr>))"
    by (auto simp: php_quic_connection_get_stream_entry_def intro!: put_entry_wf put_entry_progress)
  with c Some show ?thesis
    by (auto simp: php_quic_acked_stream_data_offset_cb_def intro!: push_event_wf
        intro: conn_progress_trans[OF _ push_event_progress])
qed (simp add: php_quic_acked_stream_data_offset_cb_def c)

lemma buffer_append_Some: "b \<noteq> None \<Longrightarrow> php_quic_buffer_append b d n \<noteq> None"
  by (auto simp: php_quic_buffer_append_def Let_def)

lemma recv_stream_data_cb_op:
  assumes c: "conn_wf c"
  shows "conn_wf (php_quic_recv_stream_data_cb L fl sid d c) \<and>
    conn_progress c (php_quic_recv_stream_data_cb L fl sid d c)"
proof -
  obtain entry c1 where o: "php_quic_connection_open_stream_entry c sid = (entry, c1)" by fastforce
  define rx where "rx = php_quic_buffer_append (se_rx_buffer entry) d (length d)"
  have wf: "entry_wf entry" using opened_entry_wf[OF c o] by simp
  then have rx: "rx \<noteq> None" "buffer_bytes rx = buffer_bytes (se_rx_buffer entry) @ d"
    by (simp_all add: rx_def buffer_append_Some entry_wf_def buffer.bytes_app)
  define e1 where "e1 = (if length d > 0 then entry\<lparr>se_rx_buffer := rx\<rparr> else entry)"
  have e1: "se_rx_buffer e1 \<noteq> None" "buffer_bytes (se_rx_buffer e1) = buffer_bytes (se_rx_buffer entry) @ d"
    using rx wf by (simp_all add: e1_def entry_wf_def)
  have e1': "se_tx_buffer e1 = se_tx_buffer entry" "se_tx_offset e1 = se_tx_offset entry"
    "se_reset e1 = se_reset entry" "se_closed e1 = se_closed entry" "se_readable e1 = se_readable entry"
    "se_stream_id e1 = se_stream_id entry" "se_fin_sent e1 = se_fin_sent entry"
    "se_fin_recv e1 = se_fin_recv entry" "se_fin_pending e1 = se_fin_pending entry"
    by (simp_all add: e1_def)
  define e2 where "e2 = (if \<not> se_readable e1 \<and> rx_len e1 > 0 then e1\<lparr>se_readable := True\<rparr> else e1)"
  define e3 where "e3 = (if fl AND NGTCP2_STREAM_DATA_FLAG_FIN L \<noteq> 0 then e2\<lparr>se_fin_recv := True\<rparr> else e2)"
  have e3: "entry_wf e3" "entry_progress entry e3"
    using wf e1 e1' unfolding e3_def e2_def by (auto simp: entry_wf_def entry_progress_def tx_ended_def)
  show ?thesis
    using put_opened_wf[OF c o e3] push_after_put_op[OF c o e3]
    unfolding php_quic_recv_stream_data_cb_def o Let_def prod.case rx_def[symmetric] e1_def[symmetric]
      e2_def[symmetric] e3_def[symmetric]
    by (cases "\<not> se_readable e1 \<and> rx_len e1 > 0") simp_all
qed

lemma invoke_callback_op:
  "conn_wf c \<Longrightarrow> conn_wf (invoke_callback L cb c) \<and> conn_progress c (invoke_callback L cb c)"
  by (cases cb) (simp_all add: handshake_completed_cb_op stream_open_cb_op stream_close_cb_op
      stream_reset_cb_op acked_cb_op recv_stream_data_cb_op)

interpretation callback: conn_operation "invoke_callback L"
  by unfold_locales (simp_all add: invoke_callback_op)

lemma run_callbacks_wf: "conn_wf c \<Longrightarrow> conn_wf (run_callbacks L cbs c)"
  by (simp add: run_callbacks_def callback.fold_wf)

lemma run_callbacks_progress: "conn_wf c \<Longrightarrow> conn_progress c (run_callbacks L cbs c)"
  by (simp add: run_callbacks_def callback.fold_progress)

end
