(* ===== verification/Quic_Sample.thy ===== *)
theory Quic_Sample
  imports Quic_Conn_Inv
begin

text \<open>
  A concrete library, to evaluate the model on: a transport whose state is the number of
  datagrams it may still send and the log of the stream data it accepted and delivered. It puts
  the data it is offered straight into a packet, opens the client's streams 0 and 2, delivers
  every received packet as data of stream 1, and never closes. It shows that the hypotheses the
  theorems make about the library can hold.
\<close>

datatype sample_io = Accepted i64 zstring | Delivered i64 zstring

type_synonym sample_conn = "nat \<times> sample_io list"

definition sample_writev ::
  "sample_conn \<Rightarrow> nat \<Rightarrow> i64 \<Rightarrow> zstring option \<Rightarrow>
   (ngtcp2_err + zstring) \<times> int \<times> sample_conn ngtcp2_callback list \<times> sample_conn" where
  "sample_writev n buflen sid datav =
     (case datav of
        None \<Rightarrow> (Inr '''', -1, [], n)
      | Some data \<Rightarrow>
          if fst n = 0 then (Inr '''', -1, [], n)
          else (Inr (take buflen data), int (length (take buflen data)), [],
                (fst n - 1, snd n @ [Accepted sid (take buflen data)])))"

text \<open>What it has accepted and delivered on a stream.\<close>

definition sample_acc :: "sample_conn \<Rightarrow> i64 \<Rightarrow> zstring" where
  "sample_acc n sid =
     concat (map (\<lambda>io. case io of Accepted s d \<Rightarrow> if s = sid then d else '''' | _ \<Rightarrow> '''') (snd n))"

definition sample_dlv :: "sample_conn \<Rightarrow> i64 \<Rightarrow> zstring" where
  "sample_dlv n sid =
     concat (map (\<lambda>io. case io of Delivered s d \<Rightarrow> if s = sid then d else '''' | _ \<Rightarrow> '''') (snd n))"

definition sample_ngtcp2 :: "sample_conn ngtcp2" where
  "sample_ngtcp2 =
     \<lparr>NGTCP2_MILLISECONDS = 1000000, NGTCP2_SECONDS = 1000000000,
      NGTCP2_STREAM_DATA_FLAG_FIN = 1, NGTCP2_STREAM_CLOSE_FLAG_APP_ERROR_CODE_SET = 1,
      NGTCP2_WRITE_STREAM_FLAG_MORE = 1, NGTCP2_WRITE_STREAM_FLAG_FIN = 2,
      NGTCP2_MIN_INITIAL_DCIDLEN = 8, NGTCP2_MAX_CIDLEN = 20,
      NGTCP2_STATELESS_RESET_TOKENLEN = 16, NGTCP2_PROTO_VER_V1 = 1,
      ngtcp2_is_bidi_stream = (\<lambda>sid. sid AND 2 = 0),
      ngtcp2_is_supported_version = (\<lambda>v. v = 1),
      ngtcp2_ccerr_default = \<lparr>ce_error_code = 0, ce_reason = ''''\<rparr>,
      ngtcp2_ccerr_set_liberr = (\<lambda>e. \<lparr>ce_error_code = 1, ce_reason = ''''\<rparr>),
      ngtcp2_ccerr_set_tls_alert = (\<lambda>a. \<lparr>ce_error_code = 256 + ucast a, ce_reason = ''''\<rparr>),
      ngtcp2_ccerr_set_application_error = (\<lambda>code r. \<lparr>ce_error_code = code, ce_reason = r\<rparr>),
      ngtcp2_transport_params_default =
        \<lparr>initial_max_streams_bidi = 0, initial_max_streams_uni = 0,
         initial_max_stream_data_bidi_local = 0, initial_max_stream_data_bidi_remote = 0,
         initial_max_stream_data_uni = 0, initial_max_data = 0, max_idle_timeout = 0,
         active_connection_id_limit = 2, stateless_reset_token = None, original_dcid = None\<rparr>,
      ngtcp2_pkt_decode_version_cid = (\<lambda>p. (None, \<lparr>vc_version = 1, vc_dcid = take 8 p, vc_scid = ''''\<rparr>)),
      ngtcp2_conn_is_server = (\<lambda>n. False),
      ngtcp2_conn_is_local_stream = (\<lambda>n sid. sid AND 1 = 0),
      ngtcp2_conn_in_draining_period = (\<lambda>n. False),
      ngtcp2_conn_in_closing_period = (\<lambda>n. False),
      ngtcp2_conn_get_ccerr = (\<lambda>n. None),
      ngtcp2_conn_get_tls_alert = (\<lambda>n. 0),
      ngtcp2_conn_get_expiry = (\<lambda>n. 5000000),
      ngtcp2_conn_handle_expiry = (\<lambda>n now. (None, [], n)),
      ngtcp2_conn_read_pkt = (\<lambda>n path data now.
        (None, [Cb_recv_stream_data 0 1 0 data], (fst n, snd n @ [Delivered 1 data]))),
      ngtcp2_conn_open_bidi_stream = (\<lambda>n. (None, 0, n)),
      ngtcp2_conn_open_uni_stream = (\<lambda>n. (None, 2, n)),
      ngtcp2_conn_shutdown_stream = (\<lambda>n flags sid e. (None, n)),
      ngtcp2_conn_writev_stream = (\<lambda>n buflen flags sid datav now. sample_writev n buflen sid datav),
      ngtcp2_conn_write_connection_close = (\<lambda>n buflen e now. (Inr (take buflen ''c''), [], n)),
      ngtcp2_conn_client_new = (\<lambda>dcid scid path v now params. (None, (8, []))),
      ngtcp2_conn_server_new = (\<lambda>dcid scid path v now params. (None, (8, []))),
      ngtcp2_conn_set_tls_native_handle = (\<lambda>n h. n)\<rparr>"

text \<open>A client connection over it, with a clock that ticks a millisecond per reading.\<close>

definition sample_connection :: "sample_conn php_quic_connection" where
  "sample_connection =
     (php_quic_connection_create_object sample_ngtcp2 (\<lambda>i. of_nat i * 1000000))
       \<lparr>c_conn := Some (8, []),
        c_remote_address_zv := Addr \<lparr>ad_host = ''192.0.2.1'', ad_port = 443\<rparr>,
        c_local_address_zv := Addr \<lparr>ad_host = ''0.0.0.0'', ad_port = 0\<rparr>\<rparr>"

lemma sample_ngtcp2_simps [simp]:
  "NGTCP2_MILLISECONDS sample_ngtcp2 = 1000000"
  "ngtcp2_is_bidi_stream sample_ngtcp2 sid \<longleftrightarrow> sid AND 2 = 0"
  "ngtcp2_conn_is_server sample_ngtcp2 n = False"
  "ngtcp2_conn_is_local_stream sample_ngtcp2 n sid \<longleftrightarrow> sid AND 1 = 0"
  "ngtcp2_conn_in_draining_period sample_ngtcp2 n = False"
  "ngtcp2_conn_in_closing_period sample_ngtcp2 n = False"
  "ngtcp2_conn_get_expiry sample_ngtcp2 n = 5000000"
  "ngtcp2_conn_handle_expiry sample_ngtcp2 n now = (None, [], n)"
  "ngtcp2_conn_read_pkt sample_ngtcp2 n path data now =
     (None, [Cb_recv_stream_data 0 1 0 data], (fst n, snd n @ [Delivered 1 data]))"
  "ngtcp2_conn_open_bidi_stream sample_ngtcp2 n = (None, 0, n)"
  "ngtcp2_conn_open_uni_stream sample_ngtcp2 n = (None, 2, n)"
  "ngtcp2_conn_shutdown_stream sample_ngtcp2 n flags sid e = (None, n)"
  "ngtcp2_conn_writev_stream sample_ngtcp2 n buflen flags sid datav now = sample_writev n buflen sid datav"
  "ngtcp2_conn_write_connection_close sample_ngtcp2 n buflen err now = (Inr (take buflen ''c''), [], n)"
  by (simp_all add: sample_ngtcp2_def)

lemma sample_connection_simps [simp]:
  "c_conn sample_connection = Some (8, [])"
  "c_closed sample_connection = False"
  "c_streams sample_connection = []"
  "c_close_requested sample_connection = False"
  by (simp_all add: sample_connection_def php_quic_connection_create_object_def)

lemma create_object_wf: "conn_wf (php_quic_connection_create_object L hr)"
  by (simp add: conn_wf_def flags_wf_def streams_wf_def php_quic_connection_create_object_def
      hash_keys_def event_queue.wf_init)

lemma sample_connection_wf: "conn_wf sample_connection"
  using create_object_wf[of sample_ngtcp2 "\<lambda>i. of_nat i * 1000000"]
  by (simp add: sample_connection_def conn_wf_def flags_wf_def php_quic_connection_create_object_def)

end
