(* ===== verification/Quic_Rx.thy ===== *)
theory Quic_Rx
  imports Quic_Callbacks Quic_Sample
begin

text \<open>
  The receive side of a connection: what a sequence of library callbacks does to the bytes an
  application can read from a stream, and which events announce it.
\<close>

definition rx_bytes :: "'c php_quic_connection \<Rightarrow> i64 \<Rightarrow> zstring" where
  "rx_bytes c sid =
     (case zend_hash_find (c_streams c) sid of
        None \<Rightarrow> '''' | Some entry \<Rightarrow> buffer_bytes (se_rx_buffer entry))"

definition fin_received :: "'c php_quic_connection \<Rightarrow> i64 \<Rightarrow> bool" where
  "fin_received c sid =
     (case zend_hash_find (c_streams c) sid of None \<Rightarrow> False | Some entry \<Rightarrow> se_fin_recv entry)"

definition readable :: "'c php_quic_connection \<Rightarrow> i64 \<Rightarrow> bool" where
  "readable c sid =
     (case zend_hash_find (c_streams c) sid of None \<Rightarrow> False | Some entry \<Rightarrow> se_readable entry)"

text \<open>The bytes the library delivered for a stream, and whether it delivered the end.\<close>

fun delivered :: "i64 \<Rightarrow> 'c ngtcp2_callback list \<Rightarrow> zstring" where
  "delivered sid [] = ''''"
| "delivered sid (Cb_recv_stream_data flags s off data # cbs) =
     (if s = sid then data else '''') @ delivered sid cbs"
| "delivered sid (cb # cbs) = delivered sid cbs"

fun delivered_fin :: "'c ngtcp2 \<Rightarrow> i64 \<Rightarrow> 'c ngtcp2_callback list \<Rightarrow> bool" where
  "delivered_fin L sid [] = False"
| "delivered_fin L sid (Cb_recv_stream_data flags s off data # cbs) =
     (s = sid \<and> flags AND NGTCP2_STREAM_DATA_FLAG_FIN L \<noteq> 0 \<or> delivered_fin L sid cbs)"
| "delivered_fin L sid (cb # cbs) = delivered_fin L sid cbs"

lemma delivered_Cons: "delivered sid (cb # cbs) = delivered sid [cb] @ delivered sid cbs"
  by (cases cb) simp_all

lemma delivered_fin_Cons:
  "delivered_fin L sid (cb # cbs) \<longleftrightarrow> delivered_fin L sid [cb] \<or> delivered_fin L sid cbs"
  by (cases cb) simp_all

lemma open_stream_entry_find:
  assumes "php_quic_connection_open_stream_entry c sid = (entry, c1)"
  shows "zend_hash_find (c_streams c1) j = (if j = sid then Some entry else zend_hash_find (c_streams c) j)"
  using assms by (auto simp: php_quic_connection_open_stream_entry_def Let_def put_entry_find
      php_quic_connection_get_stream_entry_def split: option.splits)

lemma open_stream_entry_rx:
  assumes "php_quic_connection_open_stream_entry c sid = (entry, c1)"
  shows "buffer_bytes (se_rx_buffer entry) = rx_bytes c sid \<and> se_fin_recv entry = fin_received c sid \<and>
    se_readable entry = readable c sid"
  using assms by (auto simp: php_quic_connection_open_stream_entry_def Let_def rx_bytes_def
      fin_received_def readable_def php_quic_connection_get_stream_entry_def
      php_quic_stream_entry_alloc_def split: option.splits)

lemmas rx_defs = rx_bytes_def fin_received_def readable_def

text \<open>A changed entry in its slot: what the three observers see.\<close>

lemma put_entry_rx [simp]:
  "rx_bytes (put_stream_entry c k e) j = (if j = k then buffer_bytes (se_rx_buffer e) else rx_bytes c j)"
  "fin_received (put_stream_entry c k e) j = (if j = k then se_fin_recv e else fin_received c j)"
  "readable (put_stream_entry c k e) j = (if j = k then se_readable e else readable c j)"
  by (simp_all add: rx_defs put_entry_find)

lemma open_stream_entry_rx_same:
  assumes "php_quic_connection_open_stream_entry c sid = (entry, c1)"
  shows "rx_bytes c1 = rx_bytes c \<and> fin_received c1 = fin_received c \<and> readable c1 = readable c"
proof -
  have "rx_bytes c1 j = rx_bytes c j \<and> fin_received c1 j = fin_received c j \<and> readable c1 j = readable c j" for j
    using open_stream_entry_find[OF assms, of j] open_stream_entry_rx[OF assms]
    by (cases "j = sid") (simp_all add: rx_defs)
  then show ?thesis by (simp add: fun_eq_iff)
qed

lemma push_event_rx [simp]:
  "rx_bytes (php_quic_connection_push_event c t s e b r) = rx_bytes c"
  "fin_received (php_quic_connection_push_event c t s e b r) = fin_received c"
  "readable (php_quic_connection_push_event c t s e b r) = readable c"
  by (auto simp: rx_defs)

lemma recv_stream_data_cb_rx:
  "rx_bytes (php_quic_recv_stream_data_cb L fl s d c) j = rx_bytes c j @ (if s = j then d else '''')"
  "fin_received (php_quic_recv_stream_data_cb L fl s d c) j =
     (fin_received c j \<or> s = j \<and> fl AND NGTCP2_STREAM_DATA_FLAG_FIN L \<noteq> 0)"
  "readable (php_quic_recv_stream_data_cb L fl s d c) j =
     (readable c j \<or> s = j \<and> rx_bytes c j @ d \<noteq> '''')"
proof -
  obtain entry c1 where o: "php_quic_connection_open_stream_entry c s = (entry, c1)" by fastforce
  note old = open_stream_entry_rx[OF o] open_stream_entry_rx_same[OF o]
  show "rx_bytes (php_quic_recv_stream_data_cb L fl s d c) j = rx_bytes c j @ (if s = j then d else '''')"
    "fin_received (php_quic_recv_stream_data_cb L fl s d c) j =
       (fin_received c j \<or> s = j \<and> fl AND NGTCP2_STREAM_DATA_FLAG_FIN L \<noteq> 0)"
    "readable (php_quic_recv_stream_data_cb L fl s d c) j =
       (readable c j \<or> s = j \<and> rx_bytes c j @ d \<noteq> '''')"
    using old unfolding php_quic_recv_stream_data_cb_def o Let_def prod.case
    by (auto simp: buffer.bytes_app)
qed

lemma other_cb_rx:
  assumes "\<nexists>fl s off d. cb = Cb_recv_stream_data fl s off d"
  shows "rx_bytes (invoke_callback L cb c) j = rx_bytes c j \<and>
    fin_received (invoke_callback L cb c) j = fin_received c j \<and>
    readable (invoke_callback L cb c) j = readable c j"
proof (cases cb)
  case (Cb_stream_open n sid)
  obtain entry c1 where o: "php_quic_connection_open_stream_entry c sid = (entry, c1)" by fastforce
  with Cb_stream_open open_stream_entry_rx[OF o] open_stream_entry_rx_same[OF o] show ?thesis
    by (simp add: php_quic_stream_open_cb_def o)
next
  case (Cb_stream_close fl sid e)
  obtain entry c1 where o: "php_quic_connection_open_stream_entry c sid = (entry, c1)" by fastforce
  with Cb_stream_close open_stream_entry_rx[OF o] open_stream_entry_rx_same[OF o] show ?thesis
    by (simp add: php_quic_stream_close_cb_def o)
next
  case (Cb_stream_reset sid fs e)
  obtain entry c1 where o: "php_quic_connection_open_stream_entry c sid = (entry, c1)" by fastforce
  with Cb_stream_reset open_stream_entry_rx[OF o] open_stream_entry_rx_same[OF o] show ?thesis
    by (simp add: php_quic_stream_reset_cb_def o)
next
  case (Cb_acked_stream_data_offset sid off len)
  then show ?thesis
    by (auto simp: php_quic_acked_stream_data_offset_cb_def php_quic_connection_get_stream_entry_def
        rx_defs put_entry_find split: option.splits)
qed (use assms in \<open>auto simp: php_quic_handshake_completed_cb_def rx_defs\<close>)

text \<open>
  Whatever sequence of callbacks the library makes, the readable bytes of every stream
  are those it had before followed by the bytes delivered for that stream, in delivery order:
  no other stream's data, and no stream opening, closing, reset or acknowledgement, touches
  them. A stream has received its end exactly when it had before or a delivery carried the FIN
  flag.
\<close>

theorem callbacks_deliver:
  "rx_bytes (run_callbacks L cbs c) sid = rx_bytes c sid @ delivered sid cbs \<and>
   (fin_received (run_callbacks L cbs c) sid \<longleftrightarrow> fin_received c sid \<or> delivered_fin L sid cbs)"
proof (induction cbs arbitrary: c)
  case (Cons cb cbs)
  have "rx_bytes (invoke_callback L cb c) sid = rx_bytes c sid @ delivered sid [cb] \<and>
      (fin_received (invoke_callback L cb c) sid \<longleftrightarrow> fin_received c sid \<or> delivered_fin L sid [cb])"
    using other_cb_rx[of cb L c sid] by (cases cb) (simp_all add: recv_stream_data_cb_rx)
  then show ?case
    using Cons by (simp add: delivered_Cons[of sid cb cbs] delivered_fin_Cons[of L sid cb cbs])
qed simp

subsection \<open>Edge-triggered events\<close>

text \<open>The events of one kind for one stream that are in the queue.\<close>

definition queued :: "'c php_quic_connection \<Rightarrow> u32 \<Rightarrow> i64 \<Rightarrow> nat" where
  "queued c type sid =
     length (filter (\<lambda>ev. ev_type ev = type \<and> ev_stream_id ev = sid) (queue_list (c_events c)))"

lemma queued_push:
  "queue_wf (c_events c) \<Longrightarrow>
    queued (php_quic_connection_push_event c t s e b r) type sid =
      queued c type sid + (if t = type \<and> s = sid then 1 else 0)"
  by (simp add: queued_def push_event_list)

lemma queued_frame [frame, simp]:
  "queued (put_stream_entry c k entry) = queued c"
  "queued (snd (php_quic_connection_open_stream_entry c s)) = queued c"
  by (simp_all add: queued_def fun_eq_iff)

lemma queued_update [frame, simp]:
  "queued (c\<lparr>c_established := b\<rparr>) = queued c"
  by (simp add: queued_def fun_eq_iff)

lemma open_stream_entry_queued:
  "php_quic_connection_open_stream_entry c s = (entry, c1) \<Longrightarrow> c_events c1 = c_events c \<and> queued c1 = queued c"
  using open_stream_entry_frame(2)[of c s] queued_frame(2)[of c s] by simp

lemma open_put_push_queued:
  assumes "conn_wf c" "php_quic_connection_open_stream_entry c s = (entry, c1)"
  shows "queued (php_quic_connection_push_event (put_stream_entry c1 s e) t s x b r) type sid =
    queued c type sid + (if t = type \<and> s = sid then 1 else 0)"
  using assms open_stream_entry_queued[OF assms(2)] by (simp add: queued_push conn_wf_def)

lemma recv_stream_data_cb_edge:
  assumes c: "conn_wf c"
  shows "queued (php_quic_recv_stream_data_cb L fl s d c) type sid =
    queued c type sid + (if type = PHP_QUIC_EVENT_STREAM_READABLE \<and> \<not> readable c sid \<and>
      readable (php_quic_recv_stream_data_cb L fl s d c) sid then 1 else 0)"
proof -
  obtain entry c1 where o: "php_quic_connection_open_stream_entry c s = (entry, c1)" by fastforce
  show ?thesis
    using open_stream_entry_rx[OF o] open_stream_entry_rx_same[OF o] open_stream_entry_queued[OF o]
      open_put_push_queued[OF c o]
    unfolding recv_stream_data_cb_rx php_quic_recv_stream_data_cb_def o Let_def prod.case
    by (auto simp: buffer.bytes_app)
qed

lemma invoke_callback_edge:
  assumes c: "conn_wf c"
  shows "queued (invoke_callback L cb c) PHP_QUIC_EVENT_STREAM_READABLE sid =
      queued c PHP_QUIC_EVENT_STREAM_READABLE sid +
        (if \<not> readable c sid \<and> readable (invoke_callback L cb c) sid then 1 else 0) \<and>
    queued (invoke_callback L cb c) PHP_QUIC_EVENT_HANDSHAKE_COMPLETED (-1) =
      queued c PHP_QUIC_EVENT_HANDSHAKE_COMPLETED (-1) +
        (if \<not> c_established c \<and> c_established (invoke_callback L cb c) then 1 else 0)"
proof (cases cb)
  case Cb_handshake_completed
  then show ?thesis using c
    by (auto simp: php_quic_handshake_completed_cb_def queued_push conn_wf_def event_codes readable_def)
next
  case (Cb_stream_open n s)
  obtain entry c1 where o: "php_quic_connection_open_stream_entry c s = (entry, c1)" by fastforce
  with Cb_stream_open other_cb_rx[of cb L c] open_stream_entry_frame(6)[of c s] show ?thesis
    by (simp add: php_quic_stream_open_cb_def open_put_push_queued[OF c o] event_codes)
next
  case (Cb_recv_stream_data fl s off d)
  obtain entry c1 where o: "php_quic_connection_open_stream_entry c s = (entry, c1)" by fastforce
  have "c_established (invoke_callback L cb c) = c_established c"
    using open_stream_entry_frame(6)[of c s] o
    by (simp add: Cb_recv_stream_data php_quic_recv_stream_data_cb_def Let_def)
  with Cb_recv_stream_data show ?thesis
    by (simp add: recv_stream_data_cb_edge[OF c] event_codes)
next
  case (Cb_stream_close fl s e)
  obtain entry c1 where o: "php_quic_connection_open_stream_entry c s = (entry, c1)" by fastforce
  with Cb_stream_close other_cb_rx[of cb L c] open_stream_entry_frame(6)[of c s] show ?thesis
    by (simp add: php_quic_stream_close_cb_def open_put_push_queued[OF c o] event_codes)
next
  case (Cb_stream_reset s fs e)
  obtain entry c1 where o: "php_quic_connection_open_stream_entry c s = (entry, c1)" by fastforce
  with Cb_stream_reset other_cb_rx[of cb L c] open_stream_entry_frame(6)[of c s] show ?thesis
    by (simp add: php_quic_stream_reset_cb_def open_put_push_queued[OF c o] event_codes)
next
  case (Cb_acked_stream_data_offset s off len)
  then show ?thesis using c other_cb_rx[of cb L c]
    by (auto simp: php_quic_acked_stream_data_offset_cb_def queued_push conn_wf_def event_codes split: option.split)
qed

lemma invoke_callback_mono:
  assumes c: "conn_wf c"
  shows "(readable c sid \<longrightarrow> readable (invoke_callback L cb c) sid) \<and>
    (c_established c \<longrightarrow> c_established (invoke_callback L cb c)) \<and>
    (delivered sid [cb] \<noteq> '''' \<longrightarrow> readable (invoke_callback L cb c) sid)"
  using invoke_callback_op[OF c, of L cb] other_cb_rx[of cb L c sid]
  by (cases cb) (auto simp: conn_progress_def recv_stream_data_cb_rx)

text \<open>
  C19. Events are edge triggered. Over any sequence of callbacks on a well-formed connection,
  exactly one STREAM_READABLE event is queued for a stream that turns readable and none for a
  stream that already was or that stays unreadable, however many deliveries it gets; exactly
  one HANDSHAKE_COMPLETED is queued when the connection becomes established and none otherwise;
  and every stream that got bytes is readable afterwards.
\<close>

theorem callbacks_edge_triggered:
  assumes "conn_wf c"
  shows "let c' = run_callbacks L cbs c in
    queued c' PHP_QUIC_EVENT_STREAM_READABLE sid =
      queued c PHP_QUIC_EVENT_STREAM_READABLE sid + (if \<not> readable c sid \<and> readable c' sid then 1 else 0) \<and>
    queued c' PHP_QUIC_EVENT_HANDSHAKE_COMPLETED (-1) =
      queued c PHP_QUIC_EVENT_HANDSHAKE_COMPLETED (-1) + (if \<not> c_established c \<and> c_established c' then 1 else 0) \<and>
    (readable c sid \<or> delivered sid cbs \<noteq> '''' \<longrightarrow> readable c' sid) \<and>
    (c_established c \<longrightarrow> c_established c')"
  using assms unfolding Let_def
proof (induction cbs arbitrary: c)
  case (Cons cb cbs)
  have "conn_wf (invoke_callback L cb c)" using Cons.prems invoke_callback_op by blast
  from Cons.IH[OF this] invoke_callback_edge[OF Cons.prems, of L cb sid]
    invoke_callback_mono[OF Cons.prems, of sid L cb]
  show ?case by (auto simp: delivered_Cons[of sid cb cbs] simp del: invoke_callback_simps)
qed simp

theorem callbacks_edge_triggered_witness:
  "let c' = run_callbacks sample_ngtcp2
     [Cb_recv_stream_data 0 1 0 ''ab'', Cb_handshake_completed, Cb_recv_stream_data 0 1 2 ''c'']
     sample_connection
   in conn_wf sample_connection \<and> queued c' PHP_QUIC_EVENT_STREAM_READABLE 1 = 1 \<and> readable c' 1"
proof -
  let ?cbs = "[Cb_recv_stream_data 0 1 0 ''ab'', Cb_handshake_completed, Cb_recv_stream_data 0 1 2 ''c'']"
  have "queued sample_connection PHP_QUIC_EVENT_STREAM_READABLE 1 = 0" "\<not> readable sample_connection 1"
    by code_simp+
  with callbacks_edge_triggered[OF sample_connection_wf, of sample_ngtcp2 ?cbs 1] sample_connection_wf
  show ?thesis by (simp add: Let_def del: invoke_callback_simps run_callbacks_simps)
qed

end
