(* ===== verification/Quic_Tx.thy ===== *)
theory Quic_Tx
  imports Quic_Conn_Inv
begin

text \<open>
  The transmit bookkeeping of one stream: what \<^verbatim>\<open>php_quic_connection_pick_tx_stream\<close>,
  \<^verbatim>\<open>php_quic_connection_update_tx_entry\<close> and \<^verbatim>\<open>php_quic_connection_discard_tx_entry\<close>
  do to the bytes that are still to be handed to the library (\<open>unsent\<close>).
\<close>

lemma tx_offset_add:
  assumes "unat (off :: u64) \<le> n" "n < 2 ^ 64" "0 \<le> w" "nat w \<le> n - unat off"
  shows "unat (off + word_of_int w) = unat off + nat w"
proof -
  have lt: "unat off + nat w < 2 ^ 64" using assms by linarith
  have "word_of_int w = (of_nat (nat w) :: u64)" using assms by simp
  moreover have "unat (of_nat (nat w) :: u64) = nat w" using lt by (simp add: unat_of_nat)
  ultimately show ?thesis using lt by (simp add: unat_word_ariths)
qed

lemma length_unsent [simp]: "length (unsent entry) = tx_len entry - unat (se_tx_offset entry)"
  by (simp add: unsent_def)

lemma unsent_Nil_iff: "unsent entry = '''' \<longleftrightarrow> tx_len entry \<le> unat (se_tx_offset entry)"
  by (simp add: unsent_def)

lemma drop_unsent_Nil_iff:
  "drop n (unsent entry) = '''' \<longleftrightarrow> tx_len entry \<le> unat (se_tx_offset entry) + n"
  by (auto simp: unsent_def)

lemma tx_entry_advance_offset:
  assumes wf: "entry_wf entry" and n: "tx_len entry < 2 ^ 64" and w: "nat w \<le> length (unsent entry)"
  defines "off \<equiv> unat (se_tx_offset entry) + nat w"
  shows "tx_entry_advance entry w fa pe =
    (let e2 = (if w > 0 then entry\<lparr>se_tx_offset := se_tx_offset entry + word_of_int w\<rparr> else entry);
         e3 = (if fa \<and> pe \<and> se_fin_pending entry \<and> tx_len entry \<le> off
               then e2\<lparr>se_fin_pending := False, se_fin_sent := True, se_writable := False\<rparr> else e2)
     in if tx_len entry \<le> off \<and> tx_len entry > 0
        then e3\<lparr>se_tx_buffer := Some '''', se_tx_offset := 0\<rparr> else e3)"
proof (cases "w > 0")
  case True
  have o: "unat (se_tx_offset entry) \<le> tx_len entry" using wf by (simp add: entry_wf_def)
  define e1 where "e1 = entry\<lparr>se_tx_offset := se_tx_offset entry + word_of_int w\<rparr>"
  have "unat (se_tx_offset entry + word_of_int w) = off"
    unfolding off_def using o n w True by (intro tx_offset_add) auto
  then have e1: "tx_len e1 = tx_len entry" "unat (se_tx_offset e1) = off"
    "se_fin_pending e1 = se_fin_pending entry"
    by (simp_all add: e1_def)
  have "\<not> off > tx_len entry" using o w by (simp add: off_def)
  then show ?thesis
    using True unfolding tx_entry_advance_def Let_def e1_def[symmetric]
    by (cases "fa \<and> pe \<and> se_fin_pending entry \<and> tx_len entry \<le> off")
       (simp_all only: if_True if_False simp_thms e1, simp_all add: e1)
next
  case False
  then have off: "off = unat (se_tx_offset entry)" by (simp add: off_def)
  have "\<not> off > tx_len entry" using wf by (simp add: off entry_wf_def)
  then show ?thesis
    using False unfolding tx_entry_advance_def Let_def off
    by (cases "fa \<and> pe \<and> se_fin_pending entry \<and> tx_len entry \<le> unat (se_tx_offset entry)")
       (simp_all only: if_True if_False simp_thms, simp_all)
qed

lemma tx_advance_unsent:
  assumes "entry_wf entry" and "tx_len entry < 2 ^ 64" and "nat w \<le> length (unsent entry)"
  shows "unsent (tx_entry_advance entry w fa pe) = drop (nat w) (unsent entry)"
proof -
  have o: "unat (se_tx_offset entry) \<le> tx_len entry" using assms by (simp add: entry_wf_def)
  have add: "w > 0 \<Longrightarrow> unat (se_tx_offset entry + word_of_int w) = unat (se_tx_offset entry) + nat w"
    using o assms by (intro tx_offset_add) auto
  show ?thesis
    unfolding tx_entry_advance_offset[OF assms] using add by (simp add: Let_def unsent_def add.commute)
qed

text \<open>
  C18. Handing data to the library neither loses nor repeats a byte: when the library accepts
  \<open>w\<close> of the bytes it was offered, exactly the first \<open>w\<close> leave the unsent bytes of the
  stream; the FIN counts as sent exactly when it was pending, was attempted in a call that
  produced a packet, and no byte is left to send before it.
\<close>

theorem tx_advance_exact:
  assumes "entry_wf entry" and "tx_len entry < 2 ^ 64" and "nat w \<le> length (unsent entry)"
  shows "let entry' = tx_entry_advance entry w fin_attempted packet_emitted;
             fin_done = (se_fin_pending entry \<and> fin_attempted \<and> packet_emitted \<and>
               drop (nat w) (unsent entry) = '''')
    in unsent entry' = drop (nat w) (unsent entry) \<and>
       (se_fin_sent entry' \<longleftrightarrow> se_fin_sent entry \<or> fin_done) \<and>
       (se_fin_pending entry' \<longleftrightarrow> se_fin_pending entry \<and> \<not> fin_done)"
proof -
  define entry' where "entry' = tx_entry_advance entry w fin_attempted packet_emitted"
  define fin_done where "fin_done \<longleftrightarrow> se_fin_pending entry \<and> fin_attempted \<and> packet_emitted \<and>
    drop (nat w) (unsent entry) = ''''"
  note eq = tx_entry_advance_offset[OF assms(1-3), of fin_attempted packet_emitted, folded entry'_def]
  have "unsent entry' = drop (nat w) (unsent entry)"
    unfolding entry'_def by (rule tx_advance_unsent[OF assms])
  moreover have "se_fin_sent entry' \<longleftrightarrow> se_fin_sent entry \<or> fin_done"
    unfolding eq fin_done_def drop_unsent_Nil_iff
    by (cases "w > 0"; simp add: Let_def; argo?)
  moreover have "se_fin_pending entry' \<longleftrightarrow> se_fin_pending entry \<and> \<not> fin_done"
    unfolding eq fin_done_def drop_unsent_Nil_iff
    by (cases "w > 0"; simp add: Let_def; argo?)
  ultimately show ?thesis
    unfolding Let_def entry'_def[symmetric] fin_done_def[symmetric] by blast
qed

theorem tx_advance_exact_witness:
  "unsent (tx_entry_advance ((php_quic_stream_entry_alloc 0)\<lparr>se_tx_buffer := Some ''abc''\<rparr>) 2 False False) = ''c''"
proof -
  let ?entry = "(php_quic_stream_entry_alloc 0)\<lparr>se_tx_buffer := Some ''abc''\<rparr>"
  have "entry_wf ?entry" "tx_len ?entry < 2 ^ 64" "nat 2 \<le> length (unsent ?entry)"
    by (simp_all add: entry_wf_def php_quic_stream_entry_alloc_def unsent_def)
  from tx_advance_exact[OF this, of False False] show ?thesis
    by (simp add: Let_def unsent_def php_quic_stream_entry_alloc_def)
qed

end
