(* ===== verification/Quic_Stream.thy ===== *)
theory Quic_Stream
  imports Quic_Rx Quic_Tx
begin

text \<open>
  \<^verbatim>\<open>src/stream.c\<close>: the PHP object for one stream of a connection. It holds a reference
  to its connection object and a stream id; every method resolves the stream entry of the
  connection anew. Connection objects live in a store from handles to their state
  (\<open>objects\<close>), so that the streams of a connection, and the endpoint that owns it, share it.
\<close>

type_synonym 'c objects = "nat \<Rightarrow> 'c php_quic_connection option"

record php_quic_stream =
  st_connection :: "nat option"
  st_stream_id :: i64

definition php_quic_stream_create_object :: php_quic_stream where
  "php_quic_stream_create_object = \<lparr>st_connection = None, st_stream_id = -1\<rparr>"

definition php_quic_stream_create :: "nat \<Rightarrow> i64 \<Rightarrow> php_quic_stream" where
  "php_quic_stream_create connection stream_id =
     php_quic_stream_create_object\<lparr>st_connection := Some connection, st_stream_id := stream_id\<rparr>"

definition Stream_construct :: "unit outcome" where
  "Stream_construct = Inl (Exception (''Varion'' @ [CHR 0x5C] @ ''Ngtcp2'' @ [CHR 0x5C] @
     ''Stream cannot be constructed directly''))"

definition Stream_getId :: "php_quic_stream \<Rightarrow> zend_long" where
  "Stream_getId stream = st_stream_id stream"

definition php_quic_stream_resolve_connection ::
  "'c objects \<Rightarrow> php_quic_stream \<Rightarrow> (nat \<times> 'c php_quic_connection) option" where
  "php_quic_stream_resolve_connection objs stream =
     (case st_connection stream of
        None \<Rightarrow> None
      | Some h \<Rightarrow> (case objs h of None \<Rightarrow> None | Some c \<Rightarrow> Some (h, c)))"

definition php_quic_stream_resolve_entry ::
  "'c objects \<Rightarrow> php_quic_stream \<Rightarrow> (nat \<times> 'c php_quic_connection \<times> php_quic_stream_entry) option" where
  "php_quic_stream_resolve_entry objs stream =
     (case php_quic_stream_resolve_connection objs stream of
        None \<Rightarrow> None
      | Some (h, c) \<Rightarrow>
          (case php_quic_connection_get_stream_entry c (st_stream_id stream) of
             None \<Rightarrow> None | Some entry \<Rightarrow> Some (h, c, entry)))"

definition php_quic_stream_is_remote_unidirectional ::
  "'c ngtcp2 \<Rightarrow> 'c php_quic_connection \<Rightarrow> i64 \<Rightarrow> bool" where
  "php_quic_stream_is_remote_unidirectional L c stream_id =
     (case c_conn c of
        None \<Rightarrow> False
      | Some n \<Rightarrow> if ngtcp2_is_bidi_stream L stream_id then False
                  else \<not> ngtcp2_conn_is_local_stream L n stream_id)"

definition Stream_read ::
  "php_quic_stream \<Rightarrow> zend_long \<Rightarrow> 'c objects \<Rightarrow> zstring outcome \<times> 'c objects" where
  "Stream_read stream len objs =
     (if sint len \<le> 0 then (Inl (Value_error 1 ''must be greater than 0''), objs)
      else
        case php_quic_stream_resolve_entry objs stream of
          None \<Rightarrow> (Inr '''', objs)
        | Some (h, c, entry) \<Rightarrow>
            if se_rx_buffer entry = None \<or> rx_len entry = 0 then (Inr '''', objs)
            else
              let (chunk, rx) = php_quic_buffer_read (se_rx_buffer entry) (unat len);
                  entry1 = entry\<lparr>se_rx_buffer := rx\<rparr>;
                  entry2 = entry1\<lparr>se_readable := (rx_len entry1 > 0)\<rparr>
              in (Inr chunk, objs(h \<mapsto> put_stream_entry c (st_stream_id stream) entry2)))"

definition Stream_write ::
  "'c ngtcp2 \<Rightarrow> php_quic_stream \<Rightarrow> zstring \<Rightarrow> 'c objects \<Rightarrow> zend_long outcome \<times> 'c objects" where
  "Stream_write L stream data objs =
     (case php_quic_stream_resolve_entry objs stream of
        None \<Rightarrow> (Inl (Exception ''Stream entry does not exist''), objs)
      | Some (h, c, entry) \<Rightarrow>
          if php_quic_stream_is_remote_unidirectional L c (st_stream_id stream) then
            (Inl (Exception ''Cannot write to a remote unidirectional stream''), objs)
          else if se_closed entry \<or> se_fin_sent entry \<or> se_fin_pending entry then
            (Inl (Exception ''Stream is not writable''), objs)
          else
            let entry1 = entry\<lparr>se_tx_buffer := php_quic_buffer_append (se_tx_buffer entry) data (length data)\<rparr>;
                entry2 = entry1\<lparr>se_writable := False\<rparr>
            in (Inr (of_nat (length data)),
                objs(h \<mapsto> put_stream_entry c (st_stream_id stream) entry2)))"

definition Stream_end ::
  "'c ngtcp2 \<Rightarrow> php_quic_stream \<Rightarrow> zstring option \<Rightarrow> 'c objects \<Rightarrow> unit outcome \<times> 'c objects" where
  "Stream_end L stream final_data objs =
     (case php_quic_stream_resolve_entry objs stream of
        None \<Rightarrow> (Inl (Exception ''Stream entry does not exist''), objs)
      | Some (h, c, entry) \<Rightarrow>
          if php_quic_stream_is_remote_unidirectional L c (st_stream_id stream) then
            (Inl (Exception ''Cannot end a remote unidirectional stream''), objs)
          else
            let entry1 = (case final_data of
                            None \<Rightarrow> entry
                          | Some data \<Rightarrow> entry\<lparr>se_tx_buffer :=
                              php_quic_buffer_append (se_tx_buffer entry) data (length data)\<rparr>);
                entry2 = entry1\<lparr>se_fin_pending := True, se_writable := False\<rparr>
            in (Inr (), objs(h \<mapsto> put_stream_entry c (st_stream_id stream) entry2)))"

definition Stream_reset ::
  "'c ngtcp2 \<Rightarrow> php_quic_stream \<Rightarrow> zend_long \<Rightarrow> 'c objects \<Rightarrow> unit outcome \<times> 'c objects" where
  "Stream_reset L stream error_code objs =
     (case php_quic_stream_resolve_entry objs stream of
        None \<Rightarrow> (Inl (Exception ''Stream entry does not exist''), objs)
      | Some (h, c, entry) \<Rightarrow>
          let (rv, c1) =
                (case c_conn c of
                   None \<Rightarrow> (None, c)
                 | Some n \<Rightarrow>
                     if \<not> c_closed c then
                       let (rv, n1) = ngtcp2_conn_shutdown_stream L n 0 (st_stream_id stream) error_code
                       in (rv, c\<lparr>c_conn := Some n1\<rparr>)
                     else (None, c))
          in case rv of
               Some e \<Rightarrow> (Inl (Call_failed ''ngtcp2_conn_shutdown_stream'' e), objs(h \<mapsto> c1))
             | None \<Rightarrow>
                 let entry1 = entry\<lparr>se_reset := True, se_closed := True, se_readable := False,
                       se_writable := False, se_fin_pending := False, se_pending_open := False\<rparr>
                 in (Inr (), objs(h \<mapsto>
                       php_quic_connection_push_event
                         (put_stream_entry c1 (st_stream_id stream) entry1)
                         PHP_QUIC_EVENT_STREAM_RESET (st_stream_id stream) error_code False None)))"

definition Stream_isReadable :: "php_quic_stream \<Rightarrow> 'c objects \<Rightarrow> bool" where
  "Stream_isReadable stream objs =
     (case php_quic_stream_resolve_entry objs stream of
        None \<Rightarrow> False | Some (h, c, entry) \<Rightarrow> se_readable entry)"

definition Stream_isWritable :: "php_quic_stream \<Rightarrow> 'c objects \<Rightarrow> bool" where
  "Stream_isWritable stream objs =
     (case php_quic_stream_resolve_entry objs stream of
        None \<Rightarrow> False | Some (h, c, entry) \<Rightarrow> se_writable entry \<and> \<not> se_closed entry)"

definition Stream_isClosed :: "php_quic_stream \<Rightarrow> 'c objects \<Rightarrow> bool" where
  "Stream_isClosed stream objs =
     (case php_quic_stream_resolve_entry objs stream of
        None \<Rightarrow> True | Some (h, c, entry) \<Rightarrow> se_closed entry)"

subsection \<open>Every method keeps every connection well formed\<close>

definition objects_wf :: "'c objects \<Rightarrow> bool" where
  "objects_wf objs \<longleftrightarrow> (\<forall>h c. objs h = Some c \<longrightarrow> conn_wf c)"

lemma objects_wf_upd: "objects_wf objs \<Longrightarrow> conn_wf c \<Longrightarrow> objects_wf (objs(h \<mapsto> c))"
  by (simp add: objects_wf_def)

lemma objects_wf_find: "objects_wf objs \<Longrightarrow> objs h = Some c \<Longrightarrow> conn_wf c"
  by (simp add: objects_wf_def)

lemma resolve_entry_Some:
  assumes "php_quic_stream_resolve_entry objs stream = Some (h, c, entry)"
  shows "st_connection stream = Some h \<and> objs h = Some c \<and>
    zend_hash_find (c_streams c) (st_stream_id stream) = Some entry"
  using assms by (auto simp: php_quic_stream_resolve_entry_def php_quic_stream_resolve_connection_def
      php_quic_connection_get_stream_entry_def split: option.splits)

lemma resolve_entry_wf:
  assumes "objects_wf objs" "php_quic_stream_resolve_entry objs stream = Some (h, c, entry)"
  shows "conn_wf c \<and> entry_wf entry \<and> se_stream_id entry = st_stream_id stream"
  using resolve_entry_Some[OF assms(2)] objects_wf_find[OF assms(1)] conn_wf_find by blast

text \<open>Storing a changed entry of the resolved stream.\<close>

lemma put_resolved_wf:
  assumes "objects_wf objs" "php_quic_stream_resolve_entry objs stream = Some (h, c, entry)"
    and "entry_wf entry'" "se_stream_id entry' = se_stream_id entry"
  shows "objects_wf (objs(h \<mapsto> put_stream_entry c (st_stream_id stream) entry'))"
  using resolve_entry_wf[OF assms(1,2)] assms by (auto intro!: objects_wf_upd put_entry_wf)

lemma buffer_read_Some: "b \<noteq> None \<Longrightarrow> snd (php_quic_buffer_read b n) \<noteq> None"
  by (auto simp: php_quic_buffer_read_def Let_def)

lemma Stream_read_wf: "objects_wf objs \<Longrightarrow> objects_wf (snd (Stream_read stream len objs))"
proof (cases "php_quic_stream_resolve_entry objs stream")
  case (Some r)
  assume wf: "objects_wf objs"
  obtain h c entry where r: "php_quic_stream_resolve_entry objs stream = Some (h, c, entry)"
    using Some by (cases r) auto
  obtain chunk rx where rd: "php_quic_buffer_read (se_rx_buffer entry) (unat len) = (chunk, rx)" by fastforce
  have e: "entry_wf entry" using resolve_entry_wf[OF wf r] by simp
  have "rx \<noteq> None"
    using rd e buffer_read_Some[of "se_rx_buffer entry" "unat len"] by (simp add: entry_wf_def)
  with e have "entry_wf (entry\<lparr>se_rx_buffer := rx, se_readable := (0 < length (buffer_bytes rx))\<rparr>)"
    by (auto simp: entry_wf_def)
  then have "objects_wf (objs(h \<mapsto> put_stream_entry c (st_stream_id stream)
      (entry\<lparr>se_rx_buffer := rx, se_readable := (0 < length (buffer_bytes rx))\<rparr>)))"
    by (intro put_resolved_wf[OF wf r]) auto
  with wf rd show ?thesis by (simp add: Stream_read_def r)
qed (simp add: Stream_read_def)

lemma append_tx_wf:
  "entry_wf entry \<Longrightarrow>
    entry_wf (entry\<lparr>se_tx_buffer := php_quic_buffer_append (se_tx_buffer entry) data (length data)\<rparr>)"
  by (auto simp: entry_wf_def buffer_append_Some buffer.bytes_app)

lemma entry_wf_flags [wf_simps, simp]:
  "entry_wf (entry\<lparr>se_fin_pending := b\<rparr>) = entry_wf entry"
  "entry_wf (entry\<lparr>se_fin_pending := b, se_writable := w\<rparr>) = entry_wf entry"
  "entry_wf (entry\<lparr>se_pending_open := b\<rparr>) = entry_wf entry"
  by (simp_all add: entry_wf_def)

lemma Stream_write_wf: "objects_wf objs \<Longrightarrow> objects_wf (snd (Stream_write L stream data objs))"
  by (auto simp: Stream_write_def Let_def append_tx_wf dest: resolve_entry_wf
      intro!: put_resolved_wf split: option.split)

lemma Stream_end_wf: "objects_wf objs \<Longrightarrow> objects_wf (snd (Stream_end L stream final_data objs))"
  by (auto simp: Stream_end_def Let_def append_tx_wf dest: resolve_entry_wf
      intro!: put_resolved_wf split: option.split)

lemma reset_entry_wf:
  "entry_wf entry \<Longrightarrow> entry_wf (entry\<lparr>se_reset := True, se_closed := True, se_readable := False\<rparr>)"
  by (simp add: entry_wf_def)

lemma Stream_reset_wf: "objects_wf objs \<Longrightarrow> objects_wf (snd (Stream_reset L stream e objs))"
proof (cases "php_quic_stream_resolve_entry objs stream")
  case (Some r)
  assume wf: "objects_wf objs"
  obtain h c entry where r: "php_quic_stream_resolve_entry objs stream = Some (h, c, entry)"
    using Some by (cases r) auto
  have "conn_wf c" "entry_wf entry" "se_stream_id entry = st_stream_id stream"
    using resolve_entry_wf[OF wf r] by simp_all
  with wf show ?thesis
    by (auto simp: Stream_reset_def r Let_def reset_entry_wf split: option.splits prod.splits
        intro!: objects_wf_upd push_event_wf put_entry_wf)
qed (simp add: Stream_reset_def)

end
