(* ===== verification/Quic_Stream_Props.thy ===== *)
theory Quic_Stream_Props
  imports Quic_Stream
begin

text \<open>
  The two directions of a stream as an application sees them: the bytes \<^verbatim>\<open>read\<close> returns
  against the bytes the library delivered, and what \<^verbatim>\<open>write\<close>, \<^verbatim>\<open>end\<close> and
  \<^verbatim>\<open>reset\<close> do to the bytes that are still to be sent.
\<close>

subsection \<open>Receiving\<close>

text \<open>
  What happens to one stream: library calls that run callbacks on its connection, and reads
  through the stream object. The result collects the bytes that reads returned.
\<close>

datatype 'c rx_op = Rx_callbacks "'c ngtcp2_callback list" | Rx_read zend_long

fun rx_run ::
  "'c ngtcp2 \<Rightarrow> php_quic_stream \<Rightarrow> 'c rx_op list \<Rightarrow> 'c objects \<Rightarrow> zstring \<times> 'c objects" where
  "rx_run L stream [] objs = ('''', objs)"
| "rx_run L stream (Rx_callbacks cbs # ops) objs =
     (case php_quic_stream_resolve_connection objs stream of
        None \<Rightarrow> rx_run L stream ops objs
      | Some (h, c) \<Rightarrow> rx_run L stream ops (objs(h \<mapsto> run_callbacks L cbs c)))"
| "rx_run L stream (Rx_read len # ops) objs =
     (let (r, objs1) = Stream_read stream len objs;
          (out, objs2) = rx_run L stream ops objs1
      in ((case r of Inl e \<Rightarrow> '''' | Inr chunk \<Rightarrow> chunk) @ out, objs2))"

fun rx_deliveries :: "'c rx_op list \<Rightarrow> 'c ngtcp2_callback list" where
  "rx_deliveries [] = []"
| "rx_deliveries (Rx_callbacks cbs # ops) = cbs @ rx_deliveries ops"
| "rx_deliveries (Rx_read len # ops) = rx_deliveries ops"

lemma delivered_append: "delivered sid (xs @ ys) = delivered sid xs @ delivered sid ys"
  by (induction sid xs rule: delivered.induct) simp_all

lemma run_callbacks_rx: "rx_bytes (run_callbacks L cbs c) sid = rx_bytes c sid @ delivered sid cbs"
proof (induction cbs arbitrary: c)
  case (Cons cb cbs)
  have "rx_bytes (invoke_callback L cb c) sid = rx_bytes c sid @ delivered sid [cb]"
    using other_cb_rx[of cb L c sid] by (cases cb) (simp_all add: recv_stream_data_cb_rx)
  then show ?case using Cons by (simp add: delivered_Cons[of sid cb cbs])
qed simp

lemma Stream_read_rx:
  assumes "php_quic_stream_resolve_connection objs stream = Some (h, c)"
    and "Stream_read stream len objs = (r, objs1)"
  shows "\<exists>c1. php_quic_stream_resolve_connection objs1 stream = Some (h, c1) \<and>
    (case r of Inl e \<Rightarrow> '''' | Inr chunk \<Rightarrow> chunk) @ rx_bytes c1 (st_stream_id stream) =
      rx_bytes c (st_stream_id stream)"
proof -
  define sid where "sid = st_stream_id stream"
  have h: "st_connection stream = Some h" "objs h = Some c"
    using assms(1) by (auto simp: php_quic_stream_resolve_connection_def split: option.splits)
  show ?thesis
  proof (cases "sint len \<le> 0 \<or> php_quic_stream_resolve_entry objs stream = None \<or> rx_bytes c sid = ''''")
    case True
    then have "objs1 = objs \<and> (case r of Inl e \<Rightarrow> '''' | Inr chunk \<Rightarrow> chunk) = ''''"
      using assms h
      by (auto simp: Stream_read_def php_quic_stream_resolve_entry_def rx_bytes_def sid_def
          php_quic_connection_get_stream_entry_def split: option.splits if_splits)
    with assms(1) show ?thesis by simp
  next
    case False
    then obtain entry where e: "php_quic_stream_resolve_entry objs stream = Some (h, c, entry)"
      "zend_hash_find (c_streams c) sid = Some entry"
      using assms(1) by (auto simp: php_quic_stream_resolve_entry_def sid_def
          php_quic_connection_get_stream_entry_def split: option.splits)
    obtain chunk rx where rd: "php_quic_buffer_read (se_rx_buffer entry) (unat len) = (chunk, rx)" by fastforce
    have "chunk @ buffer_bytes rx = rx_bytes c sid"
      using buffer.rd_conserves[of "se_rx_buffer entry" "unat len"] rd e by (simp add: rx_bytes_def)
    with False assms h e rd show ?thesis
      by (auto simp: Stream_read_def rx_bytes_def sid_def put_entry_find
          php_quic_stream_resolve_connection_def split: if_splits)
  qed
qed

text \<open>
  C9. End-to-end delivery. Over any interleaving of library calls and reads of any lengths
  (refused lengths included), what the reads of a stream returned, in order, followed by what
  is still readable is exactly what was readable at the start followed by the bytes the library
  delivered for that stream.
\<close>

theorem stream_delivery:
  assumes "php_quic_stream_resolve_connection objs stream = Some (h, c)"
  shows "\<exists>c'. php_quic_stream_resolve_connection (snd (rx_run L stream ops objs)) stream = Some (h, c') \<and>
    fst (rx_run L stream ops objs) @ rx_bytes c' (st_stream_id stream) =
      rx_bytes c (st_stream_id stream) @ delivered (st_stream_id stream) (rx_deliveries ops)"
  using assms
proof (induction L stream ops objs arbitrary: c rule: rx_run.induct)
  case (2 L stream cbs ops objs)
  let ?c1 = "run_callbacks L cbs c"
  have r: "php_quic_stream_resolve_connection (objs(h \<mapsto> ?c1)) stream = Some (h, ?c1)"
    using "2.prems" by (auto simp: php_quic_stream_resolve_connection_def split: option.splits)
  with "2.IH"(2)[OF "2.prems" refl r] "2.prems" show ?case
    by (simp add: run_callbacks_rx delivered_append del: fun_upd_apply)
next
  case (3 L stream len ops objs)
  obtain r objs1 where rd: "Stream_read stream len objs = (r, objs1)" by fastforce
  from Stream_read_rx[OF "3.prems" rd] obtain c1 where
    c1: "php_quic_stream_resolve_connection objs1 stream = Some (h, c1)" and
    eq: "(case r of Inl e \<Rightarrow> '''' | Inr chunk \<Rightarrow> chunk) @ rx_bytes c1 (st_stream_id stream) =
      rx_bytes c (st_stream_id stream)" by blast
  from "3.IH"[OF rd[symmetric] refl c1] rd show ?case
    by (auto split: prod.splits simp flip: eq)
qed simp

theorem stream_delivery_witness:
  "\<exists>c'. php_quic_stream_resolve_connection
      (snd (rx_run sample_ngtcp2 (php_quic_stream_create 0 1)
         [Rx_callbacks [Cb_recv_stream_data 0 1 0 ''abc''], Rx_read 2, Rx_read 0,
          Rx_callbacks [Cb_recv_stream_data 0 1 3 ''d''], Rx_read 8192] [0 \<mapsto> sample_connection]))
      (php_quic_stream_create 0 1) = Some (0, c') \<and>
    fst (rx_run sample_ngtcp2 (php_quic_stream_create 0 1)
         [Rx_callbacks [Cb_recv_stream_data 0 1 0 ''abc''], Rx_read 2, Rx_read 0,
          Rx_callbacks [Cb_recv_stream_data 0 1 3 ''d''], Rx_read 8192] [0 \<mapsto> sample_connection]) @
      rx_bytes c' 1 = ''abcd''"
proof -
  let ?s = "php_quic_stream_create 0 1"
  let ?ops = "[Rx_callbacks [Cb_recv_stream_data 0 1 0 ''abc''], Rx_read 2, Rx_read 0,
    Rx_callbacks [Cb_recv_stream_data 0 1 3 ''d''], Rx_read 8192]"
  have "php_quic_stream_resolve_connection [0 \<mapsto> sample_connection] ?s = Some (0, sample_connection)"
    by (simp add: php_quic_stream_resolve_connection_def php_quic_stream_create_def php_quic_stream_create_object_def)
  moreover have "rx_bytes sample_connection 1 = ''''" "st_stream_id ?s = 1" by code_simp+
  ultimately show ?thesis
    using stream_delivery[of "[0 \<mapsto> sample_connection]" ?s 0 sample_connection sample_ngtcp2 ?ops] by simp
qed

subsection \<open>A sample store\<close>

text \<open>One sample connection with one fresh stream, as object 0.\<close>

definition sample_objects :: "sample_conn objects" where
  "sample_objects = [0 \<mapsto> put_stream_entry sample_connection 0 (php_quic_stream_entry_alloc 0)]"

lemma sample_objects_wf: "objects_wf sample_objects"
  using put_entry_wf[OF sample_connection_wf entry_alloc_wf[of 0], of 0]
  by (simp add: objects_wf_def sample_objects_def php_quic_stream_entry_alloc_def)

lemma sample_objects_resolve:
  "php_quic_stream_resolve_entry sample_objects (php_quic_stream_create 0 0) =
     Some (0, put_stream_entry sample_connection 0 (php_quic_stream_entry_alloc 0), php_quic_stream_entry_alloc 0)"
  by (simp add: sample_objects_def php_quic_stream_resolve_entry_def php_quic_stream_resolve_connection_def
      php_quic_stream_create_def php_quic_stream_create_object_def
      php_quic_connection_get_stream_entry_def put_entry_find)

subsection \<open>Sending\<close>

text \<open>The bytes of a stream the library has not accepted yet.\<close>

definition stream_unsent :: "'c php_quic_connection \<Rightarrow> i64 \<Rightarrow> zstring" where
  "stream_unsent c sid =
     (case zend_hash_find (c_streams c) sid of None \<Rightarrow> '''' | Some entry \<Rightarrow> unsent entry)"

text \<open>What writing does to the rest of the world: nothing.\<close>

definition only_stream :: "nat \<Rightarrow> i64 \<Rightarrow> 'c objects \<Rightarrow> 'c objects \<Rightarrow> bool" where
  "only_stream h sid objs objs' \<longleftrightarrow>
     (\<forall>h'. h' \<noteq> h \<longrightarrow> objs' h' = objs h') \<and>
     (\<forall>c. objs h = Some c \<longrightarrow>
       (\<exists>entry'. objs' h = Some (put_stream_entry c sid entry')))"

lemma unsent_append:
  "entry_wf entry \<Longrightarrow>
    unsent (entry\<lparr>se_tx_buffer := php_quic_buffer_append (se_tx_buffer entry) data (length data), se_writable := w\<rparr>)
      = unsent entry @ data"
  by (simp add: unsent_def buffer.bytes_app entry_wf_def)



text \<open>Reading from a stream that is closed but still has bytes.\<close>

lemma read_closed:
  assumes r: "php_quic_stream_resolve_entry objs stream = Some (h, c, entry)" and len: "0 < sint len"
    and e: "se_closed entry" "\<not> se_readable entry" "se_rx_buffer entry = rx"
  shows "case Stream_read stream len objs of (chunk, objs1) \<Rightarrow>
    chunk = Inr (take (unat len) (buffer_bytes rx)) \<and> Stream_isClosed stream objs1 \<and>
    (Stream_isReadable stream objs1 \<longleftrightarrow> unat len < length (buffer_bytes rx))"
proof (cases "buffer_bytes rx = ''''")
  case True
  then show ?thesis using r len e by (auto simp: Stream_read_def Stream_isClosed_def Stream_isReadable_def)
next
  case False
  obtain ch rest where b: "php_quic_buffer_read rx (unat len) = (ch, rest)" by fastforce
  have *: "ch = take (unat len) (buffer_bytes rx)" "buffer_bytes rest = drop (unat len) (buffer_bytes rx)"
    using buffer.rd_chunk[of rx "unat len"] buffer.rd_rest[of rx "unat len"] b by simp_all
  let ?e = "entry\<lparr>se_rx_buffer := rest, se_readable := (0 < length (buffer_bytes rest))\<rparr>"
  have "Stream_read stream len objs = (Inr ch, objs(h \<mapsto> put_stream_entry c (st_stream_id stream) ?e))"
    using r len e b False by (auto simp: Stream_read_def Let_def)
  moreover have "php_quic_stream_resolve_entry (objs(h \<mapsto> put_stream_entry c (st_stream_id stream) ?e)) stream =
      Some (h, put_stream_entry c (st_stream_id stream) ?e, ?e)"
    using resolve_entry_Some[OF r]
    by (simp add: php_quic_stream_resolve_entry_def php_quic_stream_resolve_connection_def
        php_quic_connection_get_stream_entry_def put_entry_find)
  ultimately show ?thesis using * e by (simp add: Stream_isClosed_def Stream_isReadable_def)
qed

text \<open>
  C31. A successful \<^verbatim>\<open>Stream::reset\<close> abandons the stream for sending: it reports itself closed
  and not writable, a later write throws, the drain does not pick it, and exactly one STREAM_RESET
  event with the application's error code is queued. For reading it only resets the flag: the
  stream reports itself not readable, but the bytes that had arrived are kept, the next
  \<^verbatim>\<open>read\<close> returns them, and if it does not take them all the closed stream reports itself
  readable again.
\<close>

theorem stream_reset_abandons:
  assumes "objects_wf objs" and "php_quic_stream_resolve_entry objs stream = Some (h, c, entry)"
    and "Stream_reset L stream error_code objs = (Inr (), objs')"
  shows "Stream_isClosed stream objs' \<and> \<not> Stream_isWritable stream objs' \<and> \<not> Stream_isReadable stream objs' \<and>
    \<not> is_ok (fst (Stream_write L stream data objs')) \<and>
    tp_entry (fst (php_quic_connection_pick_tx_stream (the (objs' h)))) \<noteq> Some (st_stream_id stream) \<and>
    (\<exists>now. queue_list (c_events (the (objs' h))) = queue_list (c_events c) @
      [\<lparr>ev_type = PHP_QUIC_EVENT_STREAM_RESET, ev_stream_id = st_stream_id stream,
        ev_error_code = error_code, ev_by_peer = False, ev_reason = None, ev_timestamp = now\<rparr>]) \<and>
    (\<forall>len. 0 < sint len \<longrightarrow>
      (case Stream_read stream len objs' of (chunk, objs1) \<Rightarrow>
         chunk = Inr (take (unat len) (buffer_bytes (se_rx_buffer entry))) \<and>
         Stream_isClosed stream objs1 \<and>
         (Stream_isReadable stream objs1 \<longleftrightarrow> unat len < length (buffer_bytes (se_rx_buffer entry)))))"
proof -
  let ?sid = "st_stream_id stream"
  define entry' where "entry' = entry\<lparr>se_reset := True, se_closed := True, se_readable := False,
    se_writable := False, se_fin_pending := False, se_pending_open := False\<rparr>"
  have wf: "conn_wf c" using resolve_entry_wf[OF assms(1,2)] by simp
  obtain c1 where c1: "c1 = c \<or> (\<exists>n1. c1 = c\<lparr>c_conn := Some n1\<rparr>)" and
    objs': "objs' = objs(h \<mapsto> php_quic_connection_push_event (put_stream_entry c1 ?sid entry')
      PHP_QUIC_EVENT_STREAM_RESET ?sid error_code False None)" (is "_ = objs(h \<mapsto> ?c2)")
    using assms(3) by (auto simp: Stream_reset_def assms(2) Let_def entry'_def
        split: option.splits prod.splits if_splits)
  have "conn_wf c1" using c1 wf by auto
  have "objects_wf objs'" using Stream_reset_wf[OF assms(1), of L stream error_code] assms(3) by simp
  then have wf': "conn_wf ?c2" by (rule objects_wf_find[where h = h]) (simp add: objs')
  have r: "php_quic_stream_resolve_entry objs' stream = Some (h, ?c2, entry')"
    using resolve_entry_Some[OF assms(2)]
    by (simp add: objs' php_quic_stream_resolve_entry_def php_quic_stream_resolve_connection_def
        php_quic_connection_get_stream_entry_def put_entry_find)
  have "tp_entry (fst (php_quic_connection_pick_tx_stream ?c2)) \<noteq> Some ?sid"
  proof
    assume p: "tp_entry (fst (php_quic_connection_pick_tx_stream ?c2)) = Some ?sid"
    obtain pick c3 where "php_quic_connection_pick_tx_stream ?c2 = (pick, c3)" by fastforce
    with p pick_tx_stream_Some[OF wf' this] show False
      by (auto simp: put_entry_find entry'_def)
  qed
  moreover have "queue_wf (c_events c1)" "c_events c1 = c_events c"
    using c1 wf by (auto simp: conn_wf_def)
  moreover have "case Stream_read stream len objs' of (chunk, objs1) \<Rightarrow>
         chunk = Inr (take (unat len) (buffer_bytes (se_rx_buffer entry))) \<and>
         Stream_isClosed stream objs1 \<and>
         (Stream_isReadable stream objs1 \<longleftrightarrow> unat len < length (buffer_bytes (se_rx_buffer entry)))"
    if "0 < sint len" for len
    by (rule read_closed[OF r that, of "se_rx_buffer entry"]) (simp_all add: entry'_def)
  ultimately show ?thesis
    using r by (auto simp: Stream_isClosed_def Stream_isWritable_def Stream_isReadable_def
        Stream_write_def entry'_def objs' push_event_list)
qed

theorem stream_reset_abandons_witness:
  "let (r, objs') = Stream_reset sample_ngtcp2 (php_quic_stream_create 0 0) 7 sample_objects
   in r = Inr () \<and> Stream_isClosed (php_quic_stream_create 0 0) objs'"
proof -
  have "fst (Stream_reset sample_ngtcp2 (php_quic_stream_create 0 0) 7 sample_objects) = Inr ()"
    by (simp add: Stream_reset_def sample_objects_resolve Let_def)
  then obtain objs' where o: "Stream_reset sample_ngtcp2 (php_quic_stream_create 0 0) 7 sample_objects = (Inr (), objs')"
    by (metis prod.collapse)
  show ?thesis using stream_reset_abandons[OF sample_objects_wf sample_objects_resolve o] o by simp
qed

end
