(* ===== verification/Quic_Datagram.thy ===== *)
theory Quic_Datagram
  imports Quic_Connection
begin

text \<open>
  \<^verbatim>\<open>src/datagram.c\<close>: the object that carries one UDP payload and its addresses. An
  address is an object of its own that nothing changes after its construction, so it is kept by
  value.
\<close>

record php_quic_datagram =
  dg_payload :: zstring
  dg_peer_address :: address_zval
  dg_local_address :: address_zval
  dg_ecn :: zend_long
  dg_received_at :: zend_long
  dg_has_ecn :: bool
  dg_has_received_at :: bool

definition php_quic_datagram_create_object :: php_quic_datagram where
  "php_quic_datagram_create_object =
     \<lparr>dg_payload = '''', dg_peer_address = Addr_undef, dg_local_address = Addr_undef,
      dg_ecn = 0, dg_received_at = 0, dg_has_ecn = False, dg_has_received_at = False\<rparr>"

text \<open>
  The optional arguments: \<open>None\<close> for one that is absent or \<^verbatim>\<open>null\<close>; the parameter
  parser then leaves the variable at its initial 0.
\<close>

definition Datagram_construct ::
  "php_quic_datagram \<Rightarrow> zstring \<Rightarrow> php_quic_address \<Rightarrow> php_quic_address option \<Rightarrow>
   zend_long option \<Rightarrow> zend_long option \<Rightarrow> php_quic_datagram" where
  "Datagram_construct datagram payload peer_address local_address ecn received_at =
     datagram\<lparr>dg_payload := payload, dg_peer_address := Addr peer_address,
       dg_local_address := (case local_address of Some a \<Rightarrow> Addr a | None \<Rightarrow> Addr_null),
       dg_has_ecn := (ecn \<noteq> None),
       dg_ecn := (case ecn of Some v \<Rightarrow> v | None \<Rightarrow> 0),
       dg_has_received_at := (received_at \<noteq> None),
       dg_received_at := (case received_at of Some v \<Rightarrow> v | None \<Rightarrow> 0)\<rparr>"

definition Datagram_getPayload :: "php_quic_datagram \<Rightarrow> zstring" where
  "Datagram_getPayload datagram = dg_payload datagram"

definition Datagram_getPeerAddress :: "php_quic_datagram \<Rightarrow> address_zval" where
  "Datagram_getPeerAddress datagram = dg_peer_address datagram"

definition Datagram_getLocalAddress :: "php_quic_datagram \<Rightarrow> address_zval" where
  "Datagram_getLocalAddress datagram = dg_local_address datagram"

definition Datagram_getEcn :: "php_quic_datagram \<Rightarrow> zend_long option" where
  "Datagram_getEcn datagram = (if \<not> dg_has_ecn datagram then None else Some (dg_ecn datagram))"

definition Datagram_getReceivedAt :: "php_quic_datagram \<Rightarrow> zend_long option" where
  "Datagram_getReceivedAt datagram =
     (if \<not> dg_has_received_at datagram then None else Some (dg_received_at datagram))"

text \<open>
  The getters report what the last run of the constructor was given. Before the first one the
  addresses are unset values, which neither declared return type allows.
\<close>

lemma datagram_reports:
  "case foldl (\<lambda>d (payload, peer, local, ecn, at). Datagram_construct d payload peer local ecn at)
      php_quic_datagram_create_object calls of d \<Rightarrow>
     Datagram_getPayload d = last ('''' # map (\<lambda>(payload, peer, local, ecn, at). payload) calls) \<and>
     Datagram_getPeerAddress d = last (Addr_undef # map (\<lambda>(payload, peer, local, ecn, at). Addr peer) calls) \<and>
     Datagram_getLocalAddress d = last (Addr_undef # map (\<lambda>(payload, peer, local, ecn, at).
       case local of None \<Rightarrow> Addr_null | Some a \<Rightarrow> Addr a) calls) \<and>
     Datagram_getEcn d = last (None # map (\<lambda>(payload, peer, local, ecn, at). ecn) calls) \<and>
     Datagram_getReceivedAt d = last (None # map (\<lambda>(payload, peer, local, ecn, at). at) calls)"
  by (induction calls rule: rev_induct)
     (auto simp: Datagram_construct_def php_quic_datagram_create_object_def Datagram_getPayload_def
       Datagram_getPeerAddress_def Datagram_getLocalAddress_def Datagram_getEcn_def Datagram_getReceivedAt_def
       split: option.splits)

text \<open>An address argument as \<^verbatim>\<open>php_quic_address_to_sockaddr\<close> sees it.\<close>

fun address_of_zval :: "address_zval \<Rightarrow> php_quic_address option" where
  "address_of_zval (Addr a) = Some a"
| "address_of_zval Addr_null = None"
| "address_of_zval Addr_undef = None"

text \<open>
  What \<^verbatim>\<open>drainOutgoingDatagrams\<close> does with a packet: a fresh datagram object that gets
  the bytes of the packet buffer and the addresses of the connection.
\<close>

definition outgoing_datagram :: "'c php_quic_connection \<Rightarrow> zstring \<Rightarrow> php_quic_datagram" where
  "outgoing_datagram c buf =
     php_quic_datagram_create_object
       \<lparr>dg_payload := buf, dg_peer_address := c_remote_address_zv c,
        dg_local_address := c_local_address_zv c\<rparr>"

lemma outgoing_datagram_simps [simp]:
  "dg_payload (outgoing_datagram c buf) = buf"
  "dg_peer_address (outgoing_datagram c buf) = c_remote_address_zv c"
  "dg_local_address (outgoing_datagram c buf) = c_local_address_zv c"
  by (simp_all add: outgoing_datagram_def)

end
