(* ===== verification/Quic_Methods.thy ===== *)
theory Quic_Methods
  imports Quic_Stream_Props Quic_Datagram
begin

text \<open>
  The PHP methods of \<^verbatim>\<open>Varion\Ngtcp2\Connection\<close> (\<^verbatim>\<open>src/connection.c\<close>) other
  than the constructor and \<^verbatim>\<open>drainOutgoingDatagrams\<close>. Each is a function to its outcome
  and the new connection; \<open>methods_wf\<close> collects that every one keeps the invariant and never
  goes back.
\<close>

definition php_quic_connection_handle_timers ::
  "'c ngtcp2 \<Rightarrow> 'c php_quic_connection \<Rightarrow> unit outcome \<times> 'c php_quic_connection" where
  "php_quic_connection_handle_timers L c =
     (case c_conn c of
        None \<Rightarrow> (Inr (), c)
      | Some n \<Rightarrow>
          if c_closed c then (Inr (), c)
          else
            let (now, c1) = php_quic_timestamp c;
                (rv, cbs, n1) = ngtcp2_conn_handle_expiry L n now;
                c2 = run_callbacks L cbs (c1\<lparr>c_conn := Some n1\<rparr>)
            in case rv of
                 Some e \<Rightarrow>
                   if php_quic_connection_is_nonfatal_closing_error e
                   then (Inr (), php_quic_connection_sync_state L c2)
                   else (Inl (Call_failed ''ngtcp2_conn_handle_expiry'' e),
                         c2\<lparr>c_last_error := ngtcp2_ccerr_set_liberr L e\<rparr>)
               | None \<Rightarrow> (Inr (), php_quic_connection_sync_state L c2))"

text \<open>\<open>gai\<close> is \<^verbatim>\<open>getaddrinfo\<close>, used to turn an address object into a socket address.\<close>

definition Connection_recv ::
  "'c ngtcp2 \<Rightarrow> getaddrinfo \<Rightarrow> php_quic_datagram \<Rightarrow> 'c php_quic_connection \<Rightarrow>
   unit outcome \<times> 'c php_quic_connection" where
  "Connection_recv L gai datagram c =
     (case c_conn c of
        None \<Rightarrow> (Inl (Exception ''Connection is not initialized''), c)
      | Some n \<Rightarrow>
          (case php_quic_address_to_sockaddr gai (address_of_zval (dg_peer_address datagram)) of
             None \<Rightarrow> (Inl (Exception ''Datagram.peerAddress is invalid''), c)
           | Some remote_addr \<Rightarrow>
               (case (case dg_local_address datagram of
                        Addr a \<Rightarrow> (case php_quic_address_to_sockaddr gai (Some a) of
                                     None \<Rightarrow> None | Some sa \<Rightarrow> Some (Some sa))
                      | _ \<Rightarrow> Some (c_local_addr c)) of
                  None \<Rightarrow> (Inl (Exception ''Datagram.localAddress is invalid''), c)
                | Some local_addr \<Rightarrow>
                    let path = \<lparr>path_local = local_addr, path_remote = Some remote_addr\<rparr>;
                        (now, c1) = php_quic_timestamp c;
                        (rv, cbs, n1) = ngtcp2_conn_read_pkt L n path (dg_payload datagram) now;
                        c2 = run_callbacks L cbs (c1\<lparr>c_conn := Some n1\<rparr>)
                    in case rv of
                         Some e \<Rightarrow>
                           if php_quic_connection_is_nonfatal_closing_error e
                           then (Inr (), php_quic_connection_sync_state L c2)
                           else
                             let c3 = (if ce_error_code (c_last_error c2) = 0 then
                                         c2\<lparr>c_last_error :=
                                           (if e = NGTCP2_ERR_CRYPTO
                                            then ngtcp2_ccerr_set_tls_alert L (ngtcp2_conn_get_tls_alert L n1)
                                            else ngtcp2_ccerr_set_liberr L e)\<rparr>
                                       else c2)
                             in (Inl (Call_failed ''ngtcp2_conn_read_pkt'' e), c3)
                       | None \<Rightarrow> (Inr (), php_quic_connection_sync_state L c2))))"

definition Connection_onTimeout ::
  "'c ngtcp2 \<Rightarrow> 'c php_quic_connection \<Rightarrow> unit outcome \<times> 'c php_quic_connection" where
  "Connection_onTimeout L c = php_quic_connection_handle_timers L c"

definition Connection_handleTimers ::
  "'c ngtcp2 \<Rightarrow> 'c php_quic_connection \<Rightarrow> unit outcome \<times> 'c php_quic_connection" where
  "Connection_handleTimers L c = Connection_onTimeout L c"

definition Connection_tick ::
  "'c ngtcp2 \<Rightarrow> 'c php_quic_connection \<Rightarrow> unit outcome \<times> 'c php_quic_connection" where
  "Connection_tick L c = Connection_onTimeout L c"

definition Connection_getNextTimeout ::
  "'c ngtcp2 \<Rightarrow> 'c php_quic_connection \<Rightarrow> zend_long option \<times> 'c php_quic_connection" where
  "Connection_getNextTimeout L c = php_quic_connection_get_next_timeout_ms L c"

definition Connection_getNextExpiry ::
  "'c ngtcp2 \<Rightarrow> (zend_long \<times> zend_long) option \<Rightarrow> 'c php_quic_connection \<Rightarrow>
   zend_long option \<times> 'c php_quic_connection" where
  "Connection_getNextExpiry L tv c =
     (case php_quic_connection_get_next_timeout_ms L c of
        (None, c1) \<Rightarrow> (None, c1)
      | (Some timeout_ms, c1) \<Rightarrow>
          let now_ms = php_quic_epoch_milliseconds tv in (Some (now_ms + timeout_ms), c1))"

definition Connection_getTimeoutAt ::
  "'c ngtcp2 \<Rightarrow> (zend_long \<times> zend_long) option \<Rightarrow> 'c php_quic_connection \<Rightarrow>
   zend_long option \<times> 'c php_quic_connection" where
  "Connection_getTimeoutAt L tv c = Connection_getNextExpiry L tv c"

text \<open>\<^verbatim>\<open>drainEvents\<close>: pop until the queue is empty; every pop frees a node.\<close>

function drain_event_queue ::
  "php_quic_event_queue \<Rightarrow> php_quic_event_object list \<times> php_quic_event_queue" where
  "drain_event_queue queue =
     (case php_quic_event_queue_pop queue of
        None \<Rightarrow> ([], queue)
      | Some (event, queue1) \<Rightarrow>
          let (rest, queue2) = drain_event_queue queue1
          in (php_quic_event_create_from_native event # rest, queue2))"
  by pat_completeness auto
termination
  by (relation "measure (\<lambda>queue. length (q_nodes queue))") (auto dest: queue_pop_shrinks)

declare drain_event_queue.simps [simp del]

definition Connection_drainEvents ::
  "'c php_quic_connection \<Rightarrow> php_quic_event_object list \<times> 'c php_quic_connection" where
  "Connection_drainEvents c =
     (let (events, queue) = drain_event_queue (c_events c) in (events, c\<lparr>c_events := queue\<rparr>))"

text \<open>
  \<^verbatim>\<open>openStream\<close> and \<^verbatim>\<open>openUniStream\<close> are the same code over the two kinds of
  streams; \<open>open_fn\<close> is the library call and \<open>this\<close> the handle of the connection object.
\<close>

definition open_local_stream ::
  "'c ngtcp2 \<Rightarrow> bool \<Rightarrow> string \<Rightarrow> ('c \<Rightarrow> ngtcp2_err option \<times> i64 \<times> 'c) \<Rightarrow> nat \<Rightarrow>
   'c php_quic_connection \<Rightarrow> php_quic_stream outcome \<times> 'c php_quic_connection" where
  "open_local_stream L bidi context open_fn this c =
     (case (if c_closed c then None else c_conn c) of
        None \<Rightarrow> (Inl (Exception ''Connection is closed''), c)
      | Some n \<Rightarrow>
          let (rv, opened_id, n1) = open_fn n;
              c1 = c\<lparr>c_conn := Some n1\<rparr>
          in if rv \<noteq> None \<and> rv \<noteq> Some NGTCP2_ERR_STREAM_ID_BLOCKED
             then (Inl (Call_failed context (the rv)), c1)
             else
               let c2 = php_quic_connection_ensure_next_stream_id L c1 bidi;
                   next = (if bidi then c_next_bidi_stream_id c2 else c_next_uni_stream_id c2);
                   blocked = (rv = Some NGTCP2_ERR_STREAM_ID_BLOCKED);
                   stream_id = (if blocked then next else opened_id);
                   next' = (if blocked then next + 4
                            else if sint opened_id \<ge> sint next then opened_id + 4 else next);
                   c3 = (if bidi then c2\<lparr>c_next_bidi_stream_id := next'\<rparr>
                         else c2\<lparr>c_next_uni_stream_id := next'\<rparr>);
                   (entry, c4) = php_quic_connection_open_stream_entry c3 stream_id;
                   c5 = put_stream_entry c4 stream_id
                          (entry\<lparr>se_pending_open := blocked, se_writable := True\<rparr>);
                   c6 = php_quic_connection_push_event c5 PHP_QUIC_EVENT_STREAM_OPENED stream_id 0 False None;
                   c7 = php_quic_connection_push_event c6 PHP_QUIC_EVENT_STREAM_WRITABLE stream_id 0 False None
               in (Inr (php_quic_stream_create this stream_id), c7))"

definition Connection_openStream ::
  "'c ngtcp2 \<Rightarrow> nat \<Rightarrow> 'c php_quic_connection \<Rightarrow> php_quic_stream outcome \<times> 'c php_quic_connection" where
  "Connection_openStream L this c =
     open_local_stream L True ''ngtcp2_conn_open_bidi_stream'' (ngtcp2_conn_open_bidi_stream L) this c"

definition Connection_openUniStream ::
  "'c ngtcp2 \<Rightarrow> nat \<Rightarrow> 'c php_quic_connection \<Rightarrow> php_quic_stream outcome \<times> 'c php_quic_connection" where
  "Connection_openUniStream L this c =
     open_local_stream L False ''ngtcp2_conn_open_uni_stream'' (ngtcp2_conn_open_uni_stream L) this c"

definition Connection_getStream ::
  "nat \<Rightarrow> zend_long \<Rightarrow> 'c php_quic_connection \<Rightarrow> php_quic_stream option" where
  "Connection_getStream this stream_id c =
     (case php_quic_connection_get_stream_entry c stream_id of
        None \<Rightarrow> None
      | Some entry \<Rightarrow> Some (php_quic_stream_create this stream_id))"

definition Connection_close ::
  "'c ngtcp2 \<Rightarrow> zend_long \<Rightarrow> zstring option \<Rightarrow> 'c php_quic_connection \<Rightarrow> 'c php_quic_connection" where
  "Connection_close L error_code reason c =
     (if c_close_requested c then c
      else
        let c1 = c\<lparr>c_close_reason := None\<rparr>;
            (reason_data, c2) =
              (case reason of
                 Some r \<Rightarrow> if length r > 0 then (r, c1\<lparr>c_close_reason := Some r\<rparr>) else ('''', c1)
               | None \<Rightarrow> ('''', c1));
            c3 = c2\<lparr>c_last_error := ngtcp2_ccerr_set_application_error L error_code reason_data,
                    c_close_requested := True, c_closed := True\<rparr>
        in if \<not> c_close_event_emitted c3 then
             (php_quic_connection_push_event c3 PHP_QUIC_EVENT_CONNECTION_CLOSED (-1) error_code False reason)
               \<lparr>c_close_event_emitted := True\<rparr>
           else c3)"

definition Connection_isEstablished :: "'c php_quic_connection \<Rightarrow> bool" where
  "Connection_isEstablished c = c_established c"

definition Connection_isClosed :: "'c php_quic_connection \<Rightarrow> bool" where
  "Connection_isClosed c \<longleftrightarrow> c_closed c \<or> c_close_requested c"

definition Connection_isDraining :: "'c php_quic_connection \<Rightarrow> bool" where
  "Connection_isDraining c = c_draining c"

subsection \<open>The invariant and progress\<close>

lemma run_callbacks_wf_progress:
  "conn_wf c \<Longrightarrow> conn_wf (run_callbacks L cbs c) \<and> conn_progress c (run_callbacks L cbs c)"
  by (simp add: run_callbacks_wf run_callbacks_progress)

lemma library_call_op:
  assumes "conn_wf c"
  shows "conn_wf (run_callbacks L cbs (c\<lparr>c_reads := Suc (c_reads c), c_conn := n\<rparr>)) \<and>
    conn_progress c (run_callbacks L cbs (c\<lparr>c_reads := Suc (c_reads c), c_conn := n\<rparr>))"
proof -
  let ?c1 = "c\<lparr>c_reads := Suc (c_reads c), c_conn := n\<rparr>"
  have "conn_wf ?c1" "conn_progress c ?c1" using assms by (simp_all add: conn_progress_def)
  with run_callbacks_wf_progress[of ?c1 L cbs] show ?thesis by (meson conn_progress_trans)
qed

lemma sync_after:
  "conn_wf d \<and> conn_progress c d \<Longrightarrow>
    conn_wf (php_quic_connection_sync_state L d) \<and> conn_progress c (php_quic_connection_sync_state L d)"
  using sync_state_wf sync_state_progress conn_progress_trans by blast

lemma conn_progress_last_error [wf_simps, simp]:
  "conn_progress c (d\<lparr>c_last_error := e\<rparr>) = conn_progress c d"
  by (simp add: conn_progress_def)

lemma handle_timers_op:
  assumes "conn_wf c"
  shows "conn_wf (snd (php_quic_connection_handle_timers L c)) \<and>
    conn_progress c (snd (php_quic_connection_handle_timers L c))"
  using assms library_call_op[OF assms] sync_after[OF library_call_op[OF assms]]
  by (auto simp: php_quic_connection_handle_timers_def Let_def split: option.split prod.split)

lemma recv_op:
  assumes "conn_wf c"
  shows "conn_wf (snd (Connection_recv L gai datagram c)) \<and> conn_progress c (snd (Connection_recv L gai datagram c))"
  using assms library_call_op[OF assms] sync_after[OF library_call_op[OF assms]]
  by (auto simp: Connection_recv_def Let_def split: option.split prod.split)

lemma get_next_timeout_op:
  assumes "conn_wf c"
  shows "conn_wf (snd (php_quic_connection_get_next_timeout_ms L c)) \<and>
    conn_progress c (snd (php_quic_connection_get_next_timeout_ms L c))"
  using assms by (auto simp: php_quic_connection_get_next_timeout_ms_def
      php_quic_connection_get_next_expiry_def Let_def split: option.split)

lemma getNextExpiry_op:
  assumes "conn_wf c"
  shows "conn_wf (snd (Connection_getNextExpiry L tv c)) \<and>
    conn_progress c (snd (Connection_getNextExpiry L tv c))"
  using get_next_timeout_op[OF assms, of L]
  by (auto simp: Connection_getNextExpiry_def Let_def split: option.split prod.split)

lemma drain_event_queue_list:
  "queue_wf queue \<Longrightarrow>
    fst (drain_event_queue queue) = map php_quic_event_create_from_native (queue_list queue) \<and>
    queue_wf (snd (drain_event_queue queue)) \<and> queue_list (snd (drain_event_queue queue)) = []"
proof (induction queue rule: drain_event_queue.induct)
  case (1 queue)
  show ?case
  proof (cases "php_quic_event_queue_pop queue")
    case None
    with 1 show ?thesis
      by (simp add: drain_event_queue.simps[of queue] event_queue.pop_None)
  next
    case (Some r)
    then obtain e queue' where p: "php_quic_event_queue_pop queue = Some (e, queue')"
      by (cases r) auto
    with 1 event_queue.pop_Some[OF _ p] show ?thesis
      by (auto simp: drain_event_queue.simps[of queue] split: prod.splits)
  qed
qed

lemma drainEvents_op:
  assumes "conn_wf c"
  shows "conn_wf (snd (Connection_drainEvents c)) \<and> conn_progress c (snd (Connection_drainEvents c))"
  using assms drain_event_queue_list[of "c_events c"]
  by (auto simp: Connection_drainEvents_def conn_wf_def flags_wf_def conn_progress_def split: prod.split)

lemma ensure_next_frame [frame, simp]:
  "c_conn (php_quic_connection_ensure_next_stream_id L c bidi) = c_conn c"
  "c_streams (php_quic_connection_ensure_next_stream_id L c bidi) = c_streams c"
  "c_events (php_quic_connection_ensure_next_stream_id L c bidi) = c_events c"
  "c_reads (php_quic_connection_ensure_next_stream_id L c bidi) = c_reads c"
  by (simp_all add: php_quic_connection_ensure_next_stream_id_def Let_def)

lemma ensure_next_op:
  "conn_wf c \<Longrightarrow> conn_wf (php_quic_connection_ensure_next_stream_id L c bidi) \<and>
    conn_progress c (php_quic_connection_ensure_next_stream_id L c bidi)"
  by (auto simp: php_quic_connection_ensure_next_stream_id_def Let_def)

lemma entry_progress_opened [wf_simps, simp]:
  "entry_progress old (entry\<lparr>se_pending_open := b, se_writable := w\<rparr>) = entry_progress old entry"
  "entry_progress old (entry\<lparr>se_pending_open := b\<rparr>) = entry_progress old entry"
  by (simp_all add: entry_progress_def tx_ended_def)

lemma conn_progress_next [wf_simps, simp]:
  "conn_progress c (d\<lparr>c_next_bidi_stream_id := i\<rparr>) = conn_progress c d"
  "conn_progress c (d\<lparr>c_next_uni_stream_id := i\<rparr>) = conn_progress c d"
  by (simp_all add: conn_progress_def)

text \<open>Announcing an opened stream.\<close>

lemma open_announce_op:
  assumes "conn_wf d \<and> conn_progress c d" and "php_quic_connection_open_stream_entry d sid = (entry, d1)"
  shows "let d2 = put_stream_entry d1 sid (entry\<lparr>se_pending_open := b, se_writable := True\<rparr>);
             d3 = php_quic_connection_push_event d2 t1 s1 e1 b1 r1;
             d4 = php_quic_connection_push_event d3 t2 s2 e2 b2 r2
         in conn_wf d4 \<and> conn_progress c d4"
proof -
  have d: "conn_wf d" "conn_progress c d" using assms(1) by simp_all
  have "conn_wf (put_stream_entry d1 sid (entry\<lparr>se_pending_open := b, se_writable := True\<rparr>)) \<and>
    conn_progress d (put_stream_entry d1 sid (entry\<lparr>se_pending_open := b, se_writable := True\<rparr>))"
    by (rule put_opened_wf[OF d(1) assms(2)]) (use opened_entry_wf[OF d(1) assms(2)] in simp_all)
  with d show ?thesis
    unfolding Let_def by (meson conn_progress_trans push_event_progress push_event_wf)
qed

lemma open_local_stream_op:
  assumes "conn_wf c"
  shows "conn_wf (snd (open_local_stream L bidi context open_fn this c)) \<and>
    conn_progress c (snd (open_local_stream L bidi context open_fn this c))"
proof (cases "c_closed c \<or> c_conn c = None")
  case False
  then obtain n where n: "\<not> c_closed c" "c_conn c = Some n" by auto
  obtain rv oid n1 where o: "open_fn n = (rv, oid, n1)" by (metis prod_cases3)
  let ?c1 = "c\<lparr>c_conn := Some n1\<rparr>"
  have c1: "conn_wf ?c1" "conn_progress c ?c1" using assms by simp_all
  define c2 where "c2 = php_quic_connection_ensure_next_stream_id L ?c1 bidi"
  have c2: "conn_wf c2 \<and> conn_progress c c2"
    using ensure_next_op[OF c1(1), of L bidi] c1(2) conn_progress_trans unfolding c2_def by blast
  show ?thesis
  proof (cases "rv \<noteq> None \<and> rv \<noteq> Some NGTCP2_ERR_STREAM_ID_BLOCKED")
    case True
    with n o c1 show ?thesis by (simp add: open_local_stream_def)
  next
    case False
    define nxt where "nxt = (if bidi then c_next_bidi_stream_id c2 else c_next_uni_stream_id c2)"
    define blocked where "blocked \<longleftrightarrow> rv = Some NGTCP2_ERR_STREAM_ID_BLOCKED"
    define sid where "sid = (if blocked then nxt else oid)"
    define nxt' where "nxt' = (if blocked then nxt + 4 else if sint oid \<ge> sint nxt then oid + 4 else nxt)"
    define c3 where "c3 = (if bidi then c2\<lparr>c_next_bidi_stream_id := nxt'\<rparr> else c2\<lparr>c_next_uni_stream_id := nxt'\<rparr>)"
    have c3: "conn_wf c3 \<and> conn_progress c c3" using c2 by (simp add: c3_def)
    obtain entry c4 where e: "php_quic_connection_open_stream_entry c3 sid = (entry, c4)" by fastforce
    from n o False e open_announce_op[OF c3 e, unfolded Let_def] show ?thesis
      unfolding open_local_stream_def Let_def
      by (simp only: n o option.case if_False prod.case c2_def[symmetric] nxt_def[symmetric]
          blocked_def[symmetric] sid_def[symmetric] nxt'_def[symmetric] c3_def[symmetric] e snd_conv)
  qed
qed (auto simp: open_local_stream_def assms)

lemma close_op:
  assumes "conn_wf c"
  shows "conn_wf (Connection_close L e reason c) \<and> conn_progress c (Connection_close L e reason c)"
proof (cases "c_close_requested c")
  case False
  with assms show ?thesis
    by (auto simp: Connection_close_def Let_def conn_wf_def flags_wf_def conn_progress_def
        push_event_queue_wf split: option.split)
qed (simp add: Connection_close_def assms)

end
