(* ===== verification/Quic_Drain.thy ===== *)
theory Quic_Drain
  imports Quic_Methods
begin

text \<open>
  \<^verbatim>\<open>Connection::drainOutgoingDatagrams\<close> (\<^verbatim>\<open>src/connection.c\<close>): the loop that
  offers stream data to the library and turns the packets it writes into datagrams.

  \<open>drain_step\<close> is one iteration: \<open>Inl\<close> of the state is \<^verbatim>\<open>continue\<close>, \<open>Inr\<close> leaves
  the loop, with \<open>Inr ()\<close> for \<^verbatim>\<open>break\<close> and \<open>Inl\<close> of the exception for a throw (which
  drops the datagrams collected so far). \<open>drain_loop\<close> iterates it as a partial function, so
  that the value \<open>None\<close> means the loop never ends.
\<close>

record 'c drain_state =
  ds_c :: "'c php_quic_connection"
  ds_out :: "php_quic_datagram list"
  ds_emitted :: nat
  ds_force :: bool

definition php_quic_connection_open_context_for_stream_id :: "'c ngtcp2 \<Rightarrow> i64 \<Rightarrow> string" where
  "php_quic_connection_open_context_for_stream_id L stream_id =
     (if ngtcp2_is_bidi_stream L stream_id then ''ngtcp2_conn_open_bidi_stream''
      else ''ngtcp2_conn_open_uni_stream'')"

definition php_quic_connection_open_pending_stream ::
  "'c ngtcp2 \<Rightarrow> 'c \<Rightarrow> i64 \<Rightarrow> ngtcp2_err option \<times> i64 \<times> 'c" where
  "php_quic_connection_open_pending_stream L n stream_id =
     (if ngtcp2_is_bidi_stream L stream_id then ngtcp2_conn_open_bidi_stream L n
      else ngtcp2_conn_open_uni_stream L n)"

text \<open>
  The block under \<^verbatim>\<open>entry != NULL && entry->pending_open\<close>: \<open>Inl\<close> is a throw; else
  what is offered to the library afterwards (nothing, when the stream is still blocked).
\<close>

definition drain_open_pending ::
  "'c ngtcp2 \<Rightarrow> tx_pick \<Rightarrow> 'c php_quic_connection \<Rightarrow> tx_pick outcome \<times> 'c php_quic_connection" where
  "drain_open_pending L pick c =
     (case (tp_entry pick, c_conn c) of
        (Some k, Some n) \<Rightarrow>
          (case zend_hash_find (c_streams c) k of
             None \<Rightarrow> (Inr pick, c)
           | Some entry \<Rightarrow>
               if \<not> se_pending_open entry then (Inr pick, c)
               else
                 let (open_rv, opened_stream_id, n1) =
                       php_quic_connection_open_pending_stream L n (se_stream_id entry);
                     c1 = c\<lparr>c_conn := Some n1\<rparr>
                 in case open_rv of
                      None \<Rightarrow>
                        if opened_stream_id \<noteq> se_stream_id entry
                        then (Inl (Stream_id_mismatch (se_stream_id entry) opened_stream_id), c1)
                        else (Inr pick, put_stream_entry c1 k (entry\<lparr>se_pending_open := False\<rparr>))
                    | Some e \<Rightarrow>
                        if e = NGTCP2_ERR_STREAM_ID_BLOCKED then (Inr no_tx_pick, c1)
                        else (Inl (Call_failed
                               (php_quic_connection_open_context_for_stream_id L (se_stream_id entry)) e), c1))
      | _ \<Rightarrow> (Inr pick, c))"

definition tx_flags :: "'c ngtcp2 \<Rightarrow> bool \<Rightarrow> u32" where
  "tx_flags L fin =
     (if fin then NGTCP2_WRITE_STREAM_FLAG_MORE L OR NGTCP2_WRITE_STREAM_FLAG_FIN L
      else NGTCP2_WRITE_STREAM_FLAG_MORE L)"

text \<open>The call of \<^verbatim>\<open>ngtcp2_conn_writev_stream\<close> and what follows it.\<close>

definition drain_write ::
  "'c ngtcp2 \<Rightarrow> 'c \<Rightarrow> tx_pick \<Rightarrow> 'c drain_state \<Rightarrow> 'c drain_state + (unit outcome \<times> 'c drain_state)" where
  "drain_write L n pick s =
     (let fin = tp_fin pick;
          (now, c1) = php_quic_timestamp (ds_c s);
          (nwrite, wdatalen, cbs, n1) =
             ngtcp2_conn_writev_stream L n 1452 (tx_flags L fin) (tp_stream_id pick) (tp_datav pick) now;
          c2 = run_callbacks L cbs (c1\<lparr>c_conn := Some n1\<rparr>)
      in case nwrite of
           Inl e \<Rightarrow>
             if e = NGTCP2_ERR_WRITE_MORE then
               Inl (s\<lparr>ds_c := php_quic_connection_update_tx_entry c2 (tp_entry pick) wdatalen fin False\<rparr>)
             else if e = NGTCP2_ERR_STREAM_DATA_BLOCKED then
               let s1 = s\<lparr>ds_c := php_quic_connection_update_tx_entry c2 (tp_entry pick) wdatalen fin False\<rparr>
               in if tp_entry pick \<noteq> None then Inl (s1\<lparr>ds_force := True\<rparr>) else Inr (Inr (), s1)
             else if e = NGTCP2_ERR_STREAM_SHUT_WR then
               Inl (s\<lparr>ds_c := php_quic_connection_discard_tx_entry c2 (tp_entry pick)\<rparr>)
             else if php_quic_connection_is_nonfatal_closing_error e then
               Inr (Inr (), s\<lparr>ds_c := php_quic_connection_sync_state L c2\<rparr>)
             else
               Inr (Inl (Call_failed ''ngtcp2_conn_writev_stream'' e),
                    s\<lparr>ds_c := c2\<lparr>c_last_error := ngtcp2_ccerr_set_liberr L e\<rparr>\<rparr>)
         | Inr buf \<Rightarrow>
             let c3 = php_quic_connection_update_tx_entry c2 (tp_entry pick) wdatalen fin (buf \<noteq> '''')
             in if buf = '''' then Inr (Inr (), s\<lparr>ds_c := c3\<rparr>)
                else
                  let s1 = s\<lparr>ds_c := c3, ds_out := ds_out s @ [outgoing_datagram c3 buf],
                             ds_emitted := Suc (ds_emitted s)\<rparr>
                  in if ds_emitted s1 \<ge> 256 then Inr (Inr (), s1) else Inl s1)"

definition drain_step ::
  "'c ngtcp2 \<Rightarrow> 'c drain_state \<Rightarrow> 'c drain_state + (unit outcome \<times> 'c drain_state)" where
  "drain_step L s =
     (let (pick, c1) = (if ds_force s then (no_tx_pick, ds_c s)
                        else php_quic_connection_pick_tx_stream (ds_c s));
          s1 = s\<lparr>ds_c := c1, ds_force := False\<rparr>
      in case drain_open_pending L pick c1 of
           (Inl e, c2) \<Rightarrow> Inr (Inl e, s1\<lparr>ds_c := c2\<rparr>)
         | (Inr pick2, c2) \<Rightarrow>
             (case c_conn c2 of
                None \<Rightarrow> Inr (Inr (), s1\<lparr>ds_c := c2\<rparr>)
              | Some n \<Rightarrow> drain_write L n pick2 (s1\<lparr>ds_c := c2\<rparr>)))"

partial_function (option) drain_loop ::
  "'c ngtcp2 \<Rightarrow> 'c drain_state \<Rightarrow> (unit outcome \<times> 'c drain_state) option" where
  "drain_loop L s =
     (case drain_step L s of
        Inl s1 \<Rightarrow> drain_loop L s1
      | Inr r \<Rightarrow> Some r)"

declare drain_loop.simps [code]

text \<open>The branch that sends the connection close packet.\<close>

definition drain_close_packet ::
  "'c ngtcp2 \<Rightarrow> 'c \<Rightarrow> 'c php_quic_connection \<Rightarrow> php_quic_datagram list outcome \<times> 'c php_quic_connection" where
  "drain_close_packet L n c =
     (let (now, c1) = php_quic_timestamp c;
          (nwrite, cbs, n1) = ngtcp2_conn_write_connection_close L n 1452 (c_last_error c) now;
          c2 = run_callbacks L cbs (c1\<lparr>c_conn := Some n1\<rparr>)
      in case nwrite of
           Inl e \<Rightarrow>
             if php_quic_connection_is_nonfatal_closing_error e then
               (Inr [], php_quic_connection_sync_state L (c2\<lparr>c_close_packet_sent := True\<rparr>))
             else (Inl (Call_failed ''ngtcp2_conn_write_connection_close'' e), c2)
         | Inr buf \<Rightarrow>
             (Inr (if buf \<noteq> '''' then [outgoing_datagram c2 buf] else []),
              c2\<lparr>c_close_packet_sent := True\<rparr>))"

definition Connection_drainOutgoingDatagrams ::
  "'c ngtcp2 \<Rightarrow> 'c php_quic_connection \<Rightarrow>
   (php_quic_datagram list outcome \<times> 'c php_quic_connection) option" where
  "Connection_drainOutgoingDatagrams L c =
     (case c_conn c of
        None \<Rightarrow> Some (Inr [], c)
      | Some n \<Rightarrow>
          if c_close_requested c \<and> \<not> c_close_packet_sent c then Some (drain_close_packet L n c)
          else
            (case drain_loop L \<lparr>ds_c = c, ds_out = [], ds_emitted = 0, ds_force = False\<rparr> of
               None \<Rightarrow> None
             | Some (Inl e, s) \<Rightarrow> Some (Inl e, ds_c s)
             | Some (Inr _, s) \<Rightarrow> Some (Inr (ds_out s), php_quic_connection_sync_state L (ds_c s))))"

subsection \<open>The invariant and progress\<close>

lemma close_packet_sent_op:
  "conn_wf d \<and> conn_progress c d \<Longrightarrow> c_close_requested d \<Longrightarrow>
    conn_wf (d\<lparr>c_close_packet_sent := True\<rparr>) \<and> conn_progress c (d\<lparr>c_close_packet_sent := True\<rparr>)"
  by (auto simp: conn_wf_def flags_wf_def conn_progress_def)

lemma drain_close_packet_op:
  assumes c: "conn_wf c" and req: "c_close_requested c"
  shows "conn_wf (snd (drain_close_packet L n c)) \<and> conn_progress c (snd (drain_close_packet L n c))"
proof -
  obtain nwrite cbs n1 where w: "ngtcp2_conn_write_connection_close L n 1452 (c_last_error c)
      (c_hrtime c (c_reads c)) = (nwrite, cbs, n1)" by (metis prod_cases3)
  define c2 where "c2 = run_callbacks L cbs (c\<lparr>c_reads := Suc (c_reads c), c_conn := Some n1\<rparr>)"
  have c2: "conn_wf c2 \<and> conn_progress c c2" using library_call_op[OF c] by (simp add: c2_def)
  with req have "c_close_requested c2" by (auto simp: conn_progress_def)
  from close_packet_sent_op[OF c2 this] sync_after[OF close_packet_sent_op[OF c2 this]] c2 w show ?thesis
    by (auto simp: drain_close_packet_def Let_def c2_def split: sum.split)
qed

lemma conn_progress_conn [wf_simps, simp]:
  "conn_progress c (d\<lparr>c_conn := h\<rparr>) = conn_progress c d"
  by (simp add: conn_progress_def)

lemma drain_open_pending_op:
  assumes c: "conn_wf c"
  shows "conn_wf (snd (drain_open_pending L pick c)) \<and> conn_progress c (snd (drain_open_pending L pick c))"
proof (cases "\<exists>k n entry. tp_entry pick = Some k \<and> c_conn c = Some n \<and>
    zend_hash_find (c_streams c) k = Some entry \<and> se_pending_open entry")
  case True
  then obtain k n entry where k: "tp_entry pick = Some k" "c_conn c = Some n"
    "zend_hash_find (c_streams c) k = Some entry" "se_pending_open entry" by blast
  obtain rv oid n1 where o: "php_quic_connection_open_pending_stream L n (se_stream_id entry) = (rv, oid, n1)"
    by (metis prod_cases3)
  have "conn_wf (put_stream_entry (c\<lparr>c_conn := Some n1\<rparr>) k (entry\<lparr>se_pending_open := False\<rparr>)) \<and>
    conn_progress (c\<lparr>c_conn := Some n1\<rparr>) (put_stream_entry (c\<lparr>c_conn := Some n1\<rparr>) k (entry\<lparr>se_pending_open := False\<rparr>))"
    using conn_wf_find[OF c k(3)] c k(3) by (auto intro!: put_entry_wf put_entry_progress)
  moreover have "conn_progress c (c\<lparr>c_conn := Some n1\<rparr>)" by simp
  ultimately have "conn_wf (put_stream_entry (c\<lparr>c_conn := Some n1\<rparr>) k (entry\<lparr>se_pending_open := False\<rparr>)) \<and>
    conn_progress c (put_stream_entry (c\<lparr>c_conn := Some n1\<rparr>) k (entry\<lparr>se_pending_open := False\<rparr>))"
    using conn_progress_trans by blast
  with c k o show ?thesis by (auto simp: drain_open_pending_def Let_def split: option.split)
next
  case False
  then have "drain_open_pending L pick c = (Inr pick, c)"
    by (auto simp: drain_open_pending_def split: option.split)
  with c show ?thesis by simp
qed

text \<open>What one call of the library and the bookkeeping after it keep.\<close>

lemma tx_after_op:
  assumes "conn_wf d \<and> conn_progress c d"
  shows "conn_wf (php_quic_connection_update_tx_entry d r w fa pe) \<and>
      conn_progress c (php_quic_connection_update_tx_entry d r w fa pe)"
    and "conn_wf (php_quic_connection_discard_tx_entry d r) \<and>
      conn_progress c (php_quic_connection_discard_tx_entry d r)"
  using assms update_tx_entry_wf[of d r w fa pe] discard_tx_entry_wf[of d r] conn_progress_trans by blast+

fun step_state :: "'c drain_state + (unit outcome \<times> 'c drain_state) \<Rightarrow> 'c drain_state" where
  "step_state (Inl s) = s"
| "step_state (Inr (r, s)) = s"

lemma drain_write_op:
  assumes c: "conn_wf (ds_c s)"
  shows "conn_wf (ds_c (step_state (drain_write L n pick s))) \<and>
    conn_progress (ds_c s) (ds_c (step_state (drain_write L n pick s)))"
proof -
  let ?c = "ds_c s"
  obtain nwrite w cbs n1 where wr: "ngtcp2_conn_writev_stream L n 1452 (tx_flags L (tp_fin pick))
      (tp_stream_id pick) (tp_datav pick) (c_hrtime ?c (c_reads ?c)) = (nwrite, w, cbs, n1)"
    by (metis prod_cases4)
  define c2 where "c2 = run_callbacks L cbs (?c\<lparr>c_reads := Suc (c_reads ?c), c_conn := Some n1\<rparr>)"
  have c2: "conn_wf c2 \<and> conn_progress ?c c2" using library_call_op[OF c] by (simp add: c2_def)
  note after = tx_after_op[OF c2] sync_after[OF c2] c2
  show ?thesis
    using after wr unfolding drain_write_def Let_def
    by (auto simp: c2_def[symmetric] simp del: php_quic_connection_is_nonfatal_closing_error.simps split: sum.split)
qed

lemma drain_step_unfold:
  assumes "(if ds_force s then (no_tx_pick, ds_c s)
      else php_quic_connection_pick_tx_stream (ds_c s)) = (pick, c1)"
    and "drain_open_pending L pick c1 = (r, c2)"
  shows "drain_step L s =
    (case r of
       Inl e \<Rightarrow> Inr (Inl e, s\<lparr>ds_force := False, ds_c := c2\<rparr>)
     | Inr pick2 \<Rightarrow>
         (case c_conn c2 of
            None \<Rightarrow> Inr (Inr (), s\<lparr>ds_force := False, ds_c := c2\<rparr>)
          | Some n \<Rightarrow> drain_write L n pick2 (s\<lparr>ds_force := False, ds_c := c2\<rparr>)))"
  unfolding drain_step_def
  by (simp only: assms Let_def prod.case) (cases r; cases "c_conn c2"; simp)

lemma drain_step_op:
  assumes c: "conn_wf (ds_c s)"
  shows "conn_wf (ds_c (step_state (drain_step L s))) \<and>
    conn_progress (ds_c s) (ds_c (step_state (drain_step L s)))"
proof -
  obtain pick c1 where p: "(if ds_force s then (no_tx_pick, ds_c s)
    else php_quic_connection_pick_tx_stream (ds_c s)) = (pick, c1)" by fastforce
  have c1: "conn_wf c1" "conn_progress (ds_c s) c1"
    using p c pick_tx_stream_wf[OF c] by (auto split: if_splits)
  obtain r c2 where o: "drain_open_pending L pick c1 = (r, c2)" by fastforce
  have c2: "conn_wf c2" "conn_progress (ds_c s) c2"
    using drain_open_pending_op[OF c1(1), of L pick] o c1(2) conn_progress_trans by auto
  have "conn_progress (ds_c s) (ds_c (step_state (drain_write L n pick2 (s\<lparr>ds_force := False, ds_c := c2\<rparr>)))) \<and>
      conn_wf (ds_c (step_state (drain_write L n pick2 (s\<lparr>ds_force := False, ds_c := c2\<rparr>))))" for n pick2
    using drain_write_op[of "s\<lparr>ds_force := False, ds_c := c2\<rparr>" L n pick2] c2
    by (auto intro: conn_progress_trans)
  with c2 show ?thesis
    unfolding drain_step_unfold[OF p o] by (cases r; cases "c_conn c2") auto
qed

end
