(* ===== verification/Quic_Drain_Term.thy ===== *)
theory Quic_Drain_Term
  imports Quic_Drain
begin

text \<open>
  The loop of \<^verbatim>\<open>drainOutgoingDatagrams\<close> ends, under the library's documented
  behaviour: the measure goes down lexicographically in the datagrams still allowed, the
  streams that want to send, the room in the packet under construction, and the one retry
  without stream data.
\<close>

definition tx_wanted_set :: "'c php_quic_connection \<Rightarrow> u64 set" where
  "tx_wanted_set c = {k. \<exists>e. zend_hash_find (c_streams c) k = Some e \<and> tx_wanted e}"

lemma tx_wanted_set_finite [simp]: "finite (tx_wanted_set c)"
proof (rule finite_subset)
  show "tx_wanted_set c \<subseteq> set (hash_keys (c_streams c))"
    using hash.find_keys by (fastforce simp: tx_wanted_set_def)
qed simp

lemma tx_wanted_set_frame [frame, simp]:
  "tx_wanted_set (php_quic_connection_push_event c t s e b r) = tx_wanted_set c"
  "tx_wanted_set (c\<lparr>c_conn := n\<rparr>) = tx_wanted_set c"
  "tx_wanted_set (c\<lparr>c_reads := i\<rparr>) = tx_wanted_set c"
  "tx_wanted_set (c\<lparr>c_established := est\<rparr>) = tx_wanted_set c"
  "tx_wanted_set (c\<lparr>c_last_error := le\<rparr>) = tx_wanted_set c"
  "tx_wanted_set (php_quic_connection_sync_state L c) = tx_wanted_set c"
  by (simp_all add: tx_wanted_set_def)

lemma tx_wanted_set_put:
  "tx_wanted_set (put_stream_entry c k e) =
     (if tx_wanted e then insert k (tx_wanted_set c) else tx_wanted_set c - {k})"
  by (auto simp: tx_wanted_set_def put_entry_find)

lemma tx_wanted_opened:
  assumes "php_quic_connection_open_stream_entry c sid = (entry, c1)"
  shows "tx_wanted_set c1 \<subseteq> tx_wanted_set c \<and> (tx_wanted entry \<longrightarrow> sid \<in> tx_wanted_set c)"
  using assms by (auto simp: php_quic_connection_open_stream_entry_def Let_def tx_wanted_set_def
      put_entry_find php_quic_connection_get_stream_entry_def php_quic_stream_entry_alloc_def
      tx_wanted_def split: option.splits if_splits)

lemma put_opened_wanted:
  assumes "php_quic_connection_open_stream_entry c sid = (entry, c1)"
    and "tx_wanted entry' \<Longrightarrow> tx_wanted entry"
  shows "tx_wanted_set (put_stream_entry c1 sid entry') \<subseteq> tx_wanted_set c"
  using tx_wanted_opened[OF assms(1)] assms(2) by (auto simp: tx_wanted_set_put)

lemma invoke_callback_wanted: "tx_wanted_set (invoke_callback L cb c) \<subseteq> tx_wanted_set c"
proof (cases cb)
  case (Cb_stream_open n sid)
  obtain entry c1 where o: "php_quic_connection_open_stream_entry c sid = (entry, c1)" by fastforce
  with Cb_stream_open show ?thesis
    by (simp add: php_quic_stream_open_cb_def) (rule put_opened_wanted[OF o], simp add: tx_wanted_def)
next
  case (Cb_recv_stream_data fl sid off d)
  obtain entry c1 where o: "php_quic_connection_open_stream_entry c sid = (entry, c1)" by fastforce
  have *: "tx_wanted_set (if newly then php_quic_connection_push_event (put_stream_entry c1 sid e') t s e b r
      else put_stream_entry c1 sid e') \<subseteq> tx_wanted_set c"
    if "tx_wanted e' \<Longrightarrow> tx_wanted entry" for newly e' t s e b r
    using put_opened_wanted[OF o that] by simp
  show ?thesis
    unfolding Cb_recv_stream_data invoke_callback_simps php_quic_recv_stream_data_cb_def o Let_def prod.case
    by (rule *) (simp add: tx_wanted_def split: if_splits)
next
  case (Cb_stream_close fl sid e)
  obtain entry c1 where o: "php_quic_connection_open_stream_entry c sid = (entry, c1)" by fastforce
  with Cb_stream_close show ?thesis
    by (simp add: php_quic_stream_close_cb_def) (rule put_opened_wanted[OF o], simp add: tx_wanted_def)
next
  case (Cb_stream_reset sid fs e)
  obtain entry c1 where o: "php_quic_connection_open_stream_entry c sid = (entry, c1)" by fastforce
  with Cb_stream_reset show ?thesis
    by (simp add: php_quic_stream_reset_cb_def) (rule put_opened_wanted[OF o], simp add: tx_wanted_def)
next
  case (Cb_acked_stream_data_offset sid off len)
  then show ?thesis
    by (auto simp: php_quic_acked_stream_data_offset_cb_def tx_wanted_set_put tx_wanted_def
        php_quic_connection_get_stream_entry_def split: option.split)
       (auto simp: tx_wanted_set_def tx_wanted_def)
qed (simp add: php_quic_handshake_completed_cb_def)

lemma run_callbacks_wanted: "tx_wanted_set (run_callbacks L cbs c) \<subseteq> tx_wanted_set c"
proof (induction cbs arbitrary: c)
  case (Cons cb cbs)
  then show ?case using invoke_callback_wanted[of L cb c]
    by (simp del: invoke_callback_simps) blast
qed simp

lemma invoke_callback_conn [simp]: "c_conn (invoke_callback L cb c) = c_conn c"
proof -
  have *: "c_conn c1 = c_conn c"
    if "php_quic_connection_open_stream_entry c sid = (entry, c1)" for c1 sid entry
    using open_stream_entry_frame(1)[of c sid] that by simp
  show ?thesis
    by (cases cb) (auto simp: php_quic_handshake_completed_cb_def php_quic_stream_open_cb_def
        php_quic_recv_stream_data_cb_def php_quic_stream_close_cb_def php_quic_stream_reset_cb_def
        php_quic_acked_stream_data_offset_cb_def Let_def split: prod.split option.split dest: *)
qed

lemma run_callbacks_conn [simp]: "c_conn (run_callbacks L cbs c) = c_conn c"
  by (induction cbs arbitrary: c) (simp_all del: invoke_callback_simps)

lemma update_tx_conn [simp]: "c_conn (php_quic_connection_update_tx_entry c r w fa pe) = c_conn c"
  by (simp add: php_quic_connection_update_tx_entry_def Let_def split: option.split)

lemma discard_tx_conn [simp]: "c_conn (php_quic_connection_discard_tx_entry c r) = c_conn c"
  by (simp add: php_quic_connection_discard_tx_entry_def split: option.split)

lemma update_tx_wanted:
  "tx_wanted_set (php_quic_connection_update_tx_entry c r w fa pe) \<subseteq> tx_wanted_set c \<union> set_option r"
  by (auto simp: php_quic_connection_update_tx_entry_def Let_def tx_wanted_set_put split: option.splits)

lemma discard_tx_wanted:
  "tx_wanted_set (php_quic_connection_discard_tx_entry c r) \<subseteq> tx_wanted_set c - set_option r"
proof (cases r)
  case (Some k)
  show ?thesis
  proof (cases "zend_hash_find (c_streams c) k")
    case None
    with Some show ?thesis
      by (auto simp: php_quic_connection_discard_tx_entry_def tx_wanted_set_def)
  next
    case (Some entry)
    moreover have "\<not> tx_wanted (tx_entry_discard entry)"
      by (auto simp: tx_wanted_def tx_entry_discard_def Let_def)
    ultimately show ?thesis using \<open>r = Some k\<close>
      by (auto simp: php_quic_connection_discard_tx_entry_def tx_wanted_set_put)
  qed
qed (simp add: php_quic_connection_discard_tx_entry_def)

subsection \<open>The library's side\<close>

text \<open>
  What the loop relies on. \<open>space n\<close> is the room left in the packet the library is
  building: \<^verbatim>\<open>NGTCP2_ERR_WRITE_MORE\<close> means a frame was added to it, the other codes after
  which the loop goes on do not enlarge it, nor does opening a stream. A call without a stream
  never reports a stream whose write side is shut. A packet fits the buffer it was written to.
\<close>

definition writes_bounded :: "'c ngtcp2 \<Rightarrow> ('c \<Rightarrow> nat) \<Rightarrow> bool" where
  "writes_bounded L space \<longleftrightarrow>
     (\<forall>n. space (snd (snd (ngtcp2_conn_open_bidi_stream L n))) \<le> space n \<and>
          space (snd (snd (ngtcp2_conn_open_uni_stream L n))) \<le> space n) \<and>
     (\<forall>n buflen flags sid datav now.
        case ngtcp2_conn_writev_stream L n buflen flags sid datav now of
          (nwrite, wdatalen, cbs, n1) \<Rightarrow>
            (nwrite = Inl NGTCP2_ERR_WRITE_MORE \<longrightarrow> space n1 < space n) \<and>
            (nwrite = Inl NGTCP2_ERR_STREAM_DATA_BLOCKED \<longrightarrow> space n1 \<le> space n) \<and>
            (nwrite = Inl NGTCP2_ERR_STREAM_SHUT_WR \<longrightarrow> sid \<noteq> -1 \<and> space n1 \<le> space n) \<and>
            (\<forall>buf. nwrite = Inr buf \<longrightarrow> length buf \<le> buflen)) \<and>
     (\<forall>n buflen err now.
        case ngtcp2_conn_write_connection_close L n buflen err now of
          (nwrite, cbs, n1) \<Rightarrow> (\<forall>buf. nwrite = Inr buf \<longrightarrow> length buf \<le> buflen))"

lemma writes_bounded_writev:
  assumes "writes_bounded L space"
    and "ngtcp2_conn_writev_stream L n buflen flags sid datav now = (nwrite, w, cbs, n1)"
  shows "nwrite = Inl NGTCP2_ERR_WRITE_MORE \<Longrightarrow> space n1 < space n"
    and "nwrite = Inl NGTCP2_ERR_STREAM_DATA_BLOCKED \<Longrightarrow> space n1 \<le> space n"
    and "nwrite = Inl NGTCP2_ERR_STREAM_SHUT_WR \<Longrightarrow> sid \<noteq> -1 \<and> space n1 \<le> space n"
    and "nwrite = Inr buf \<Longrightarrow> length buf \<le> buflen"
proof -
  have *: "case ngtcp2_conn_writev_stream L n buflen flags sid datav now of
          (nwrite, wdatalen, cbs, n1) \<Rightarrow>
            (nwrite = Inl NGTCP2_ERR_WRITE_MORE \<longrightarrow> space n1 < space n) \<and>
            (nwrite = Inl NGTCP2_ERR_STREAM_DATA_BLOCKED \<longrightarrow> space n1 \<le> space n) \<and>
            (nwrite = Inl NGTCP2_ERR_STREAM_SHUT_WR \<longrightarrow> sid \<noteq> -1 \<and> space n1 \<le> space n) \<and>
            (\<forall>buf. nwrite = Inr buf \<longrightarrow> length buf \<le> buflen)"
    by (rule assms(1)[unfolded writes_bounded_def, THEN conjunct2, THEN conjunct1, THEN spec,
          THEN spec, THEN spec, THEN spec, THEN spec, THEN spec])
  show "nwrite = Inl NGTCP2_ERR_WRITE_MORE \<Longrightarrow> space n1 < space n"
    "nwrite = Inl NGTCP2_ERR_STREAM_DATA_BLOCKED \<Longrightarrow> space n1 \<le> space n"
    "nwrite = Inl NGTCP2_ERR_STREAM_SHUT_WR \<Longrightarrow> sid \<noteq> -1 \<and> space n1 \<le> space n"
    "nwrite = Inr buf \<Longrightarrow> length buf \<le> buflen"
    using * unfolding assms(2) by simp_all
qed

lemma writes_bounded_open:
  assumes L: "writes_bounded L space"
    and o: "php_quic_connection_open_pending_stream L n sid = (rv, oid, n1)"
  shows "space n1 \<le> space n"
proof -
  have "space (snd (snd (ngtcp2_conn_open_bidi_stream L n))) \<le> space n"
    "space (snd (snd (ngtcp2_conn_open_uni_stream L n))) \<le> space n"
    using L[unfolded writes_bounded_def, THEN conjunct1, THEN spec[of _ n]] by simp_all
  with o show ?thesis
    by (auto simp: php_quic_connection_open_pending_stream_def split: if_splits)
qed

subsection \<open>The measure\<close>

abbreviation tx_space :: "('c \<Rightarrow> nat) \<Rightarrow> 'c php_quic_connection \<Rightarrow> nat" where
  "tx_space space c \<equiv> (case c_conn c of None \<Rightarrow> 0 | Some n \<Rightarrow> space n)"

definition drain_order :: "('c \<Rightarrow> nat) \<Rightarrow> ('c drain_state \<times> 'c drain_state) set" where
  "drain_order space = measures
     [\<lambda>s. 256 - ds_emitted s, \<lambda>s. card (tx_wanted_set (ds_c s)),
      \<lambda>s. tx_space space (ds_c s), \<lambda>s. if ds_force s then 0 else 1]"

text \<open>What is offered to the library, as it goes into \<open>drain_write\<close>.\<close>

definition offer_ok :: "'c drain_state \<Rightarrow> tx_pick \<Rightarrow> bool" where
  "offer_ok s pick \<longleftrightarrow>
     (case tp_entry pick of
        None \<Rightarrow> tp_stream_id pick = -1
      | Some k \<Rightarrow> tp_stream_id pick = k \<and> k \<in> tx_wanted_set (ds_c s) \<and> \<not> ds_force s)"

lemma drain_offer:
  assumes c: "conn_wf (ds_c s)" and L: "writes_bounded L space"
    and p: "(if ds_force s then (no_tx_pick, ds_c s)
      else php_quic_connection_pick_tx_stream (ds_c s)) = (pick, c1)"
    and o: "drain_open_pending L pick c1 = (Inr pick2, c2)"
  shows "offer_ok s pick2 \<and> tx_wanted_set c2 \<subseteq> tx_wanted_set (ds_c s) \<and>
    tx_space space c2 \<le> tx_space space (ds_c s)"
proof -
  have 1: "offer_ok s pick \<and> tx_wanted_set c1 \<subseteq> tx_wanted_set (ds_c s) \<and> c_conn c1 = c_conn (ds_c s)"
  proof (cases "ds_force s")
    case True
    with p show ?thesis by (auto simp: offer_ok_def no_tx_pick_def)
  next
    case False
    with p have p': "php_quic_connection_pick_tx_stream (ds_c s) = (pick, c1)" by simp
    show ?thesis
    proof (cases "tp_entry pick")
      case None
      from pick_tx_stream_None[OF p' None] show ?thesis by (auto simp: offer_ok_def no_tx_pick_def)
    next
      case (Some k)
      from pick_tx_stream_Some[OF c p' Some] obtain entry where
        e: "zend_hash_find (c_streams (ds_c s)) k = Some entry" "tx_wanted entry"
        "tp_stream_id pick = k" "c1 = put_stream_entry (ds_c s) k entry"
        by (auto simp: tx_wanted_def unsent_Nil_iff not_le)
      then have "k \<in> tx_wanted_set (ds_c s)" by (auto simp: tx_wanted_set_def)
      with e False Some show ?thesis by (auto simp: offer_ok_def tx_wanted_set_put)
    qed
  qed
  have no: "offer_ok s no_tx_pick" by (simp add: offer_ok_def no_tx_pick_def)
  show ?thesis
  proof (cases "\<exists>k n entry. tp_entry pick = Some k \<and> c_conn c1 = Some n \<and>
      zend_hash_find (c_streams c1) k = Some entry \<and> se_pending_open entry")
    case True
    then obtain k n entry where k: "tp_entry pick = Some k" "c_conn c1 = Some n"
      "zend_hash_find (c_streams c1) k = Some entry" "se_pending_open entry" by blast
    obtain rv oid n1 where op: "php_quic_connection_open_pending_stream L n (se_stream_id entry) = (rv, oid, n1)"
      by (metis prod_cases3)
    have "tx_wanted_set (put_stream_entry (c1\<lparr>c_conn := Some n1\<rparr>) k (entry\<lparr>se_pending_open := False\<rparr>))
        \<subseteq> tx_wanted_set c1"
      using k(3) by (auto simp: tx_wanted_set_put) (auto simp: tx_wanted_set_def tx_wanted_def)
    with k op o 1 no writes_bounded_open[OF L op] show ?thesis
      by (auto simp: drain_open_pending_def Let_def split: option.splits if_splits)
  next
    case False
    with o have "pick2 = pick" "c2 = c1"
      by (auto simp: drain_open_pending_def split: option.splits if_splits)
    with 1 show ?thesis by simp
  qed
qed

text \<open>The results after which the loop goes on.\<close>

lemma drain_write_continue:
  assumes "drain_write L n pick s = Inl s'"
    and wr: "ngtcp2_conn_writev_stream L n 1452 (tx_flags L (tp_fin pick)) (tp_stream_id pick)
      (tp_datav pick) (c_hrtime (ds_c s) (c_reads (ds_c s))) = (nwrite, w, cbs, n1)"
    and c2: "c2 = run_callbacks L cbs ((ds_c s)\<lparr>c_reads := Suc (c_reads (ds_c s)), c_conn := Some n1\<rparr>)"
  obtains (write_more) "nwrite = Inl NGTCP2_ERR_WRITE_MORE"
      "s' = s\<lparr>ds_c := php_quic_connection_update_tx_entry c2 (tp_entry pick) w (tp_fin pick) False\<rparr>"
  | (blocked) k where "nwrite = Inl NGTCP2_ERR_STREAM_DATA_BLOCKED" "tp_entry pick = Some k"
      "s' = s\<lparr>ds_c := php_quic_connection_update_tx_entry c2 (Some k) w (tp_fin pick) False, ds_force := True\<rparr>"
  | (shut) "nwrite = Inl NGTCP2_ERR_STREAM_SHUT_WR"
      "s' = s\<lparr>ds_c := php_quic_connection_discard_tx_entry c2 (tp_entry pick)\<rparr>"
  | (packet) buf c3 where "nwrite = Inr buf" "buf \<noteq> ''''" "Suc (ds_emitted s) < 256"
      "c3 = php_quic_connection_update_tx_entry c2 (tp_entry pick) w (tp_fin pick) True"
      "s' = s\<lparr>ds_c := c3, ds_out := ds_out s @ [outgoing_datagram c3 buf], ds_emitted := Suc (ds_emitted s)\<rparr>"
proof (cases nwrite)
  case (Inl e)
  then show thesis
    using assms(1) wr write_more blocked shut unfolding drain_write_def Let_def
    by (auto simp: c2[symmetric] simp del: php_quic_connection_is_nonfatal_closing_error.simps split: if_splits)
next
  case (Inr buf)
  then show thesis
    using assms(1) wr packet unfolding drain_write_def Let_def
    by (auto simp: c2[symmetric] split: if_splits)
qed

lemma drain_write_decreases:
  assumes L: "writes_bounded L space" and offer: "offer_ok s0 pick"
    and wanted: "tx_wanted_set (ds_c s) \<subseteq> tx_wanted_set (ds_c s0)"
    and room: "space n \<le> tx_space space (ds_c s0)"
    and s: "ds_emitted s = ds_emitted s0" "\<not> ds_force s" "ds_emitted s0 < 256"
    and w: "drain_write L n pick s = Inl s'"
  shows "(s', s0) \<in> drain_order space \<and> ds_emitted s' < 256"
proof -
  obtain nwrite wlen cbs n1 where wr: "ngtcp2_conn_writev_stream L n 1452 (tx_flags L (tp_fin pick))
      (tp_stream_id pick) (tp_datav pick) (c_hrtime (ds_c s) (c_reads (ds_c s))) = (nwrite, wlen, cbs, n1)"
    by (metis prod_cases4)
  define c2 where "c2 = run_callbacks L cbs ((ds_c s)\<lparr>c_reads := Suc (c_reads (ds_c s)), c_conn := Some n1\<rparr>)"
  have c2: "c_conn c2 = Some n1" by (simp add: c2_def)
  have "tx_wanted_set c2 \<subseteq> tx_wanted_set (ds_c s)"
    using run_callbacks_wanted[of L cbs "(ds_c s)\<lparr>c_reads := Suc (c_reads (ds_c s)), c_conn := Some n1\<rparr>"]
    by (simp add: c2_def)
  with wanted have wanted2: "tx_wanted_set c2 \<subseteq> tx_wanted_set (ds_c s0)" by blast
  have entry: "set_option (tp_entry pick) \<subseteq> tx_wanted_set (ds_c s0)"
    using offer by (auto simp: offer_ok_def)
  have upd: "card (tx_wanted_set (php_quic_connection_update_tx_entry c2 (tp_entry pick) wlen fa pe))
      \<le> card (tx_wanted_set (ds_c s0))" for fa pe
    using update_tx_wanted[of c2 "tp_entry pick" wlen fa pe] wanted2 entry
    by (intro card_mono) auto
  note facts = writes_bounded_writev[OF L wr]
  from w wr c2_def show ?thesis
  proof (cases rule: drain_write_continue)
    case write_more
    then show ?thesis using facts(1) room upd[of "tp_fin pick" False] s
      by (auto simp: drain_order_def c2 le_less)
  next
    case (blocked k)
    then have "\<not> ds_force s0" using offer by (simp add: offer_ok_def)
    with blocked show ?thesis using facts(2) room upd[of "tp_fin pick" False] s
      by (auto simp: drain_order_def c2 le_less)
  next
    case shut
    then obtain k where k: "tp_entry pick = Some k" "k \<in> tx_wanted_set (ds_c s0)"
      using facts(3) offer by (auto simp: offer_ok_def split: option.splits)
    have "tx_wanted_set (php_quic_connection_discard_tx_entry c2 (Some k)) \<subset> tx_wanted_set (ds_c s0)"
      using discard_tx_wanted[of c2 "Some k"] wanted2 k by auto
    then have "card (tx_wanted_set (php_quic_connection_discard_tx_entry c2 (Some k))) < card (tx_wanted_set (ds_c s0))"
      by (intro psubset_card_mono) auto
    with shut k s show ?thesis by (simp add: drain_order_def)
  next
    case (packet buf c3)
    have "256 - ds_emitted s' < 256 - ds_emitted s0" using packet s by simp
    then have "(s', s0) \<in> drain_order space" unfolding drain_order_def measures_less by simp
    with packet s show ?thesis by simp
  qed
qed

lemma drain_step_decreases:
  assumes L: "writes_bounded L space" and c: "conn_wf (ds_c s)" and e: "ds_emitted s < 256"
    and st: "drain_step L s = Inl s'"
  shows "(s', s) \<in> drain_order space \<and> ds_emitted s' < 256 \<and> conn_wf (ds_c s') \<and> conn_progress (ds_c s) (ds_c s')"
proof -
  obtain pick c1 where p: "(if ds_force s then (no_tx_pick, ds_c s)
    else php_quic_connection_pick_tx_stream (ds_c s)) = (pick, c1)" by fastforce
  obtain r c2 where o: "drain_open_pending L pick c1 = (r, c2)" by fastforce
  from st obtain pick2 n where r: "r = Inr pick2" "c_conn c2 = Some n"
    and w: "drain_write L n pick2 (s\<lparr>ds_force := False, ds_c := c2\<rparr>) = Inl s'"
    unfolding drain_step_unfold[OF p o] by (auto split: sum.splits option.splits)
  from drain_offer[OF c L p o[unfolded r(1)]] r(2)
  have "offer_ok s pick2" "tx_wanted_set c2 \<subseteq> tx_wanted_set (ds_c s)" "space n \<le> tx_space space (ds_c s)"
    by auto
  from drain_write_decreases[OF L this(1) _ this(3) _ _ e w] this(2)
  show ?thesis using drain_step_op[OF c, of L] st by simp
qed

lemma drain_order_wf: "wf (drain_order space)"
  by (simp add: drain_order_def)

text \<open>Running the loop with a property of the state that every iteration keeps.\<close>

lemma drain_loop_invariant:
  assumes L: "writes_bounded L space" and c: "conn_wf (ds_c s)" and e: "ds_emitted s < 256" and P: "P s"
    and cont: "\<And>s s'. P s \<Longrightarrow> conn_wf (ds_c s) \<Longrightarrow> ds_emitted s < 256 \<Longrightarrow> drain_step L s = Inl s' \<Longrightarrow> P s'"
    and stop: "\<And>s r s'. P s \<Longrightarrow> conn_wf (ds_c s) \<Longrightarrow> ds_emitted s < 256 \<Longrightarrow> drain_step L s = Inr (r, s') \<Longrightarrow> Q r s'"
  shows "\<exists>r s'. drain_loop L s = Some (r, s') \<and> conn_wf (ds_c s') \<and> conn_progress (ds_c s) (ds_c s') \<and> Q r s'"
  using c e P
proof (induction s rule: wf_induct_rule[OF drain_order_wf[of space]])
  case (1 s)
  show ?case
  proof (cases "drain_step L s")
    case (Inl s1)
    with drain_step_decreases[OF L 1(2,3)] 1(4) cont[OF _ 1(2,3)]
    have *: "(s1, s) \<in> drain_order space" "ds_emitted s1 < 256" "conn_wf (ds_c s1)"
      "conn_progress (ds_c s) (ds_c s1)" "P s1" by auto
    from 1(1)[OF *(1,3,2,5)] obtain r s' where "drain_loop L s1 = Some (r, s')" "conn_wf (ds_c s')"
      "conn_progress (ds_c s1) (ds_c s')" "Q r s'" by blast
    with Inl *(4) show ?thesis
      by (subst drain_loop.simps) (auto intro: conn_progress_trans)
  next
    case (Inr b)
    obtain r s' where b: "b = (r, s')" by fastforce
    with drain_step_op[OF 1(2), of L] Inr have "conn_wf (ds_c s')" "conn_progress (ds_c s) (ds_c s')" by auto
    with Inr b stop[OF 1(4,2,3)] show ?thesis by (subst drain_loop.simps) auto
  qed
qed

end
