(* ===== verification/Quic_Drain_Props.thy ===== *)
theory Quic_Drain_Props
  imports Quic_Drain_Term
begin

text \<open>
  What \<^verbatim>\<open>drainOutgoingDatagrams\<close> returns: it always returns, with at most 256
  datagrams that carry the packets and the connection's addresses.
\<close>

subsection \<open>The addresses of a connection do not change\<close>

definition same_addresses :: "'c php_quic_connection \<Rightarrow> 'c php_quic_connection \<Rightarrow> bool" where
  "same_addresses c c' \<longleftrightarrow>
     c_remote_address_zv c' = c_remote_address_zv c \<and> c_local_address_zv c' = c_local_address_zv c"

lemma same_addresses_refl [simp]: "same_addresses c c"
  by (simp add: same_addresses_def)

lemma same_addresses_trans: "same_addresses a b \<Longrightarrow> same_addresses b c \<Longrightarrow> same_addresses a c"
  by (simp add: same_addresses_def)

lemma same_addresses_frame [frame, simp]:
  "same_addresses c (php_quic_connection_push_event d t s e b r) = same_addresses c d"
  "same_addresses c (put_stream_entry d k entry) = same_addresses c d"
  "same_addresses c (php_quic_connection_sync_state L d) = same_addresses c d"
  "same_addresses c (d\<lparr>c_conn := n\<rparr>) = same_addresses c d"
  "same_addresses c (d\<lparr>c_reads := i\<rparr>) = same_addresses c d"
  "same_addresses c (d\<lparr>c_established := est\<rparr>) = same_addresses c d"
  "same_addresses c (d\<lparr>c_last_error := le\<rparr>) = same_addresses c d"
  "same_addresses c (d\<lparr>c_close_packet_sent := cps\<rparr>) = same_addresses c d"
  by (simp_all add: same_addresses_def)

lemma open_stream_entry_addresses:
  "php_quic_connection_open_stream_entry c sid = (entry, c1) \<Longrightarrow> same_addresses c c1"
  by (auto simp: php_quic_connection_open_stream_entry_def Let_def split: option.splits)

lemma invoke_callback_addresses: "same_addresses c (invoke_callback L cb c)"
  by (cases cb) (auto simp: php_quic_handshake_completed_cb_def php_quic_stream_open_cb_def
      php_quic_recv_stream_data_cb_def php_quic_stream_close_cb_def php_quic_stream_reset_cb_def
      php_quic_acked_stream_data_offset_cb_def Let_def split: prod.split option.split
      dest: open_stream_entry_addresses)

lemma run_callbacks_addresses: "same_addresses c (run_callbacks L cbs c)"
proof (induction cbs arbitrary: c)
  case (Cons cb cbs)
  then show ?case using invoke_callback_addresses same_addresses_trans
    by (fastforce simp del: invoke_callback_simps)
qed simp

lemma tx_addresses [simp]:
  "same_addresses c (php_quic_connection_update_tx_entry d r w fa pe) = same_addresses c d"
  "same_addresses c (php_quic_connection_discard_tx_entry d r) = same_addresses c d"
  by (simp_all add: php_quic_connection_update_tx_entry_def php_quic_connection_discard_tx_entry_def
      Let_def split: option.split)

subsection \<open>What is emitted\<close>

definition datagram_ok :: "'c php_quic_connection \<Rightarrow> php_quic_datagram \<Rightarrow> bool" where
  "datagram_ok c d \<longleftrightarrow> dg_payload d \<noteq> '''' \<and> length (dg_payload d) \<le> 1452 \<and>
     dg_peer_address d = c_remote_address_zv c \<and> dg_local_address d = c_local_address_zv c"

definition drain_inv :: "'c php_quic_connection \<Rightarrow> 'c drain_state \<Rightarrow> bool" where
  "drain_inv c s \<longleftrightarrow> same_addresses c (ds_c s) \<and> length (ds_out s) = ds_emitted s \<and>
     (\<forall>d \<in> set (ds_out s). datagram_ok c d)"

lemma outgoing_datagram_ok:
  "same_addresses c d \<Longrightarrow> buf \<noteq> '''' \<Longrightarrow> length buf \<le> 1452 \<Longrightarrow> datagram_ok c (outgoing_datagram d buf)"
  by (simp add: datagram_ok_def same_addresses_def)

lemma drain_write_inv:
  assumes L: "writes_bounded L space" and s: "drain_inv c s"
  shows "drain_inv c (step_state (drain_write L n pick s))"
proof -
  obtain nwrite w cbs n1 where wr: "ngtcp2_conn_writev_stream L n 1452 (tx_flags L (tp_fin pick))
      (tp_stream_id pick) (tp_datav pick) (c_hrtime (ds_c s) (c_reads (ds_c s))) = (nwrite, w, cbs, n1)"
    by (metis prod_cases4)
  define c2 where "c2 = run_callbacks L cbs ((ds_c s)\<lparr>c_reads := Suc (c_reads (ds_c s)), c_conn := Some n1\<rparr>)"
  have "same_addresses c (ds_c s)" using s by (simp add: drain_inv_def)
  moreover have "same_addresses (ds_c s) c2"
    using run_callbacks_addresses[of "(ds_c s)\<lparr>c_reads := Suc (c_reads (ds_c s)), c_conn := Some n1\<rparr>" L cbs]
    by (simp add: c2_def same_addresses_def)
  ultimately have a: "same_addresses c c2" by (rule same_addresses_trans)
  show ?thesis
  proof (cases nwrite)
    case (Inl e)
    then show ?thesis using wr a s unfolding drain_write_def Let_def
      by (auto simp: c2_def[symmetric] drain_inv_def simp del: php_quic_connection_is_nonfatal_closing_error.simps)
  next
    case (Inr buf)
    then show ?thesis using wr a s writes_bounded_writev(4)[OF L wr Inr] unfolding drain_write_def Let_def
      by (auto simp: c2_def[symmetric] drain_inv_def outgoing_datagram_ok)
  qed
qed

lemma drain_open_pending_addresses: "same_addresses c (snd (drain_open_pending L pick c))"
  by (auto simp: drain_open_pending_def Let_def split: option.split prod.split)

lemma pick_tx_stream_addresses: "same_addresses c (snd (php_quic_connection_pick_tx_stream c))"
  by (auto simp: php_quic_connection_pick_tx_stream_def split: option.split)

lemma drain_step_inv:
  assumes L: "writes_bounded L space" and s: "drain_inv c s"
  shows "drain_inv c (step_state (drain_step L s))"
proof -
  obtain pick c1 where p: "(if ds_force s then (no_tx_pick, ds_c s)
    else php_quic_connection_pick_tx_stream (ds_c s)) = (pick, c1)" by fastforce
  obtain r c2 where o: "drain_open_pending L pick c1 = (r, c2)" by fastforce
  have "same_addresses (ds_c s) c1"
    using p pick_tx_stream_addresses[of "ds_c s"] by (auto split: if_splits)
  moreover have "same_addresses c1 c2" using drain_open_pending_addresses[of c1 L pick] o by simp
  ultimately have i: "drain_inv c (s\<lparr>ds_force := False, ds_c := c2\<rparr>)"
    using s by (auto simp: drain_inv_def intro: same_addresses_trans)
  show ?thesis
    unfolding drain_step_unfold[OF p o] using drain_write_inv[OF L i] i
    by (cases r; cases "c_conn c2") auto
qed

lemma drain_step_emitted:
  "ds_emitted s < 256 \<Longrightarrow> ds_emitted (step_state (drain_step L s)) \<le> 256"
  by (auto simp: drain_step_def drain_write_def Let_def split: prod.split sum.split option.split)

lemma drain_total:
  assumes L: "writes_bounded L space" and c: "conn_wf c"
  shows "\<exists>r c'. Connection_drainOutgoingDatagrams L c = Some (r, c') \<and> conn_wf c' \<and> conn_progress c c' \<and>
    (\<forall>out. r = Inr out \<longrightarrow> length out \<le> 256 \<and> (\<forall>d \<in> set out. datagram_ok c d))"
proof (cases "c_conn c")
  case None
  with c show ?thesis by (simp add: Connection_drainOutgoingDatagrams_def)
next
  case (Some n)
  show ?thesis
  proof (cases "c_close_requested c \<and> \<not> c_close_packet_sent c")
    case True
    obtain nwrite cbs n1 where w: "ngtcp2_conn_write_connection_close L n 1452 (c_last_error c)
      (c_hrtime c (c_reads c)) = (nwrite, cbs, n1)" by (metis prod_cases3)
    have fit: "length buf \<le> 1452" if "nwrite = Inr buf" for buf
      using L[unfolded writes_bounded_def, THEN conjunct2, THEN conjunct2, THEN spec[of _ n],
          THEN spec[of _ 1452], THEN spec[of _ "c_last_error c"], THEN spec[of _ "c_hrtime c (c_reads c)"]]
        w that by simp
    have "same_addresses c (run_callbacks L cbs (c\<lparr>c_reads := Suc (c_reads c), c_conn := Some n1\<rparr>))"
      using run_callbacks_addresses[of "c\<lparr>c_reads := Suc (c_reads c), c_conn := Some n1\<rparr>" L cbs]
      by (simp add: same_addresses_def)
    with fit w have "\<forall>out. fst (drain_close_packet L n c) = Inr out \<longrightarrow>
        length out \<le> 256 \<and> (\<forall>d \<in> set out. datagram_ok c d)"
      by (auto simp: drain_close_packet_def Let_def outgoing_datagram_ok split: sum.splits if_splits)
    with True Some drain_close_packet_op[OF c, of L n] show ?thesis
      by (cases "drain_close_packet L n c") (auto simp: Connection_drainOutgoingDatagrams_def)
  next
    case False
    let ?s = "\<lparr>ds_c = c, ds_out = [], ds_emitted = 0, ds_force = False\<rparr>"
    have "\<exists>r s'. drain_loop L ?s = Some (r, s') \<and> conn_wf (ds_c s') \<and>
        conn_progress (ds_c ?s) (ds_c s') \<and> drain_inv c s' \<and> ds_emitted s' \<le> 256"
    proof (rule drain_loop_invariant[OF L, where P = "drain_inv c"])
      show "conn_wf (ds_c ?s)" "ds_emitted ?s < 256" "drain_inv c ?s"
        using c by (simp_all add: drain_inv_def)
    next
      fix s s' assume "drain_inv c s" "drain_step L s = Inl s'"
      with drain_step_inv[OF L, of c s] show "drain_inv c s'" by simp
    next
      fix s r s' assume "drain_inv c s" "drain_step L s = Inr (r, s')" "ds_emitted s < 256"
      with drain_step_inv[OF L, of c s] drain_step_emitted[of s L]
      show "drain_inv c s' \<and> ds_emitted s' \<le> 256" by simp
    qed
    then obtain r s' where l: "drain_loop L ?s = Some (r, s')" "conn_wf (ds_c s')"
      "conn_progress c (ds_c s')" "drain_inv c s'" "ds_emitted s' \<le> 256" by auto
    then have "conn_wf (php_quic_connection_sync_state L (ds_c s'))"
      "conn_progress c (php_quic_connection_sync_state L (ds_c s'))"
      using sync_after by blast+
    moreover have "Connection_drainOutgoingDatagrams L c = Some
        (case r of Inl e \<Rightarrow> (Inl e, ds_c s')
         | Inr u \<Rightarrow> (Inr (ds_out s'), php_quic_connection_sync_state L (ds_c s')))"
      unfolding Connection_drainOutgoingDatagrams_def Some option.case if_not_P[OF False] l(1)
      by (cases r) simp_all
    moreover have "length (ds_out s') \<le> 256" "\<forall>d \<in> set (ds_out s'). datagram_ok c d"
      using l(4,5) by (simp_all add: drain_inv_def)
    ultimately show ?thesis using l(2,3) by (cases r) simp_all
  qed
qed

text \<open>
  C5. Draining always returns: on a well-formed connection, over a library that behaves as
  documented (\<open>writes_bounded\<close>), \<^verbatim>\<open>drainOutgoingDatagrams\<close> terminates, keeps the
  connection well formed and clears no flag; what it returns is at most 256 datagrams, each with
  a non-empty payload of at most 1452 bytes and the connection's own addresses.
\<close>

theorem drain_returns:
  assumes L: "writes_bounded L space" and c: "conn_wf c"
  shows "\<exists>r c'. Connection_drainOutgoingDatagrams L c = Some (r, c') \<and> conn_wf c' \<and> conn_progress c c' \<and>
    (\<forall>out. r = Inr out \<longrightarrow> length out \<le> 256 \<and> (\<forall>d \<in> set out. datagram_ok c d))"
  by (rule drain_total[OF assms])

lemma sample_writes_bounded: "writes_bounded sample_ngtcp2 (\<lambda>n. 0)"
  by (auto simp: writes_bounded_def sample_writev_def split: option.split)

theorem drain_returns_witness:
  "\<exists>out c'. Connection_drainOutgoingDatagrams sample_ngtcp2 (the (sample_objects 0)) = Some (out, c') \<and> conn_wf c'"
proof -
  have "conn_wf (the (sample_objects 0))"
    using sample_objects_wf by (simp add: objects_wf_def sample_objects_def)
  from drain_returns[OF sample_writes_bounded this] show ?thesis by blast
qed

end
