(* ===== verification/Quic_Drain_Data.thy ===== *)
theory Quic_Drain_Data
  imports Quic_Drain_Props
begin

text \<open>
  No stream byte is lost, repeated or reordered on its way to the library. \<open>acc n sid\<close> is
  what the library, in state \<open>n\<close>, has accepted on a stream so far, and \<open>shut n sid\<close> says
  that it reported the stream's write side as shut; \<open>writes_counted\<close> states how the calls the
  loop makes change them.
\<close>

definition tx_view :: "'c php_quic_connection \<Rightarrow> i64 \<Rightarrow> zstring \<times> nat" where
  "tx_view c sid =
     (case zend_hash_find (c_streams c) sid of
        None \<Rightarrow> ('''', 0) | Some entry \<Rightarrow> (unsent entry, tx_len entry))"

text \<open>Every transmit buffer has a size that a 64-bit offset can count.\<close>

definition tx_fits :: "'c php_quic_connection \<Rightarrow> bool" where
  "tx_fits c \<longleftrightarrow> (\<forall>sid. snd (tx_view c sid) < 2 ^ 64)"

lemma stream_unsent_view: "stream_unsent c sid = fst (tx_view c sid)"
  by (simp add: stream_unsent_def tx_view_def split: option.split)

lemma tx_view_frame [frame, simp]:
  "tx_view (php_quic_connection_push_event c t s e b r) = tx_view c"
  "tx_view (php_quic_connection_sync_state L c) = tx_view c"
  "tx_view (c\<lparr>c_conn := n\<rparr>) = tx_view c"
  "tx_view (c\<lparr>c_reads := i\<rparr>) = tx_view c"
  "tx_view (c\<lparr>c_established := est\<rparr>) = tx_view c"
  "tx_view (c\<lparr>c_last_error := le\<rparr>) = tx_view c"
  "tx_view (c\<lparr>c_close_packet_sent := cps\<rparr>) = tx_view c"
  by (simp_all add: tx_view_def fun_eq_iff)

lemma tx_view_put:
  "tx_view (put_stream_entry c k e) j = (if j = k then (unsent e, tx_len e) else tx_view c j)"
  by (simp add: tx_view_def put_entry_find)

lemma tx_view_put_same:
  "zend_hash_find (c_streams c) k = Some entry \<Longrightarrow> unsent e = unsent entry \<Longrightarrow> tx_len e = tx_len entry \<Longrightarrow>
    tx_view (put_stream_entry c k e) = tx_view c"
  by (auto simp: tx_view_put fun_eq_iff) (simp add: tx_view_def)

lemma put_opened_view:
  assumes "php_quic_connection_open_stream_entry c sid = (entry, c1)"
    and "se_tx_buffer e = se_tx_buffer entry" "se_tx_offset e = se_tx_offset entry"
  shows "tx_view (put_stream_entry c1 sid e) = tx_view c"
proof -
  have "unsent e = unsent entry" "tx_len e = tx_len entry" using assms(2,3) by (simp_all add: unsent_def)
  with assms(1) show ?thesis
    by (auto simp: php_quic_connection_open_stream_entry_def Let_def tx_view_def put_entry_find
        php_quic_connection_get_stream_entry_def php_quic_stream_entry_alloc_def unsent_def fun_eq_iff
        split: option.splits)
qed

lemma invoke_callback_view: "tx_view (invoke_callback L cb c) = tx_view c"
proof (cases cb)
  case (Cb_stream_open n sid)
  obtain entry c1 where o: "php_quic_connection_open_stream_entry c sid = (entry, c1)" by fastforce
  with Cb_stream_open put_opened_view[OF o] show ?thesis by (simp add: php_quic_stream_open_cb_def)
next
  case (Cb_recv_stream_data fl sid off d)
  obtain entry c1 where o: "php_quic_connection_open_stream_entry c sid = (entry, c1)" by fastforce
  have *: "tx_view (if newly then php_quic_connection_push_event (put_stream_entry c1 sid e') t s e b r
      else put_stream_entry c1 sid e') = tx_view c"
    if "se_tx_buffer e' = se_tx_buffer entry" "se_tx_offset e' = se_tx_offset entry" for newly e' t s e b r
    using put_opened_view[OF o that] by simp
  show ?thesis
    unfolding Cb_recv_stream_data invoke_callback_simps php_quic_recv_stream_data_cb_def o Let_def prod.case
    by (rule *) simp_all
next
  case (Cb_stream_close fl sid e)
  obtain entry c1 where o: "php_quic_connection_open_stream_entry c sid = (entry, c1)" by fastforce
  with Cb_stream_close put_opened_view[OF o] show ?thesis by (simp add: php_quic_stream_close_cb_def)
next
  case (Cb_stream_reset sid fs e)
  obtain entry c1 where o: "php_quic_connection_open_stream_entry c sid = (entry, c1)" by fastforce
  with Cb_stream_reset put_opened_view[OF o] show ?thesis by (simp add: php_quic_stream_reset_cb_def)
next
  case (Cb_acked_stream_data_offset sid off len)
  then show ?thesis
    by (auto simp: php_quic_acked_stream_data_offset_cb_def php_quic_connection_get_stream_entry_def
        unsent_def intro!: tx_view_put_same split: option.split)
qed (simp add: php_quic_handshake_completed_cb_def)

lemma run_callbacks_view [simp]: "tx_view (run_callbacks L cbs c) = tx_view c"
  by (induction cbs arbitrary: c) (simp_all add: invoke_callback_view del: invoke_callback_simps)

lemma update_tx_view:
  assumes c: "conn_wf c" and fits: "tx_fits c" and w: "nat w \<le> length (fst (tx_view c k))"
  shows "fst (tx_view (php_quic_connection_update_tx_entry c (Some k) w fa pe) j) =
      (if j = k then drop (nat w) (fst (tx_view c k)) else fst (tx_view c j)) \<and>
    snd (tx_view (php_quic_connection_update_tx_entry c (Some k) w fa pe) j) \<le> snd (tx_view c j)"
proof (cases "zend_hash_find (c_streams c) k")
  case None
  then have "fst (tx_view c k) = ''''" by (simp add: tx_view_def)
  with None show ?thesis by (simp add: php_quic_connection_update_tx_entry_def)
next
  case (Some entry)
  have v: "tx_view c k = (unsent entry, tx_len entry)" using Some by (simp add: tx_view_def)
  have "entry_wf entry" using conn_wf_find[OF c Some] by simp
  moreover have "tx_len entry < 2 ^ 64" using fits[unfolded tx_fits_def, THEN spec[of _ k]] v by simp
  moreover have "nat w \<le> length (unsent entry)" using w v by simp
  ultimately have u: "unsent (tx_entry_advance entry w fa pe) = drop (nat w) (unsent entry)"
    using tx_advance_unsent by blast
  moreover have "unsent (e\<lparr>se_writable := b\<rparr>) = unsent e" for e b by (simp add: unsent_def)
  moreover have "tx_len (tx_entry_advance entry w fa pe) \<le> tx_len entry"
    by (simp add: tx_entry_advance_def Let_def)
  ultimately show ?thesis
    using Some v by (simp add: php_quic_connection_update_tx_entry_def Let_def tx_view_put)
qed

lemma discard_tx_view:
  "fst (tx_view (php_quic_connection_discard_tx_entry c (Some k)) j) =
      (if j = k then '''' else fst (tx_view c j)) \<and>
    snd (tx_view (php_quic_connection_discard_tx_entry c (Some k)) j) \<le> snd (tx_view c j)"
proof (cases "zend_hash_find (c_streams c) k")
  case None
  then show ?thesis by (simp add: php_quic_connection_discard_tx_entry_def tx_view_def)
next
  case (Some entry)
  have "unsent (tx_entry_discard entry) = ''''" "tx_len (tx_entry_discard entry) \<le> tx_len entry"
    by (simp_all add: unsent_def tx_entry_discard_def Let_def)
  with Some show ?thesis
    by (simp add: php_quic_connection_discard_tx_entry_def tx_view_put) (simp add: tx_view_def)
qed

lemma tx_fits_le: "tx_fits c \<Longrightarrow> (\<And>j. snd (tx_view c' j) \<le> snd (tx_view c j)) \<Longrightarrow> tx_fits c'"
  unfolding tx_fits_def using le_less_trans by blast

subsection \<open>The library's side\<close>

definition writes_counted ::
  "'c ngtcp2 \<Rightarrow> ('c \<Rightarrow> i64 \<Rightarrow> zstring) \<Rightarrow> ('c \<Rightarrow> i64 \<Rightarrow> bool) \<Rightarrow> bool" where
  "writes_counted L acc shut \<longleftrightarrow>
     (\<forall>n sid. case php_quic_connection_open_pending_stream L n sid of
        (rv, oid, n1) \<Rightarrow> acc n1 = acc n \<and> shut n1 = shut n) \<and>
     (\<forall>n buflen err now. case ngtcp2_conn_write_connection_close L n buflen err now of
        (nwrite, cbs, n1) \<Rightarrow> acc n1 = acc n \<and> shut n1 = shut n) \<and>
     (\<forall>n buflen flags sid datav now. case ngtcp2_conn_writev_stream L n buflen flags sid datav now of
        (nwrite, w, cbs, n1) \<Rightarrow>
          nat w \<le> length (buffer_bytes datav) \<and>
          acc n1 = (acc n)(sid := acc n sid @ take (nat w) (buffer_bytes datav)) \<and>
          (\<forall>e. nwrite = Inl e \<and> e \<noteq> NGTCP2_ERR_WRITE_MORE \<longrightarrow> w \<le> 0) \<and>
          (nwrite = Inl NGTCP2_ERR_STREAM_SHUT_WR \<longrightarrow> shut n1 sid) \<and>
          (\<forall>s. shut n s \<longrightarrow> shut n1 s))"

lemma writes_counted_writev:
  assumes L: "writes_counted L acc shut"
    and wr: "ngtcp2_conn_writev_stream L n buflen flags sid datav now = (nwrite, w, cbs, n1)"
  shows "nat w \<le> length (buffer_bytes datav)"
    and "acc n1 = (acc n)(sid := acc n sid @ take (nat w) (buffer_bytes datav))"
    and "nwrite = Inl e \<Longrightarrow> e \<noteq> NGTCP2_ERR_WRITE_MORE \<Longrightarrow> w \<le> 0"
    and "nwrite = Inl NGTCP2_ERR_STREAM_SHUT_WR \<Longrightarrow> shut n1 sid"
    and "shut n s \<Longrightarrow> shut n1 s"
  using L[unfolded writes_counted_def, THEN conjunct2, THEN conjunct2, THEN spec[of _ n], THEN spec[of _ buflen],
      THEN spec[of _ flags], THEN spec[of _ sid], THEN spec[of _ datav], THEN spec[of _ now]]
  unfolding wr prod.case by auto

lemma writes_counted_open:
  "writes_counted L acc shut \<Longrightarrow> php_quic_connection_open_pending_stream L n sid = (rv, oid, n1) \<Longrightarrow>
    acc n1 = acc n \<and> shut n1 = shut n"
  unfolding writes_counted_def by (drule conjunct1, drule spec[of _ n], drule spec[of _ sid]) simp

text \<open>
  What a step keeps, stream by stream: the accepted bytes followed by the unsent ones, except
  for a tail dropped because the library reported the write side shut.
\<close>

definition tx_step ::
  "('c \<Rightarrow> i64 \<Rightarrow> zstring) \<Rightarrow> ('c \<Rightarrow> i64 \<Rightarrow> bool) \<Rightarrow> 'c php_quic_connection \<Rightarrow> 'c php_quic_connection \<Rightarrow> bool" where
  "tx_step acc shut c c' \<longleftrightarrow>
     (\<exists>n n'. c_conn c = Some n \<and> c_conn c' = Some n' \<and>
       (\<forall>sid. (shut n sid \<longrightarrow> shut n' sid) \<and>
         (\<exists>dropped. acc n' sid @ stream_unsent c' sid @ dropped = acc n sid @ stream_unsent c sid \<and>
           (\<not> shut n' sid \<longrightarrow> dropped = ''''))))"

lemma tx_step_refl: "c_conn c = Some n \<Longrightarrow> tx_step acc shut c c"
  by (auto simp: tx_step_def)

lemma tx_step_trans:
  assumes "tx_step acc shut a b" "tx_step acc shut b c"
  shows "tx_step acc shut a c"
proof -
  from assms obtain n1 n2 n3 where n: "c_conn a = Some n1" "c_conn b = Some n2" "c_conn c = Some n3"
    and ab: "\<And>sid. (shut n1 sid \<longrightarrow> shut n2 sid) \<and>
      (\<exists>d. acc n2 sid @ stream_unsent b sid @ d = acc n1 sid @ stream_unsent a sid \<and> (\<not> shut n2 sid \<longrightarrow> d = ''''))"
    and bc: "\<And>sid. (shut n2 sid \<longrightarrow> shut n3 sid) \<and>
      (\<exists>d. acc n3 sid @ stream_unsent c sid @ d = acc n2 sid @ stream_unsent b sid \<and> (\<not> shut n3 sid \<longrightarrow> d = ''''))"
    unfolding tx_step_def by (metis option.inject)
  have "(shut n1 sid \<longrightarrow> shut n3 sid) \<and>
      (\<exists>d. acc n3 sid @ stream_unsent c sid @ d = acc n1 sid @ stream_unsent a sid \<and> (\<not> shut n3 sid \<longrightarrow> d = ''''))"
    for sid
  proof -
    obtain d where d: "acc n2 sid @ stream_unsent b sid @ d = acc n1 sid @ stream_unsent a sid" "\<not> shut n2 sid \<longrightarrow> d = ''''"
      using ab by blast
    obtain e where e: "acc n3 sid @ stream_unsent c sid @ e = acc n2 sid @ stream_unsent b sid" "\<not> shut n3 sid \<longrightarrow> e = ''''"
      using bc by blast
    have "acc n3 sid @ stream_unsent c sid @ e @ d = acc n1 sid @ stream_unsent a sid"
      using d(1) e(1) by (metis append_assoc)
    with d e ab[of sid] bc[of sid] show ?thesis by auto
  qed
  with n show ?thesis unfolding tx_step_def by blast
qed

lemma tx_step_view:
  "c_conn c = Some n \<Longrightarrow> c_conn c' = Some n' \<Longrightarrow> tx_view c' = tx_view c \<Longrightarrow>
    acc n' = acc n \<Longrightarrow> shut n' = shut n \<Longrightarrow> tx_step acc shut c c'"
  by (simp add: tx_step_def stream_unsent_view)

subsection \<open>One iteration\<close>

definition offer_data :: "'c php_quic_connection \<Rightarrow> tx_pick \<Rightarrow> bool" where
  "offer_data c pick \<longleftrightarrow>
     (case tp_entry pick of
        None \<Rightarrow> tp_datav pick = None
      | Some k \<Rightarrow> tp_stream_id pick = k \<and> buffer_bytes (tp_datav pick) = stream_unsent c k)"

definition tx_ok ::
  "('c \<Rightarrow> i64 \<Rightarrow> zstring) \<Rightarrow> ('c \<Rightarrow> i64 \<Rightarrow> bool) \<Rightarrow> 'c php_quic_connection \<Rightarrow> 'c php_quic_connection \<Rightarrow> bool" where
  "tx_ok acc shut c c' \<longleftrightarrow> tx_step acc shut c c' \<and> tx_fits c'"

lemma tx_step_frame [frame, simp]:
  "tx_step acc shut c (php_quic_connection_sync_state L d) = tx_step acc shut c d"
  "tx_step acc shut c (d\<lparr>c_last_error := le\<rparr>) = tx_step acc shut c d"
  by (simp_all add: tx_step_def stream_unsent_view)

lemma tx_ok_frame [frame, simp]:
  "tx_ok acc shut c (php_quic_connection_sync_state L d) = tx_ok acc shut c d"
  "tx_ok acc shut c (d\<lparr>c_last_error := le\<rparr>) = tx_ok acc shut c d"
  by (simp_all add: tx_ok_def tx_fits_def)

lemma tx_step_exact:
  assumes "c_conn c = Some n" "c_conn c' = Some n'"
    and "\<And>sid. shut n sid \<Longrightarrow> shut n' sid"
    and "\<And>sid. acc n' sid @ fst (tx_view c' sid) = acc n sid @ fst (tx_view c sid)"
  shows "tx_step acc shut c c'"
proof -
  have "acc n' sid @ stream_unsent c' sid @ '''' = acc n sid @ stream_unsent c sid" for sid
    using assms(4)[of sid] by (simp add: stream_unsent_view)
  with assms show ?thesis unfolding tx_step_def by blast
qed

lemma drain_write_data:
  assumes L: "writes_counted L acc shut" and c: "conn_wf (ds_c s)" and fits: "tx_fits (ds_c s)"
    and n: "c_conn (ds_c s) = Some n" and offer: "offer_data (ds_c s) pick"
  shows "tx_ok acc shut (ds_c s) (ds_c (step_state (drain_write L n pick s)))"
proof -
  let ?c = "ds_c s"
  obtain nwrite w cbs n1 where wr: "ngtcp2_conn_writev_stream L n 1452 (tx_flags L (tp_fin pick))
      (tp_stream_id pick) (tp_datav pick) (c_hrtime ?c (c_reads ?c)) = (nwrite, w, cbs, n1)"
    by (metis prod_cases4)
  define c2 where "c2 = run_callbacks L cbs (?c\<lparr>c_reads := Suc (c_reads ?c), c_conn := Some n1\<rparr>)"
  have c2: "conn_wf c2" "c_conn c2 = Some n1" "tx_view c2 = tx_view ?c"
    using library_call_op[OF c] by (simp_all add: c2_def)
  then have fits2: "tx_fits c2" using fits by (simp add: tx_fits_def)
  note facts = writes_counted_writev[OF L wr]
  have upd: "tx_ok acc shut ?c (php_quic_connection_update_tx_entry c2 (tp_entry pick) w fa pe)" for fa pe
  proof (cases "tp_entry pick")
    case None
    then have "acc n1 = acc n" using facts(2) offer by (simp add: offer_data_def)
    with None n c2 fits2 facts(5) show ?thesis
      by (auto simp: php_quic_connection_update_tx_entry_def tx_ok_def tx_step_def stream_unsent_view)
  next
    case (Some k)
    with offer have k: "tp_stream_id pick = k" "buffer_bytes (tp_datav pick) = stream_unsent ?c k"
      by (simp_all add: offer_data_def)
    have "nat w \<le> length (fst (tx_view c2 k))" using facts(1) k c2 by (simp add: stream_unsent_view)
    note u = update_tx_view[OF c2(1) fits2 this, of fa pe]
    have "tx_step acc shut ?c (php_quic_connection_update_tx_entry c2 (Some k) w fa pe)"
    proof (rule tx_step_exact[OF n])
      show "acc n1 sid @ fst (tx_view (php_quic_connection_update_tx_entry c2 (Some k) w fa pe) sid) =
          acc n sid @ fst (tx_view ?c sid)" for sid
        unfolding facts(2) u[THEN conjunct1] using k c2(3) by (simp add: stream_unsent_view)
    qed (use c2 facts(5) in simp_all)
    moreover have "tx_fits (php_quic_connection_update_tx_entry c2 (Some k) w fa pe)"
      by (rule tx_fits_le[OF fits2]) (use u in simp)
    ultimately show ?thesis using Some by (simp add: tx_ok_def)
  qed
  have idle: "tx_ok acc shut ?c c2" if "w \<le> 0"
    using that n c2 fits2 facts(2,5) by (auto simp: tx_ok_def tx_step_def stream_unsent_view)
  have disc: "tx_ok acc shut ?c (php_quic_connection_discard_tx_entry c2 (tp_entry pick))"
    if "w \<le> 0" "shut n1 (tp_stream_id pick)"
  proof (cases "tp_entry pick")
    case None
    with idle that show ?thesis by (simp add: php_quic_connection_discard_tx_entry_def)
  next
    case (Some k)
    with offer have k: "tp_stream_id pick = k" by (simp add: offer_data_def)
    note d = discard_tx_view[of c2 k]
    have "tx_step acc shut ?c (php_quic_connection_discard_tx_entry c2 (Some k))"
      using n c2 facts(2,5) d k that by (auto simp: tx_step_def stream_unsent_view)
    moreover have "tx_fits (php_quic_connection_discard_tx_entry c2 (Some k))"
      by (rule tx_fits_le[OF fits2]) (use d in simp)
    ultimately show ?thesis using Some by (simp add: tx_ok_def)
  qed
  show ?thesis
  proof (cases nwrite)
    case (Inl e)
    then show ?thesis using wr upd[of "tp_fin pick" False] idle disc facts(3,4)
      unfolding drain_write_def Let_def
      by (auto simp: c2_def[symmetric] simp del: php_quic_connection_is_nonfatal_closing_error.simps)
  next
    case (Inr buf)
    then show ?thesis using wr upd[of "tp_fin pick" "buf \<noteq> ''''"] unfolding drain_write_def Let_def
      by (auto simp: c2_def[symmetric])
  qed
qed

lemma pick_offer_data:
  assumes c: "conn_wf c" and p: "php_quic_connection_pick_tx_stream c = (pick, c1)"
  shows "offer_data c1 pick \<and> tx_view c1 = tx_view c \<and> c_conn c1 = c_conn c \<and> conn_wf c1"
proof (cases "tp_entry pick")
  case None
  with pick_tx_stream_None[OF p] c show ?thesis by (simp add: offer_data_def no_tx_pick_def)
next
  case (Some k)
  from pick_tx_stream_Some[OF c p Some] obtain entry where
    e: "zend_hash_find (c_streams c) k = Some entry" "tp_stream_id pick = k"
    "tp_datav pick = (if unsent entry = '''' then None else Some (unsent entry))"
    "c1 = put_stream_entry c k entry" by blast
  then show ?thesis using Some pick_tx_stream_wf[OF c p]
    by (auto simp: offer_data_def stream_unsent_def put_entry_find intro: tx_view_put_same)
qed

lemma open_pending_offer_data:
  assumes L: "writes_counted L acc shut" and offer: "offer_data c1 pick" and n: "c_conn c1 = Some n"
    and o: "drain_open_pending L pick c1 = (r, c2)" and fits: "tx_fits c1"
  shows "tx_ok acc shut c1 c2 \<and> (\<forall>pick2. r = Inr pick2 \<longrightarrow> offer_data c2 pick2)"
proof (cases "\<exists>k entry. tp_entry pick = Some k \<and> zend_hash_find (c_streams c1) k = Some entry \<and> se_pending_open entry")
  case True
  then obtain k entry where k: "tp_entry pick = Some k"
    "zend_hash_find (c_streams c1) k = Some entry" "se_pending_open entry" by blast
  obtain rv oid n1 where op: "php_quic_connection_open_pending_stream L n (se_stream_id entry) = (rv, oid, n1)"
    by (metis prod_cases3)
  let ?c' = "c1\<lparr>c_conn := Some n1\<rparr>" and ?e = "entry\<lparr>se_pending_open := False\<rparr>"
  have v: "tx_view (put_stream_entry ?c' k ?e) = tx_view c1"
    using k(2) tx_view_put_same[of ?c' k entry ?e] by (simp add: unsent_def)
  have ok: "tx_ok acc shut c1 d" if "tx_view d = tx_view c1" "c_conn d = Some n1" for d
    using tx_step_view[OF n that(2,1)] writes_counted_open[OF L op] fits that
    by (simp add: tx_ok_def tx_fits_def)
  have no: "offer_data d no_tx_pick" for d by (simp add: offer_data_def no_tx_pick_def)
  have off: "offer_data d pick" if "tx_view d = tx_view c1" for d
    using offer that by (simp add: offer_data_def stream_unsent_view split: option.splits)
  show ?thesis
    using o k n op ok[of ?c'] ok[OF v] no off[OF v]
    by (auto simp: drain_open_pending_def Let_def split: option.splits if_splits)
next
  case False
  with o n have "r = Inr pick" "c2 = c1"
    by (auto simp: drain_open_pending_def split: option.splits if_splits)
  with offer n fits show ?thesis by (auto simp: tx_ok_def intro: tx_step_refl)
qed

lemma drain_step_data:
  assumes L: "writes_counted L acc shut" and c: "conn_wf (ds_c s)" and fits: "tx_fits (ds_c s)"
    and n: "c_conn (ds_c s) = Some n"
  shows "tx_ok acc shut (ds_c s) (ds_c (step_state (drain_step L s)))"
proof -
  obtain pick c1 where p: "(if ds_force s then (no_tx_pick, ds_c s)
    else php_quic_connection_pick_tx_stream (ds_c s)) = (pick, c1)" by fastforce
  have c1: "offer_data c1 pick" "tx_view c1 = tx_view (ds_c s)" "c_conn c1 = Some n" "conn_wf c1"
  proof -
    have "offer_data c1 pick \<and> tx_view c1 = tx_view (ds_c s) \<and> c_conn c1 = c_conn (ds_c s) \<and> conn_wf c1"
      using p pick_offer_data[OF c, of pick c1] c
      by (cases "ds_force s") (auto simp: offer_data_def no_tx_pick_def)
    with n show "offer_data c1 pick" "tx_view c1 = tx_view (ds_c s)" "c_conn c1 = Some n" "conn_wf c1" by simp_all
  qed
  obtain r c2 where o: "drain_open_pending L pick c1 = (r, c2)" by fastforce
  have fits1: "tx_fits c1" using fits c1(2) by (simp add: tx_fits_def)
  have t1: "tx_step acc shut (ds_c s) c1" by (rule tx_step_view[OF n c1(3,2)]) simp_all
  from open_pending_offer_data[OF L c1(1,3) o fits1] have t2: "tx_ok acc shut c1 c2"
    and off: "\<And>pick2. r = Inr pick2 \<Longrightarrow> offer_data c2 pick2" by auto
  have t12: "tx_ok acc shut (ds_c s) c2" using t1 t2 tx_step_trans unfolding tx_ok_def by blast
  have wf2: "conn_wf c2" using drain_open_pending_op[OF c1(4), of L pick] o by simp
  show ?thesis
  proof (cases "\<exists>pick2 n2. r = Inr pick2 \<and> c_conn c2 = Some n2")
    case True
    then obtain pick2 n2 where r: "r = Inr pick2" "c_conn c2 = Some n2" by blast
    have "tx_ok acc shut c2 (ds_c (step_state (drain_write L n2 pick2 (s\<lparr>ds_force := False, ds_c := c2\<rparr>))))"
      using drain_write_data[OF L, of "s\<lparr>ds_force := False, ds_c := c2\<rparr>" n2 pick2] wf2 t12 r off
      by (simp add: tx_ok_def)
    with t12 r show ?thesis
      unfolding drain_step_unfold[OF p o] by (auto simp: tx_ok_def intro: tx_step_trans)
  next
    case False
    with t12 show ?thesis
      unfolding drain_step_unfold[OF p o] by (cases r; cases "c_conn c2") auto
  qed
qed

text \<open>
  C4. Draining conserves every stream's data: over a library that behaves as documented, the
  bytes the library has accepted on a stream followed by the bytes still waiting in the
  connection are the same, in the same order, before and after
  \<^verbatim>\<open>drainOutgoingDatagrams\<close>, whatever mixture of partial writes, coalescing, blocking
  and errors the call went through. Only a tail of a stream whose write side the library
  reported shut may be dropped.
\<close>

theorem drain_conserves_data:
  assumes L: "writes_bounded L space" "writes_counted L acc shut"
    and c: "conn_wf c" "tx_fits c" "c_conn c = Some n"
  shows "\<exists>r c' n'. Connection_drainOutgoingDatagrams L c = Some (r, c') \<and> c_conn c' = Some n' \<and>
    (\<forall>sid. \<exists>dropped. acc n' sid @ stream_unsent c' sid @ dropped = acc n sid @ stream_unsent c sid \<and>
      (\<not> shut n' sid \<longrightarrow> dropped = ''''))"
proof -
  have concl: ?thesis if "Connection_drainOutgoingDatagrams L c = Some (r, c')" "tx_step acc shut c c'" for r c'
    using that c(3) unfolding tx_step_def by auto
  show ?thesis
  proof (cases "c_close_requested c \<and> \<not> c_close_packet_sent c")
    case True
    obtain nwrite cbs n1 where w: "ngtcp2_conn_write_connection_close L n 1452 (c_last_error c)
      (c_hrtime c (c_reads c)) = (nwrite, cbs, n1)" by (metis prod_cases3)
    have "acc n1 = acc n" "shut n1 = shut n"
      using L(2)[unfolded writes_counted_def, THEN conjunct2, THEN conjunct1, THEN spec[of _ n],
          THEN spec[of _ 1452], THEN spec[of _ "c_last_error c"], THEN spec[of _ "c_hrtime c (c_reads c)"]] w
      by simp_all
    moreover have "c_conn (snd (drain_close_packet L n c)) = Some n1 \<and>
        tx_view (snd (drain_close_packet L n c)) = tx_view c"
      using w by (auto simp: drain_close_packet_def Let_def split: sum.split)
    ultimately have "tx_step acc shut c (snd (drain_close_packet L n c))"
      using tx_step_view[OF c(3), of "snd (drain_close_packet L n c)" n1 acc shut] by simp
    with True c(3) show ?thesis
      by (intro concl[of "fst (drain_close_packet L n c)" "snd (drain_close_packet L n c)"])
         (simp_all add: Connection_drainOutgoingDatagrams_def)
  next
    case False
    let ?s = "\<lparr>ds_c = c, ds_out = [], ds_emitted = 0, ds_force = False\<rparr>"
    have "\<exists>r s'. drain_loop L ?s = Some (r, s') \<and> conn_wf (ds_c s') \<and>
        conn_progress (ds_c ?s) (ds_c s') \<and> tx_ok acc shut c (ds_c s')"
    proof (rule drain_loop_invariant[OF L(1), where P = "\<lambda>s. tx_ok acc shut c (ds_c s)"])
      show "conn_wf (ds_c ?s)" "ds_emitted ?s < 256" "tx_ok acc shut c (ds_c ?s)"
        using c by (auto simp: tx_ok_def intro: tx_step_refl)
    next
      have step: "tx_ok acc shut c (ds_c (step_state (drain_step L s)))"
        if ok: "tx_ok acc shut c (ds_c s)" and wf: "conn_wf (ds_c s)" for s :: "'a drain_state"
      proof -
        obtain m where "c_conn (ds_c s) = Some m" using ok by (auto simp: tx_ok_def tx_step_def)
        with drain_step_data[OF L(2) wf, of m] ok show ?thesis
          by (auto simp: tx_ok_def intro: tx_step_trans)
      qed
      fix s :: "'a drain_state" assume s: "tx_ok acc shut c (ds_c s)" "conn_wf (ds_c s)"
      show "tx_ok acc shut c (ds_c s')" if "drain_step L s = Inl s'" for s'
        using step[OF s] that by simp
      show "tx_ok acc shut c (ds_c s')" if "drain_step L s = Inr (r, s')" for r s'
        using step[OF s] that by simp
    qed
    then obtain r s' where l: "drain_loop L ?s = Some (r, s')" "tx_ok acc shut c (ds_c s')" by auto
    have "Connection_drainOutgoingDatagrams L c = Some
        (case r of Inl e \<Rightarrow> (Inl e, ds_c s')
         | Inr u \<Rightarrow> (Inr (ds_out s'), php_quic_connection_sync_state L (ds_c s')))"
      unfolding Connection_drainOutgoingDatagrams_def c(3) option.case if_not_P[OF False] l(1)
      by (cases r) simp_all
    moreover obtain r2 c' where rc: "(case r of Inl e \<Rightarrow> (Inl e, ds_c s')
        | Inr u \<Rightarrow> (Inr (ds_out s'), php_quic_connection_sync_state L (ds_c s'))) = (r2, c')"
      by fastforce
    moreover have "tx_step acc shut c c'" using l(2) rc by (cases r) (auto simp: tx_ok_def)
    ultimately show ?thesis by (intro concl) simp_all
  qed
qed

lemma stream_id_create: "st_stream_id (php_quic_stream_create h sid) = sid"
  by (simp add: php_quic_stream_create_def)

lemma entry_alloc_fields:
  "se_closed (php_quic_stream_entry_alloc sid) = False" "se_fin_sent (php_quic_stream_entry_alloc sid) = False"
  "se_fin_pending (php_quic_stream_entry_alloc sid) = False"
  "se_tx_buffer (php_quic_stream_entry_alloc sid) = Some []"
  by (simp_all add: php_quic_stream_entry_alloc_def)

lemma sample_writes_counted: "writes_counted sample_ngtcp2 sample_acc (\<lambda>n sid. False)"
proof -
  have "(case ngtcp2_conn_writev_stream sample_ngtcp2 n buflen flags sid datav now of
        (nwrite, w, cbs, n1) \<Rightarrow>
          nat w \<le> length (buffer_bytes datav) \<and>
          sample_acc n1 = (sample_acc n)(sid := sample_acc n sid @ take (nat w) (buffer_bytes datav)) \<and>
          (\<forall>e. nwrite = Inl e \<and> e \<noteq> NGTCP2_ERR_WRITE_MORE \<longrightarrow> w \<le> 0) \<and>
          (nwrite = Inl NGTCP2_ERR_STREAM_SHUT_WR \<longrightarrow> False) \<and> (\<forall>s. False \<longrightarrow> False))"
    for n buflen flags sid datav now
    by (cases datav) (auto simp: sample_writev_def sample_acc_def fun_eq_iff min_def)
  then show ?thesis
    unfolding writes_counted_def by (auto simp: php_quic_connection_open_pending_stream_def)
qed

theorem drain_conserves_data_witness:
  "let (r, objs) = Stream_write sample_ngtcp2 (php_quic_stream_create 0 0) ''hello'' sample_objects;
       c = the (objs 0)
   in stream_unsent c 0 = ''hello'' \<and>
     (\<exists>r' c' n'. Connection_drainOutgoingDatagrams sample_ngtcp2 c = Some (r', c') \<and> c_conn c' = Some n' \<and>
        sample_acc n' 0 @ stream_unsent c' 0 = ''hello'')"
proof -
  obtain r objs where w: "Stream_write sample_ngtcp2 (php_quic_stream_create 0 0) ''hello'' sample_objects = (r, objs)"
    by fastforce
  let ?e = "(php_quic_stream_entry_alloc 0)\<lparr>se_tx_buffer := Some ''hello'', se_writable := False\<rparr>"
  let ?c = "put_stream_entry (put_stream_entry sample_connection 0 (php_quic_stream_entry_alloc 0)) 0 ?e"
  have c: "objs 0 = Some ?c"
    using w by (auto simp: Stream_write_def sample_objects_resolve php_quic_stream_is_remote_unidirectional_def
        stream_id_create entry_alloc_fields php_quic_buffer_append_def Let_def split: if_splits)
  have wf: "conn_wf ?c"
    using Stream_write_wf[OF sample_objects_wf, of sample_ngtcp2 "php_quic_stream_create 0 0" "''hello''"] w c
    by (simp add: objects_wf_def)
  have view: "tx_view ?c j = (if j = 0 then (''hello'', 5) else ('''', 0))" for j
    by (simp add: tx_view_put unsent_def php_quic_stream_entry_alloc_def) (simp add: tx_view_def)
  then have "tx_fits ?c" by (simp add: tx_fits_def)
  moreover have n: "c_conn ?c = Some (8, [])" by simp
  moreover have u: "stream_unsent ?c 0 = ''hello''" using view[of 0] by (simp add: stream_unsent_view)
  ultimately obtain r' c' n' where d: "Connection_drainOutgoingDatagrams sample_ngtcp2 ?c = Some (r', c')"
    "c_conn c' = Some n'" "sample_acc n' 0 @ stream_unsent c' 0 = sample_acc (8, []) 0 @ stream_unsent ?c 0"
    using drain_conserves_data[OF sample_writes_bounded sample_writes_counted wf] by fastforce
  moreover have "sample_acc (8, []) 0 = ''''" by (simp add: sample_acc_def)
  ultimately have "\<exists>r' c' n'. Connection_drainOutgoingDatagrams sample_ngtcp2 ?c = Some (r', c') \<and>
      c_conn c' = Some n' \<and> sample_acc n' 0 @ stream_unsent c' 0 = ''hello''"
    using u by (metis append_Nil)
  then show ?thesis unfolding w Let_def prod.case c option.sel using u by blast
qed

end
