(* ===== verification/Quic_Method_Props.thy ===== *)
theory Quic_Method_Props
  imports Quic_Drain_Data
begin

text \<open>
  What the methods of a connection promise their caller: timeouts, closing, draining events and
  opening streams; and two behaviours of the code that its callers have to know about.
\<close>

subsection \<open>Timeouts\<close>

lemma sint_nonneg:
  assumes "unat (w :: 64 word) < 2 ^ 63"
  shows "0 \<le> sint w"
proof -
  have "int (unat w) < int (2 ^ 63)" using assms by (rule of_nat_less_iff[THEN iffD2])
  then have "uint w < 2 ^ 63" by simp
  then have "signed_take_bit 63 (uint w) = uint w"
    by (intro signed_take_bit_int_eq_self) (simp_all add: order_trans[OF _ uint_ge_0])
  moreover have "sint w = signed_take_bit 63 (uint w)" by (simp add: sint_uint)
  ultimately show ?thesis by (metis uint_ge_0)
qed

lemma rounded_down:
  assumes "now < (e :: nat)" "0 < m"
  shows "now + (e - now) div m * m \<le> e \<and> e < now + ((e - now) div m + 1) * m"
proof -
  have "(e - now) div m * m + (e - now) mod m = e - now" by (rule div_mult_mod_eq)
  moreover have "(e - now) mod m < m" using assms(2) by simp
  ultimately show ?thesis using assms(1) by (simp only: add_mult_distrib) linarith
qed

text \<open>
  C30. \<^verbatim>\<open>getNextTimeout\<close> is \<^verbatim>\<open>null\<close> exactly when the connection has no native
  connection or is closed. Otherwise it is 0 when the library's expiry time has passed, and
  else the whole milliseconds until then, rounded down and never negative: a caller that waits
  that long never waits past the expiry, and is early by less than a millisecond. An open
  connection without a timer is no exception: the library says so with the largest time there is,
  and the answer is the number of milliseconds until then, where the documents promise
  \<^verbatim>\<open>null\<close>.
\<close>

theorem next_timeout_bounds:
  assumes "NGTCP2_MILLISECONDS L = 1000000"
  shows "(case fst (Connection_getNextTimeout L c) of
      None \<Rightarrow> c_conn c = None \<or> c_closed c
    | Some t \<Rightarrow> \<exists>n. c_conn c = Some n \<and> \<not> c_closed c \<and> 0 \<le> sint t \<and>
        (let now = unat (c_hrtime c (c_reads c)); expiry = unat (ngtcp2_conn_get_expiry L n) in
           if expiry \<le> now then t = 0
           else now + unat t * 1000000 \<le> expiry \<and> expiry < now + (unat t + 1) * 1000000)) \<and>
    (\<forall>n. c_conn c = Some n \<and> \<not> c_closed c \<and> ngtcp2_conn_get_expiry L n = - 1 \<and>
        c_hrtime c (c_reads c) \<noteq> - 1 \<longrightarrow>
      fst (Connection_getNextTimeout L c) = Some ((- 1 - c_hrtime c (c_reads c)) div 1000000))"
proof (cases "c_conn c = None \<or> c_closed c")
  case True
  then show ?thesis
    by (auto simp: Connection_getNextTimeout_def php_quic_connection_get_next_timeout_ms_def
        php_quic_connection_get_next_expiry_def split: option.splits)
next
  case False
  then obtain n where n: "c_conn c = Some n" "\<not> c_closed c" by auto
  define now where "now = c_hrtime c (c_reads c)"
  define expiry where "expiry = ngtcp2_conn_get_expiry L n"
  have r: "fst (Connection_getNextTimeout L c) =
      Some (if expiry \<le> now then 0 else (expiry - now) div 1000000)"
    using n assms by (simp add: Connection_getNextTimeout_def php_quic_connection_get_next_timeout_ms_def
        php_quic_connection_get_next_expiry_def now_def expiry_def)
  have none: "fst (Connection_getNextTimeout L c) = Some ((- 1 - now) div 1000000)" if "expiry = - 1" "now \<noteq> - 1"
    using r that by (simp add: word_order.extremum_unique)
  show ?thesis
  proof (cases "expiry \<le> now")
    case True
    then show ?thesis using r n none by (simp add: Let_def now_def expiry_def word_le_nat_alt)
  next
    case False
    let ?t = "(expiry - now) div 1000000 :: u64"
    have t: "unat ?t = (unat expiry - unat now) div 1000000"
      using False by (simp add: unat_div unat_sub word_le_nat_alt)
    have "unat expiry < 2 ^ LENGTH(64)" by (rule unsigned_less)
    then have "unat ?t < 2 ^ 63" unfolding t by simp
    then have "0 \<le> sint ?t" by (rule sint_nonneg)
    moreover have "unat now + unat ?t * 1000000 \<le> unat expiry \<and>
        unat expiry < unat now + (unat ?t + 1) * 1000000"
      using False unfolding t word_le_nat_alt by (intro rounded_down) simp_all
    moreover have "\<not> unat expiry \<le> unat now" using False by (simp add: word_le_nat_alt)
    ultimately show ?thesis using r n False none by (simp add: Let_def now_def[symmetric] expiry_def[symmetric])
  qed
qed

theorem next_timeout_bounds_witness:
  "\<exists>t. fst (Connection_getNextTimeout sample_ngtcp2 sample_connection) = Some t \<and> 0 \<le> sint t \<and>
     unat t * 1000000 \<le> 5000000"
proof -
  have "c_hrtime sample_connection (c_reads sample_connection) = 0"
    by (simp add: sample_connection_def php_quic_connection_create_object_def)
  with next_timeout_bounds[of sample_ngtcp2 sample_connection] show ?thesis
    by (auto simp: Let_def split: option.splits if_splits)
qed

subsection \<open>Draining events\<close>

text \<open>
  \<^verbatim>\<open>drainEvents\<close> returns every queued event, oldest first, as its PHP object, leaves
  the queue empty (a second call returns nothing) and changes nothing else.
\<close>

theorem drainEvents_all:
  assumes "conn_wf c"
  shows "let (events, c') = Connection_drainEvents c in
    events = map php_quic_event_create_from_native (queue_list (c_events c)) \<and>
    fst (Connection_drainEvents c') = [] \<and> c' = c\<lparr>c_events := c_events c'\<rparr> \<and> conn_wf c'"
proof -
  obtain events queue where d: "drain_event_queue (c_events c) = (events, queue)" by fastforce
  have q: "queue_wf (c_events c)" using assms by (simp add: conn_wf_def)
  note 1 = drain_event_queue_list[OF q, unfolded d fst_conv snd_conv]
  then have "fst (drain_event_queue queue) = []" using drain_event_queue_list[of queue] by simp
  with 1 drainEvents_op[OF assms] show ?thesis
    by (cases "drain_event_queue queue") (simp add: Connection_drainEvents_def d)
qed

theorem drainEvents_all_witness:
  "let c = php_quic_connection_push_event sample_connection PHP_QUIC_EVENT_STREAM_OPENED 4 0 True None
   in conn_wf c \<and> length (fst (Connection_drainEvents c)) = 1"
proof -
  let ?c = "php_quic_connection_push_event sample_connection PHP_QUIC_EVENT_STREAM_OPENED 4 0 True None"
  have wf: "conn_wf ?c" by (rule push_event_wf[OF sample_connection_wf])
  have q: "queue_wf (c_events sample_connection)" using sample_connection_wf by (simp add: conn_wf_def)
  have "queue_list (c_events sample_connection) = []"
    by (simp add: sample_connection_def php_quic_connection_create_object_def event_queue.items_init)
  then have "length (queue_list (c_events ?c)) = 1" using push_event_list[OF q] by simp
  with drainEvents_all[OF wf] wf show ?thesis by (simp add: Let_def split: prod.splits)
qed

subsection \<open>Closing\<close>

text \<open>
  C29. The first \<^verbatim>\<open>close\<close> marks the connection closed, records the application's error
  code and reason for the close packet, and reports the closing exactly once: a
  CONNECTION_CLOSED event with that code, not by the peer, with the reason up to its first NUL,
  unless a closing was already reported. Every further \<^verbatim>\<open>close\<close> changes nothing. Streams
  are left alone.
\<close>

theorem close_once:
  assumes "conn_wf c" and "\<not> c_close_requested c"
  shows "let c' = Connection_close L code reason c in
    Connection_isClosed c' \<and> c_close_requested c' \<and>
    Connection_close L code2 reason2 c' = c' \<and>
    c_last_error c' = ngtcp2_ccerr_set_application_error L code (case reason of None \<Rightarrow> '''' | Some r \<Rightarrow> r) \<and>
    c_streams c' = c_streams c \<and>
    map (\<lambda>ev. (ev_type ev, ev_stream_id ev, ev_error_code ev, ev_by_peer ev, ev_reason ev)) (queue_list (c_events c')) =
      map (\<lambda>ev. (ev_type ev, ev_stream_id ev, ev_error_code ev, ev_by_peer ev, ev_reason ev)) (queue_list (c_events c)) @
      (if Connection_isClosed c then []
       else [(PHP_QUIC_EVENT_CONNECTION_CLOSED, -1, code, False, map_option cstr reason)])"
proof -
  have "queue_wf (c_events c)" "c_close_event_emitted c \<longleftrightarrow> c_closed c"
    using assms(1) by (auto simp: conn_wf_def flags_wf_def)
  with assms(2) show ?thesis
    by (auto simp: Connection_close_def Connection_isClosed_def Let_def push_event_list split: option.split)
qed

theorem close_once_witness:
  "let c' = Connection_close sample_ngtcp2 7 (Some ''bye'') sample_connection
   in Connection_isClosed c' \<and> Connection_close sample_ngtcp2 8 None c' = c'"
  using close_once[OF sample_connection_wf, of sample_ngtcp2 7 "Some ''bye''" 8 None]
  by (simp add: Let_def)

subsection \<open>Opening streams\<close>

text \<open>
  The number the next local stream gets: the one after the last, or the first of the type (0 or 2
  for a client, 1 or 3 for a server) when the stored one is not of it.
\<close>

definition next_local_id :: "bool \<Rightarrow> bool \<Rightarrow> i64 \<Rightarrow> i64" where
  "next_local_id server bidi stored =
     (let first = (if server then 1 else 0) + (if bidi then 0 else 2)
      in if sint first \<le> sint stored \<and> stored AND 3 = first then stored else first)"

definition stored_id :: "bool \<Rightarrow> 'c php_quic_connection \<Rightarrow> i64" where
  "stored_id bidi c = (if bidi then c_next_bidi_stream_id c else c_next_uni_stream_id c)"

lemma ensure_next_id:
  assumes "c_conn c = Some n"
  shows "stored_id bidi (php_quic_connection_ensure_next_stream_id L c bidi) =
    next_local_id (ngtcp2_conn_is_server L n) bidi (stored_id bidi c)"
  using assms
  by (auto simp: php_quic_connection_ensure_next_stream_id_def next_local_id_def stored_id_def Let_def not_less)

lemma open_entry_ids: "stored_id b (snd (php_quic_connection_open_stream_entry c sid)) = stored_id b c"
  by (simp add: php_quic_connection_open_stream_entry_def stored_id_def Let_def put_stream_entry_def split: option.splits)

lemma open_entry_others:
  assumes "php_quic_connection_open_stream_entry c sid = (entry, c')" "k \<noteq> sid"
  shows "zend_hash_find (c_streams c') k = zend_hash_find (c_streams c) k"
  using assms by (auto simp: php_quic_connection_open_stream_entry_def Let_def put_entry_find split: option.splits)

text \<open>
  C28. \<^verbatim>\<open>openStream\<close> and \<^verbatim>\<open>openUniStream\<close> on an open connection. When the library opens a
  stream they return that stream, and the next local id moves past it. When the library has no stream
  id to give yet they return the next local id (\<open>next_local_id\<close>: of the client's or the server's
  type, four after the last), the stream's opening stays pending, and the next local id advances by
  four. Either way the stream is known to the connection and writable, no other stream changes, and
  exactly STREAM_OPENED and STREAM_WRITABLE are queued for it. Any other error throws and leaves
  streams, ids and events alone.
\<close>

theorem openStream_result:
  assumes c: "conn_wf c" "\<not> c_closed c" "c_conn c = Some n"
    and o: "(if bidi then ngtcp2_conn_open_bidi_stream L n else ngtcp2_conn_open_uni_stream L n) = (rv, oid, n1)"
  shows "let (r, c') = (if bidi then Connection_openStream L this c else Connection_openUniStream L this c);
      next = next_local_id (ngtcp2_conn_is_server L n1) bidi (stored_id bidi c);
      events = (\<lambda>c. map (\<lambda>ev. (ev_type ev, ev_stream_id ev)) (queue_list (c_events c))) in
    case r of
      Inl e \<Rightarrow> (\<exists>err. rv = Some err \<and> err \<noteq> NGTCP2_ERR_STREAM_ID_BLOCKED \<and>
        e = Call_failed (if bidi then ''ngtcp2_conn_open_bidi_stream'' else ''ngtcp2_conn_open_uni_stream'') err) \<and>
        events c' = events c \<and> c_streams c' = c_streams c \<and> stored_id bidi c' = stored_id bidi c
    | Inr stream \<Rightarrow>
        st_connection stream = Some this \<and>
        (case rv of
           None \<Rightarrow> st_stream_id stream = oid \<and>
             stored_id bidi c' = (if sint oid \<ge> sint next then oid + 4 else next)
         | Some err \<Rightarrow> err = NGTCP2_ERR_STREAM_ID_BLOCKED \<and> st_stream_id stream = next \<and>
             stored_id bidi c' = next + 4) \<and>
        stored_id (\<not> bidi) c' = stored_id (\<not> bidi) c \<and>
        (\<exists>entry. zend_hash_find (c_streams c') (st_stream_id stream) = Some entry \<and>
           se_writable entry \<and> (se_pending_open entry \<longleftrightarrow> rv \<noteq> None)) \<and>
        (\<forall>k. k \<noteq> st_stream_id stream \<longrightarrow> zend_hash_find (c_streams c') k = zend_hash_find (c_streams c) k) \<and>
        events c' = events c @ [(PHP_QUIC_EVENT_STREAM_OPENED, st_stream_id stream),
                                (PHP_QUIC_EVENT_STREAM_WRITABLE, st_stream_id stream)]"
proof (cases "rv \<noteq> None \<and> rv \<noteq> Some NGTCP2_ERR_STREAM_ID_BLOCKED")
  case True
  with c o show ?thesis
    by (auto simp: Connection_openStream_def Connection_openUniStream_def open_local_stream_def stored_id_def
        split: if_splits)
next
  case False
  let ?c1 = "c\<lparr>c_conn := Some n1\<rparr>"
  define open_fn where "open_fn = (if bidi then ngtcp2_conn_open_bidi_stream L else ngtcp2_conn_open_uni_stream L)"
  define ctx where "ctx = (if bidi then ''ngtcp2_conn_open_bidi_stream'' else ''ngtcp2_conn_open_uni_stream'')"
  have o': "open_fn n = (rv, oid, n1)" using o by (simp add: open_fn_def split: if_splits)
  have call: "(if bidi then Connection_openStream L this c else Connection_openUniStream L this c) =
      open_local_stream L bidi ctx open_fn this c"
    by (simp add: Connection_openStream_def Connection_openUniStream_def open_fn_def ctx_def)
  define c2 where "c2 = php_quic_connection_ensure_next_stream_id L ?c1 bidi"
  define nxt where "nxt = next_local_id (ngtcp2_conn_is_server L n1) bidi (stored_id bidi c)"
  have nxt: "stored_id bidi c2 = nxt"
    using ensure_next_id[of ?c1 n1 bidi L] by (simp add: nxt_def c2_def stored_id_def)
  define blocked where "blocked \<longleftrightarrow> rv = Some NGTCP2_ERR_STREAM_ID_BLOCKED"
  define sid where "sid = (if blocked then nxt else oid)"
  define after where "after = (if blocked then nxt + 4 else if sint oid \<ge> sint nxt then oid + 4 else nxt)"
  define c3 where "c3 = (if bidi then c2\<lparr>c_next_bidi_stream_id := after\<rparr> else c2\<lparr>c_next_uni_stream_id := after\<rparr>)"
  obtain entry c4 where e: "php_quic_connection_open_stream_entry c3 sid = (entry, c4)" by fastforce
  define c5 where "c5 = put_stream_entry c4 sid (entry\<lparr>se_pending_open := blocked, se_writable := True\<rparr>)"
  have r: "open_local_stream L bidi ctx open_fn this c = (Inr (php_quic_stream_create this sid),
      php_quic_connection_push_event (php_quic_connection_push_event c5 PHP_QUIC_EVENT_STREAM_OPENED sid 0 False None)
        PHP_QUIC_EVENT_STREAM_WRITABLE sid 0 False None)"
    unfolding open_local_stream_def using False
    by (simp only: c o' if_False if_True option.case prod.case Let_def c2_def[symmetric] stored_id_def[symmetric] nxt
        blocked_def[symmetric] sid_def[symmetric] after_def[symmetric] c3_def[symmetric] e c5_def[symmetric])
  have c4: "c_events c4 = c_events c3" "stored_id b c4 = stored_id b c3" for b
    using open_stream_entry_frame(2)[of c3 sid] open_entry_ids[of b c3 sid] unfolding e by simp_all
  have ids: "stored_id bidi c5 = after" "stored_id (\<not> bidi) c5 = stored_id (\<not> bidi) c"
    using c4(2)[of True] c4(2)[of False] by (simp_all add: c5_def stored_id_def c3_def c2_def php_quic_connection_ensure_next_stream_id_def Let_def)
  have events: "c_events c5 = c_events c" using c4(1) by (simp add: c5_def c3_def c2_def)
  have others: "zend_hash_find (c_streams c5) k = zend_hash_find (c_streams c) k" if "k \<noteq> sid" for k
    using open_entry_others[OF e that] that by (simp add: c5_def put_entry_find c3_def c2_def)
  have put: "zend_hash_find (c_streams c5) sid = Some (entry\<lparr>se_pending_open := blocked, se_writable := True\<rparr>)"
    by (simp add: c5_def put_entry_find)
  have "queue_wf (c_events c)" using c by (simp add: conn_wf_def)
  then show ?thesis
    unfolding call r nxt_def[symmetric] using False ids events others put
    by (auto simp: push_event_list push_event_queue_wf blocked_def sid_def after_def stored_id_def
        php_quic_stream_create_def split: option.split)
qed

theorem openStream_result_witness:
  "let (r, c') = Connection_openStream sample_ngtcp2 5 sample_connection
   in r = Inr (php_quic_stream_create 5 0) \<and> c_next_bidi_stream_id c' = 4"
proof -
  have o: "(if True then ngtcp2_conn_open_bidi_stream sample_ngtcp2 (8, [])
      else ngtcp2_conn_open_uni_stream sample_ngtcp2 (8, [])) = (None, 0, (8, []))" by simp
  have "stored_id True sample_connection = 0" by (simp add: stored_id_def sample_connection_def php_quic_connection_create_object_def)
  note * = openStream_result[OF sample_connection_wf _ _ o, of 5, unfolded this]
  show ?thesis using *
    by (auto simp: Let_def stored_id_def next_local_id_def php_quic_stream_create_def
        php_quic_stream_create_object_def split: prod.splits sum.splits)
qed

subsection \<open>Behaviours a caller has to know about\<close>

text \<open>
  An acknowledgement after \<^verbatim>\<open>end()\<close> makes a stream report itself writable although
  every write throws: the callback looks at \<^verbatim>\<open>fin_sent\<close> but not at
  \<^verbatim>\<open>fin_pending\<close>.
\<close>

theorem acked_reports_ended_stream_writable:
  assumes "php_quic_stream_resolve_entry objs stream = Some (h, c, entry)"
    and "se_fin_pending entry" "\<not> se_fin_sent entry" "\<not> se_closed entry" "\<not> se_reset entry"
  shows "let objs' = objs(h \<mapsto> php_quic_acked_stream_data_offset_cb (st_stream_id stream) c)
    in Stream_isWritable stream objs' \<and> \<not> is_ok (fst (Stream_write L stream data objs'))"
proof -
  let ?sid = "st_stream_id stream"
  note r = resolve_entry_Some[OF assms(1)]
  let ?c' = "php_quic_acked_stream_data_offset_cb ?sid c"
  obtain entry' where e: "zend_hash_find (c_streams ?c') ?sid = Some entry'"
    "se_writable entry'" "se_fin_pending entry'" "\<not> se_closed entry'"
    using r assms by (cases "se_writable entry") (simp_all add: php_quic_acked_stream_data_offset_cb_def
        php_quic_connection_get_stream_entry_def put_entry_find)
  have "php_quic_stream_resolve_entry (objs(h \<mapsto> ?c')) stream = Some (h, ?c', entry')"
    using r e by (simp add: php_quic_stream_resolve_entry_def php_quic_stream_resolve_connection_def
        php_quic_connection_get_stream_entry_def)
  with e show ?thesis by (simp add: Let_def Stream_isWritable_def Stream_write_def)
qed

text \<open>
  A stream that was numbered locally while the library had no id for it gets that id again from
  the library: two calls of \<^verbatim>\<open>openStream\<close> return the same stream.
\<close>

theorem blocked_open_reuses_id:
  assumes c: "conn_wf c" "\<not> c_closed c" "c_conn c = Some n"
    and first: "ngtcp2_conn_open_bidi_stream L n = (Some NGTCP2_ERR_STREAM_ID_BLOCKED, x, n1)"
    and fresh: "c_next_bidi_stream_id c = 0" "\<not> ngtcp2_conn_is_server L n1"
    and second: "ngtcp2_conn_open_bidi_stream L n1 = (None, 0, n2)"
  shows "let (r1, c1) = Connection_openStream L this c; (r2, c2) = Connection_openStream L this c1
    in r1 = Inr (php_quic_stream_create this 0) \<and> r2 = r1"
proof -
  let ?ca = "c\<lparr>c_conn := Some n1\<rparr>"
  have e: "php_quic_connection_ensure_next_stream_id L ?ca True = ?ca"
    using fresh by (simp add: php_quic_connection_ensure_next_stream_id_def)
  obtain entry c4 where o: "php_quic_connection_open_stream_entry (?ca\<lparr>c_next_bidi_stream_id := 4\<rparr>) 0 = (entry, c4)"
    by fastforce
  have c4: "c_conn c4 = Some n1" "c_closed c4 = c_closed c"
    using open_stream_entry_frame(1,3)[of "?ca\<lparr>c_next_bidi_stream_id := 4\<rparr>" 0] unfolding o by simp_all
  obtain r1 c1 where r1: "Connection_openStream L this c = (r1, c1)" by fastforce
  then have 1: "r1 = Inr (php_quic_stream_create this 0)" "c_conn c1 = Some n1" "\<not> c_closed c1"
    unfolding Connection_openStream_def open_local_stream_def
    using c first e fresh o c4 by (auto simp: Let_def)
  have 2: "fst (Connection_openStream L this c1) = Inr (php_quic_stream_create this 0)"
    unfolding Connection_openStream_def open_local_stream_def
    using 1 second by (simp add: Let_def split: prod.split)
  show ?thesis using r1 1(1) 2 by (cases "Connection_openStream L this c1") simp
qed

text \<open>
  C37. Head-of-line blocking. Take a well-formed connection with an open native connection, on
  which no close was requested and whose transmit buffers 64-bit offsets can count, and let the first
  stream that wants to send have its id already. Suppose the library reports that stream blocked by
  flow control whenever it is offered, in which case its own state does not change, and has nothing
  to send when it is offered no stream. Then \<^verbatim>\<open>drainOutgoingDatagrams\<close> returns nothing and
  every stream keeps its unsent bytes, whatever the library would accept of the other streams: the
  loop tries once more without stream data, and never offers another stream.
\<close>

theorem blocked_stream_starves_others:
  assumes c: "conn_wf c" "c_conn c = Some n" "\<not> c_close_requested c"
    and first: "php_quic_connection_pick_tx_stream c = (pick, c1)" "tp_entry pick = Some k"
      "\<And>entry. zend_hash_find (c_streams c) k = Some entry \<Longrightarrow> \<not> se_pending_open entry"
    and blocked: "\<And>flags datav now. ngtcp2_conn_writev_stream L n 1452 flags k datav now =
      (Inl NGTCP2_ERR_STREAM_DATA_BLOCKED, -1, [], n)"
    and idle: "\<And>flags now. ngtcp2_conn_writev_stream L n 1452 flags (-1) None now = (Inr '''', -1, [], n)"
    and fits: "tx_fits c"
  shows "\<exists>c'. Connection_drainOutgoingDatagrams L c = Some (Inr [], c') \<and>
    (\<forall>sid. stream_unsent c' sid = stream_unsent c sid)"
proof -
  let ?s = "\<lparr>ds_c = c, ds_out = [], ds_emitted = 0, ds_force = False\<rparr>"
  obtain entry where e: "zend_hash_find (c_streams c) k = Some entry" "tp_stream_id pick = k"
    "c1 = put_stream_entry c k entry"
    using pick_tx_stream_Some[OF c(1) first(1,2)] by metis
  have c1: "conn_wf c1" "tx_view c1 = tx_view c" "c_conn c1 = Some n"
    using pick_offer_data[OF c(1) first(1)] c(2) by simp_all
  have open1: "drain_open_pending L pick c1 = (Inr pick, c1)"
    using first(2,3) e c1 by (simp add: drain_open_pending_def put_entry_find)
  define c2 where "c2 = php_quic_connection_update_tx_entry
    (c1\<lparr>c_reads := Suc (c_reads c1), c_conn := Some n\<rparr>) (Some k) (-1) (tp_fin pick) False"
  have wf2: "conn_wf (c1\<lparr>c_reads := Suc (c_reads c1), c_conn := Some n\<rparr>)" using c1(1) by simp
  have "tx_fits (c1\<lparr>c_reads := Suc (c_reads c1), c_conn := Some n\<rparr>)"
    using fits c1(2) by (simp add: tx_fits_def)
  from update_tx_view[OF wf2 this, of "-1" k] have v2: "fst (tx_view c2 j) = fst (tx_view c j)" for j
    using c1(2) by (simp add: c2_def)
  have step1: "drain_step L ?s = Inl (?s\<lparr>ds_c := c2, ds_force := True\<rparr>)"
    using first(1,2) e(2) open1 c1(3) blocked
    by (simp add: drain_step_def drain_write_def Let_def c2_def)
  have n2: "c_conn c2 = Some n" by (simp add: c2_def)
  obtain c3 where step2: "drain_step L (?s\<lparr>ds_c := c2, ds_force := True\<rparr>) =
      Inr (Inr (), ?s\<lparr>ds_c := c3\<rparr>)" "tx_view c3 = tx_view c2"
    using n2 idle by (simp add: drain_step_def drain_open_pending_def no_tx_pick_def drain_write_def
        Let_def php_quic_connection_update_tx_entry_def)
  have "drain_loop L ?s = Some (Inr (), ?s\<lparr>ds_c := c3\<rparr>)"
    by (subst drain_loop.simps, simp only: step1 sum.case, subst drain_loop.simps) (simp only: step2 sum.case)
  with c(2,3) have "Connection_drainOutgoingDatagrams L c = Some (Inr [], php_quic_connection_sync_state L c3)"
    by (simp add: Connection_drainOutgoingDatagrams_def)
  then show ?thesis using v2 step2(2) by (auto simp: stream_unsent_view)
qed

text \<open>Two streams with data over a library that blocks every stream.\<close>

definition blocking_ngtcp2 :: "sample_conn ngtcp2" where
  "blocking_ngtcp2 = sample_ngtcp2\<lparr>ngtcp2_conn_writev_stream := (\<lambda>n buflen flags sid datav now.
     if sid = -1 then (Inr '''', -1, [], n) else (Inl NGTCP2_ERR_STREAM_DATA_BLOCKED, -1, [], n))\<rparr>"

definition blocked_connection :: "sample_conn php_quic_connection" where
  "blocked_connection = put_stream_entry
     (put_stream_entry sample_connection 0 ((php_quic_stream_entry_alloc 0)\<lparr>se_tx_buffer := Some ''hello''\<rparr>))
     4 ((php_quic_stream_entry_alloc 4)\<lparr>se_tx_buffer := Some ''world''\<rparr>)"

lemma blocked_connection_pick:
  "tp_entry (fst (php_quic_connection_pick_tx_stream blocked_connection)) = Some 0"
  by code_simp

theorem blocked_stream_starves_others_witness:
  "\<exists>c'. Connection_drainOutgoingDatagrams blocking_ngtcp2 blocked_connection = Some (Inr [], c') \<and>
    stream_unsent c' 4 = ''world''"
proof -
  obtain pick c1 where p: "php_quic_connection_pick_tx_stream blocked_connection = (pick, c1)" by fastforce
  have wf: "conn_wf blocked_connection" unfolding blocked_connection_def
    by (intro put_entry_wf sample_connection_wf) (simp_all add: entry_wf_def php_quic_stream_entry_alloc_def)
  have k: "tp_entry pick = Some 0" using blocked_connection_pick by (simp add: p)
  have v: "tx_view blocked_connection sid = (if sid = 4 then (''world'', 5) else if sid = 0 then (''hello'', 5) else ('''', 0))" for sid
    by (simp add: blocked_connection_def tx_view_put unsent_def php_quic_stream_entry_alloc_def) (simp add: tx_view_def)
  then have fits: "tx_fits blocked_connection" by (simp add: tx_fits_def)
  have c: "c_conn blocked_connection = Some (8, [])" "\<not> c_close_requested blocked_connection"
    by (simp_all add: blocked_connection_def)
  have open0: "\<not> se_pending_open entry" if "zend_hash_find (c_streams blocked_connection) 0 = Some entry" for entry
    using that by (auto simp: blocked_connection_def put_entry_find php_quic_stream_entry_alloc_def)
  have "\<exists>c'. Connection_drainOutgoingDatagrams blocking_ngtcp2 blocked_connection = Some (Inr [], c') \<and>
      (\<forall>sid. stream_unsent c' sid = stream_unsent blocked_connection sid)"
    by (rule blocked_stream_starves_others[OF wf c p k open0 _ _ fits]) (simp_all add: blocking_ngtcp2_def)
  with v[of 4] show ?thesis by (auto simp: stream_unsent_view)
qed

end
