(* ===== verification/Quic_Event_Log.thy ===== *)
theory Quic_Event_Log
  imports Quic_Method_Props
begin

text \<open>
  Which events an operation of a connection adds to its queue: \<open>event_step\<close> says that it
  appends (never removes or reorders), and that CONNECTION_CLOSED, CONNECTION_DRAINING and
  HANDSHAKE_COMPLETED are appended exactly when the flag they announce is raised. The operations
  that satisfy it, on top of keeping the invariant, are interpretations of \<open>event_operation\<close>.
\<close>

definition count_type :: "u32 \<Rightarrow> php_quic_event list \<Rightarrow> nat" where
  "count_type t es = length (filter (\<lambda>e. ev_type e = t) es)"

definition raised :: "bool \<Rightarrow> bool \<Rightarrow> nat" where
  "raised old new = (if \<not> old \<and> new then 1 else 0)"

definition event_step :: "'c php_quic_connection \<Rightarrow> 'c php_quic_connection \<Rightarrow> bool" where
  "event_step c c' \<longleftrightarrow>
     (c_closed c \<longrightarrow> c_closed c') \<and> (c_draining c \<longrightarrow> c_draining c') \<and> (c_established c \<longrightarrow> c_established c') \<and>
     (\<exists>new. queue_list (c_events c') = queue_list (c_events c) @ new \<and>
       count_type PHP_QUIC_EVENT_CONNECTION_CLOSED new = raised (c_closed c) (c_closed c') \<and>
       count_type PHP_QUIC_EVENT_CONNECTION_DRAINING new = raised (c_draining c) (c_draining c') \<and>
       count_type PHP_QUIC_EVENT_HANDSHAKE_COMPLETED new = raised (c_established c) (c_established c'))"

lemma count_type_simps [simp]:
  "count_type t [] = 0"
  "count_type t (e # es) = (if ev_type e = t then Suc (count_type t es) else count_type t es)"
  "count_type t (es @ es') = count_type t es + count_type t es'"
  by (simp_all add: count_type_def)

lemma raised_same [simp]: "raised b b = 0"
  by (simp add: raised_def)

lemma raised_trans: "(a \<longrightarrow> b) \<Longrightarrow> (b \<longrightarrow> c) \<Longrightarrow> raised a b + raised b c = raised a c"
  by (auto simp: raised_def)

lemma event_step_refl [simp]: "event_step c c"
  by (simp add: event_step_def)

lemma event_step_trans:
  assumes "event_step a b" "event_step b c"
  shows "event_step a c"
proof -
  from assms obtain n1 n2 where
    n1: "queue_list (c_events b) = queue_list (c_events a) @ n1"
      "count_type PHP_QUIC_EVENT_CONNECTION_CLOSED n1 = raised (c_closed a) (c_closed b)"
      "count_type PHP_QUIC_EVENT_CONNECTION_DRAINING n1 = raised (c_draining a) (c_draining b)"
      "count_type PHP_QUIC_EVENT_HANDSHAKE_COMPLETED n1 = raised (c_established a) (c_established b)" and
    n2: "queue_list (c_events c) = queue_list (c_events b) @ n2"
      "count_type PHP_QUIC_EVENT_CONNECTION_CLOSED n2 = raised (c_closed b) (c_closed c)"
      "count_type PHP_QUIC_EVENT_CONNECTION_DRAINING n2 = raised (c_draining b) (c_draining c)"
      "count_type PHP_QUIC_EVENT_HANDSHAKE_COMPLETED n2 = raised (c_established b) (c_established c)"
    unfolding event_step_def by blast
  have m: "c_closed a \<longrightarrow> c_closed b" "c_closed b \<longrightarrow> c_closed c" "c_draining a \<longrightarrow> c_draining b"
    "c_draining b \<longrightarrow> c_draining c" "c_established a \<longrightarrow> c_established b" "c_established b \<longrightarrow> c_established c"
    using assms by (simp_all add: event_step_def)
  have "queue_list (c_events c) = queue_list (c_events a) @ (n1 @ n2)" using n1(1) n2(1) by simp
  moreover have "count_type PHP_QUIC_EVENT_CONNECTION_CLOSED (n1 @ n2) = raised (c_closed a) (c_closed c)"
    using n1(2) n2(2) raised_trans[OF m(1,2)] by simp
  moreover have "count_type PHP_QUIC_EVENT_CONNECTION_DRAINING (n1 @ n2) = raised (c_draining a) (c_draining c)"
    using n1(3) n2(3) raised_trans[OF m(3,4)] by simp
  moreover have "count_type PHP_QUIC_EVENT_HANDSHAKE_COMPLETED (n1 @ n2) = raised (c_established a) (c_established c)"
    using n1(4) n2(4) raised_trans[OF m(5,6)] by simp
  ultimately show ?thesis unfolding event_step_def using m by blast
qed

text \<open>What the events of an operation depend on.\<close>

definition same_events :: "'c php_quic_connection \<Rightarrow> 'c php_quic_connection \<Rightarrow> bool" where
  "same_events c c' \<longleftrightarrow> c_events c' = c_events c \<and> c_closed c' = c_closed c \<and>
     c_draining c' = c_draining c \<and> c_established c' = c_established c"

lemma same_events_step: "same_events c c' \<Longrightarrow> event_step c c'"
  by (simp add: same_events_def event_step_def)

lemma same_events_frame [frame, simp]:
  "same_events c c"
  "same_events c (put_stream_entry d k e) = same_events c d"
  "same_events c (d\<lparr>c_conn := n\<rparr>) = same_events c d"
  "same_events c (d\<lparr>c_reads := i\<rparr>) = same_events c d"
  "same_events c (d\<lparr>c_last_error := le\<rparr>) = same_events c d"
  "same_events c (d\<lparr>c_close_packet_sent := b\<rparr>) = same_events c d"
  "same_events c (d\<lparr>c_next_bidi_stream_id := i'\<rparr>) = same_events c d"
  "same_events c (d\<lparr>c_next_uni_stream_id := i'\<rparr>) = same_events c d"
  by (simp_all add: same_events_def)

lemma same_events_trans: "same_events a b \<Longrightarrow> same_events b c \<Longrightarrow> same_events a c"
  by (simp add: same_events_def)

lemma open_entry_same_events:
  "php_quic_connection_open_stream_entry c sid = (entry, c1) \<Longrightarrow> same_events c c1"
  by (auto simp: php_quic_connection_open_stream_entry_def Let_def split: option.splits)

text \<open>The three announcing event types, and pushing any other event.\<close>

definition announcing :: "u32 \<Rightarrow> bool" where
  "announcing t \<longleftrightarrow> t = PHP_QUIC_EVENT_CONNECTION_CLOSED \<or> t = PHP_QUIC_EVENT_CONNECTION_DRAINING \<or>
     t = PHP_QUIC_EVENT_HANDSHAKE_COMPLETED"

lemma not_announcing [simp]:
  "\<not> announcing PHP_QUIC_EVENT_STREAM_OPENED" "\<not> announcing PHP_QUIC_EVENT_STREAM_READABLE"
  "\<not> announcing PHP_QUIC_EVENT_STREAM_WRITABLE" "\<not> announcing PHP_QUIC_EVENT_STREAM_CLOSED"
  "\<not> announcing PHP_QUIC_EVENT_STREAM_RESET"
  by (simp_all add: announcing_def event_codes)

lemma push_event_step:
  assumes "same_events c d" "conn_wf c" "\<not> announcing t"
  shows "event_step c (php_quic_connection_push_event d t s e b r)"
proof -
  have "queue_wf (c_events d)" using assms by (simp add: same_events_def conn_wf_def)
  with assms show ?thesis by (auto simp: event_step_def same_events_def push_event_list announcing_def)
qed

locale event_operation = conn_operation f
  for f :: "'x \<Rightarrow> 'c php_quic_connection \<Rightarrow> 'c php_quic_connection" +
  assumes op_events: "conn_wf c \<Longrightarrow> event_step c (f x c)"
begin

lemma fold_events: "conn_wf c \<Longrightarrow> event_step c (fold f xs c)"
proof (induction xs arbitrary: c)
  case (Cons x xs)
  then have "event_step c (f x c)" "event_step (f x c) (fold f xs (f x c))"
    by (auto simp: op_wf op_events)
  then show ?case by (auto intro: event_step_trans)
qed simp

end

subsection \<open>Callbacks and the state synchronisation\<close>

lemma handshake_cb_events: "conn_wf c \<Longrightarrow> event_step c (php_quic_handshake_completed_cb c)"
  by (auto simp: php_quic_handshake_completed_cb_def event_step_def push_event_list conn_wf_def
      event_codes raised_def)

lemma invoke_callback_events:
  assumes c: "conn_wf c"
  shows "event_step c (invoke_callback L cb c)"
proof (cases cb)
  case Cb_handshake_completed
  then show ?thesis using handshake_cb_events[OF c] by simp
next
  case (Cb_recv_stream_data fl sid off d)
  obtain entry c1 where o: "php_quic_connection_open_stream_entry c sid = (entry, c1)" by fastforce
  have "event_step c (if newly then php_quic_connection_push_event (put_stream_entry c1 sid e)
        PHP_QUIC_EVENT_STREAM_READABLE sid 0 True None else put_stream_entry c1 sid e)" for newly e
    using open_entry_same_events[OF o] by (cases newly) (auto intro: push_event_step[OF _ c] same_events_step)
  then show ?thesis
    unfolding Cb_recv_stream_data invoke_callback_simps php_quic_recv_stream_data_cb_def o Let_def prod.case .
qed (auto simp: php_quic_stream_open_cb_def php_quic_stream_close_cb_def php_quic_stream_reset_cb_def
    php_quic_acked_stream_data_offset_cb_def Let_def c split: prod.split option.split
    intro!: push_event_step dest: open_entry_same_events)

interpretation callback_events: event_operation "invoke_callback L"
  by unfold_locales (rule invoke_callback_events)

lemma run_callbacks_events: "conn_wf c \<Longrightarrow> event_step c (run_callbacks L cbs c)"
  by (simp add: run_callbacks_def callback_events.fold_events)

lemma sync_state_events: "conn_wf c \<Longrightarrow> event_step c (php_quic_connection_sync_state L c)"
  by (auto simp: php_quic_connection_sync_state_def Let_def event_step_def push_event_list
      push_event_queue_wf conn_wf_def flags_wf_def event_codes raised_def split: option.split)

interpretation sync_state_events: event_operation "\<lambda>_ :: unit. php_quic_connection_sync_state L"
  by unfold_locales (rule sync_state_events)

end
