(* ===== verification/Quic_Machine.thy ===== *)
theory Quic_Machine
  imports Quic_Event_Log
begin

text \<open>
  A connection as a state machine: \<open>conn_step\<close> is one call of any method of the
  connection or of one of its streams by the application, \<open>conn_reach\<close> any sequence of calls,
  collecting the event objects that \<^verbatim>\<open>drainEvents\<close> returned. The library is any
  \<open>L\<close>, with any callbacks at any call that can make them.
\<close>

inductive conn_step ::
  "'c ngtcp2 \<Rightarrow> getaddrinfo \<Rightarrow> 'c php_quic_connection \<Rightarrow> php_quic_event_object list \<Rightarrow>
   'c php_quic_connection \<Rightarrow> bool" for L gai where
  cs_recv: "Connection_recv L gai datagram c = (r, c') \<Longrightarrow> conn_step L gai c [] c'"
| cs_timers: "php_quic_connection_handle_timers L c = (r, c') \<Longrightarrow> conn_step L gai c [] c'"
| cs_timeout: "Connection_getNextTimeout L c = (t, c') \<Longrightarrow> conn_step L gai c [] c'"
| cs_expiry: "Connection_getNextExpiry L tv c = (t, c') \<Longrightarrow> conn_step L gai c [] c'"
| cs_events: "Connection_drainEvents c = (events, c') \<Longrightarrow> conn_step L gai c events c'"
| cs_datagrams: "Connection_drainOutgoingDatagrams L c = Some (r, c') \<Longrightarrow> conn_step L gai c [] c'"
| cs_open: "Connection_openStream L h c = (s, c') \<Longrightarrow> conn_step L gai c [] c'"
| cs_open_uni: "Connection_openUniStream L h c = (s, c') \<Longrightarrow> conn_step L gai c [] c'"
| cs_close: "Connection_close L code reason c = c' \<Longrightarrow> conn_step L gai c [] c'"
| cs_read: "Stream_read (php_quic_stream_create h sid) len [h \<mapsto> c] = (chunk, objs) \<Longrightarrow>
    objs h = Some c' \<Longrightarrow> conn_step L gai c [] c'"
| cs_write: "Stream_write L (php_quic_stream_create h sid) data [h \<mapsto> c] = (n, objs) \<Longrightarrow>
    objs h = Some c' \<Longrightarrow> conn_step L gai c [] c'"
| cs_end: "Stream_end L (php_quic_stream_create h sid) final_data [h \<mapsto> c] = (u, objs) \<Longrightarrow>
    objs h = Some c' \<Longrightarrow> conn_step L gai c [] c'"
| cs_reset: "Stream_reset L (php_quic_stream_create h sid) code [h \<mapsto> c] = (u, objs) \<Longrightarrow>
    objs h = Some c' \<Longrightarrow> conn_step L gai c [] c'"

inductive conn_reach ::
  "'c ngtcp2 \<Rightarrow> getaddrinfo \<Rightarrow> 'c php_quic_connection \<Rightarrow> php_quic_event_object list \<Rightarrow>
   'c php_quic_connection \<Rightarrow> bool" for L gai c0 where
  reach_start: "conn_reach L gai c0 [] c0"
| reach_step: "conn_reach L gai c0 reported c \<Longrightarrow> conn_step L gai c events c' \<Longrightarrow>
    conn_reach L gai c0 (reported @ events) c'"

subsection \<open>What every call keeps\<close>

definition good_step :: "'c php_quic_connection \<Rightarrow> 'c php_quic_connection \<Rightarrow> bool" where
  "good_step c c' \<longleftrightarrow> conn_wf c' \<and> conn_progress c c' \<and> event_step c c'"

lemma good_stepI: "conn_wf c' \<and> conn_progress c c' \<Longrightarrow> event_step c c' \<Longrightarrow> good_step c c'"
  by (simp add: good_step_def)

lemma good_step_trans: "good_step a b \<Longrightarrow> good_step b c \<Longrightarrow> good_step a c"
  unfolding good_step_def by (auto intro: conn_progress_trans event_step_trans)

lemma library_call_events:
  assumes "conn_wf c"
  shows "event_step c (run_callbacks L cbs (c\<lparr>c_reads := Suc (c_reads c), c_conn := n\<rparr>))"
proof -
  have "event_step c (c\<lparr>c_reads := Suc (c_reads c), c_conn := n\<rparr>)" by (rule same_events_step) simp
  moreover have "conn_wf (c\<lparr>c_reads := Suc (c_reads c), c_conn := n\<rparr>)" using assms by simp
  ultimately show ?thesis using run_callbacks_events event_step_trans by blast
qed

lemma good_call:
  assumes "conn_wf c"
  shows "good_step c (run_callbacks L cbs (c\<lparr>c_reads := Suc (c_reads c), c_conn := n\<rparr>))"
  by (rule good_stepI[OF library_call_op[OF assms] library_call_events[OF assms]])

lemma good_sync: "good_step c d \<Longrightarrow> good_step c (php_quic_connection_sync_state L d)"
  unfolding good_step_def
  using sync_state_wf sync_state_progress sync_state_events conn_progress_trans event_step_trans by blast

lemma good_last_error [simp]: "good_step c (d\<lparr>c_last_error := e\<rparr>) = good_step c d"
  by (simp add: good_step_def event_step_def)

lemma good_refl: "conn_wf c \<Longrightarrow> good_step c c"
  by (simp add: good_step_def)

lemma handle_timers_good: "conn_wf c \<Longrightarrow> good_step c (snd (php_quic_connection_handle_timers L c))"
  using good_call good_sync[OF good_call]
  by (auto simp: php_quic_connection_handle_timers_def Let_def good_refl split: option.split prod.split)

lemma recv_good: "conn_wf c \<Longrightarrow> good_step c (snd (Connection_recv L gai datagram c))"
  using good_call good_sync[OF good_call]
  by (auto simp: Connection_recv_def Let_def good_refl split: option.split prod.split)

lemma get_next_timeout_good: "conn_wf c \<Longrightarrow> good_step c (snd (php_quic_connection_get_next_timeout_ms L c))"
  by (rule good_stepI[OF get_next_timeout_op])
     (auto simp: php_quic_connection_get_next_timeout_ms_def php_quic_connection_get_next_expiry_def
        Let_def event_step_def split: option.split)

lemma getNextExpiry_good: "conn_wf c \<Longrightarrow> good_step c (snd (Connection_getNextExpiry L tv c))"
  using get_next_timeout_good[of c L]
  by (auto simp: Connection_getNextExpiry_def Let_def split: option.split prod.split)

lemma open_local_stream_good:
  assumes c: "conn_wf c"
  shows "good_step c (snd (open_local_stream L bidi context open_fn this c))"
proof (rule good_stepI[OF open_local_stream_op[OF c]])
  have push: "event_step c (php_quic_connection_push_event (php_quic_connection_push_event d t1 s1 e1 b1 r1) t2 s2 e2 b2 r2)"
    if "same_events c d" "\<not> announcing t1" "\<not> announcing t2" "conn_wf (php_quic_connection_push_event d t1 s1 e1 b1 r1)"
    for d t1 s1 e1 b1 r1 t2 s2 e2 b2 r2
    using push_event_step[OF that(1) c that(2)] push_event_step[OF same_events_frame(1) that(4,3)] event_step_trans
    by blast
  have wf: "conn_wf d \<Longrightarrow> conn_wf (php_quic_connection_push_event d t s e b r)" for d t s e b r
    by (rule push_event_wf)
  have ensure: "same_events d (php_quic_connection_ensure_next_stream_id L d bidi)" for d
    by (simp add: php_quic_connection_ensure_next_stream_id_def Let_def)
  show "event_step c (snd (open_local_stream L bidi context open_fn this c))"
  proof (cases "c_closed c \<or> c_conn c = None")
    case False
    then obtain n where n: "\<not> c_closed c" "c_conn c = Some n" by auto
    obtain rv oid n1 where o: "open_fn n = (rv, oid, n1)" by (metis prod_cases3)
    let ?c1 = "c\<lparr>c_conn := Some n1\<rparr>"
    define c2 where "c2 = php_quic_connection_ensure_next_stream_id L ?c1 bidi"
    define nxt where "nxt = (if bidi then c_next_bidi_stream_id c2 else c_next_uni_stream_id c2)"
    define blocked where "blocked \<longleftrightarrow> rv = Some NGTCP2_ERR_STREAM_ID_BLOCKED"
    define sid where "sid = (if blocked then nxt else oid)"
    define nxt' where "nxt' = (if blocked then nxt + 4 else if sint oid \<ge> sint nxt then oid + 4 else nxt)"
    define c3 where "c3 = (if bidi then c2\<lparr>c_next_bidi_stream_id := nxt'\<rparr> else c2\<lparr>c_next_uni_stream_id := nxt'\<rparr>)"
    obtain entry c4 where e: "php_quic_connection_open_stream_entry c3 sid = (entry, c4)" by fastforce
    define c5 where "c5 = put_stream_entry c4 sid (entry\<lparr>se_pending_open := blocked, se_writable := True\<rparr>)"
    have "same_events c c3" using ensure[of ?c1] by (auto simp: c3_def c2_def same_events_def)
    then have s5: "same_events c c5" using open_entry_same_events[OF e] by (auto simp: c5_def same_events_def)
    have "conn_wf c2" using ensure_next_op[of ?c1 L bidi] c by (simp add: c2_def)
    then have "conn_wf c3" by (simp add: c3_def)
    then have "conn_wf c5" using put_opened_wf[OF _ e] opened_entry_wf[OF _ e] by (simp add: c5_def)
    from push[OF s5 _ _ wf[OF this]] show ?thesis
      using n o same_events_step[of c ?c1] unfolding open_local_stream_def Let_def
      by (cases "rv \<noteq> None \<and> rv \<noteq> Some NGTCP2_ERR_STREAM_ID_BLOCKED")
         (simp_all only: n o option.case if_False if_True prod.case c2_def[symmetric] nxt_def[symmetric]
          blocked_def[symmetric] sid_def[symmetric] nxt'_def[symmetric] c3_def[symmetric] e c5_def[symmetric]
          snd_conv not_announcing not_False_eq_True same_events_frame simp_thms)
  qed (auto simp: open_local_stream_def)
qed

lemma close_good:
  assumes "conn_wf c"
  shows "good_step c (Connection_close L code reason c)"
proof (rule good_stepI[OF close_op[OF assms]])
  show "event_step c (Connection_close L code reason c)"
    using assms by (auto simp: Connection_close_def Let_def event_step_def push_event_list conn_wf_def
        flags_wf_def event_codes raised_def split: option.split)
qed

subsection \<open>Stream methods\<close>

lemma resolve_single:
  "php_quic_stream_resolve_entry [h \<mapsto> c] (php_quic_stream_create h sid) =
     map_option (\<lambda>entry. (h, c, entry)) (zend_hash_find (c_streams c) sid)"
  by (simp add: php_quic_stream_resolve_entry_def php_quic_stream_resolve_connection_def
      php_quic_stream_create_def php_quic_connection_get_stream_entry_def split: option.split)

lemma put_entry_good:
  assumes "conn_wf c" "zend_hash_find (c_streams c) sid = Some entry" "entry_wf e" "entry_progress entry e"
  shows "good_step c (put_stream_entry c sid e)"
proof (rule good_stepI)
  have "se_stream_id e = sid" using assms(4) conn_wf_find[OF assms(1,2)] by (simp add: entry_progress_def)
  with assms show "conn_wf (put_stream_entry c sid e) \<and> conn_progress c (put_stream_entry c sid e)"
    by (auto intro!: put_entry_wf put_entry_progress)
qed (simp add: same_events_step)

lemma objs_wf_single: "conn_wf c \<Longrightarrow> objects_wf [h \<mapsto> c]"
  by (simp add: objects_wf_def)

lemma read_entry_wf:
  assumes "entry_wf entry" "php_quic_buffer_read (se_rx_buffer entry) n = (chunk, rx)"
  shows "entry_wf (entry\<lparr>se_rx_buffer := rx, se_readable := (0 < length (buffer_bytes rx))\<rparr>)"
proof -
  have "rx \<noteq> None" using assms buffer_read_Some[of "se_rx_buffer entry" n] by (simp add: entry_wf_def)
  with assms show ?thesis by (auto simp: entry_wf_def)
qed

lemma Stream_read_good:
  assumes "conn_wf c" "Stream_read (php_quic_stream_create h sid) len [h \<mapsto> c] = (chunk, objs)" "objs h = Some c'"
  shows "good_step c c'"
proof (cases "zend_hash_find (c_streams c) sid")
  case (Some entry)
  obtain ch rx where rd: "php_quic_buffer_read (se_rx_buffer entry) (unat len) = (ch, rx)" by fastforce
  have "good_step c (put_stream_entry c sid (entry\<lparr>se_rx_buffer := rx, se_readable := (0 < length (buffer_bytes rx))\<rparr>))"
    by (rule put_entry_good[OF assms(1) Some read_entry_wf[OF _ rd]])
       (use conn_wf_find[OF assms(1) Some] in \<open>simp_all add: entry_progress_def tx_ended_def\<close>)
  with assms Some rd show ?thesis
    by (auto simp: Stream_read_def resolve_single stream_id_create Let_def good_refl split: if_splits)
qed (use assms in \<open>auto simp: Stream_read_def resolve_single good_refl split: if_splits\<close>)

lemma Stream_write_good:
  assumes "conn_wf c" "Stream_write L (php_quic_stream_create h sid) data [h \<mapsto> c] = (n, objs)" "objs h = Some c'"
  shows "good_step c c'"
proof (cases "zend_hash_find (c_streams c) sid")
  case (Some entry)
  have "good_step c (put_stream_entry c sid (entry\<lparr>se_tx_buffer :=
      php_quic_buffer_append (se_tx_buffer entry) data (length data), se_writable := False\<rparr>))"
    by (rule put_entry_good[OF assms(1) Some])
       (use conn_wf_find[OF assms(1) Some] append_tx_wf in \<open>simp_all add: entry_progress_def tx_ended_def\<close>)
  with assms Some show ?thesis
    by (auto simp: Stream_write_def resolve_single stream_id_create Let_def good_refl split: if_splits)
qed (use assms in \<open>auto simp: Stream_write_def resolve_single good_refl\<close>)

lemma end_entry_progress:
  "entry_progress entry (entry\<lparr>se_fin_pending := True, se_writable := False\<rparr>)"
  "entry_progress entry (entry\<lparr>se_tx_buffer := b, se_fin_pending := True, se_writable := False\<rparr>)"
  by (simp_all add: entry_progress_def tx_ended_def)

lemma Stream_end_good:
  assumes "conn_wf c" "Stream_end L (php_quic_stream_create h sid) fd [h \<mapsto> c] = (u, objs)" "objs h = Some c'"
  shows "good_step c c'"
proof (cases "zend_hash_find (c_streams c) sid")
  case (Some entry)
  have wf: "entry_wf entry" using conn_wf_find[OF assms(1) Some] by simp
  have "good_step c (put_stream_entry c sid (entry\<lparr>se_fin_pending := True, se_writable := False\<rparr>))"
    by (rule put_entry_good[OF assms(1) Some _ end_entry_progress(1)]) (simp add: wf)
  moreover have "good_step c (put_stream_entry c sid (entry\<lparr>se_tx_buffer :=
      php_quic_buffer_append (se_tx_buffer entry) d (length d), se_fin_pending := True, se_writable := False\<rparr>))" for d
    by (rule put_entry_good[OF assms(1) Some _ end_entry_progress(2)]) (simp add: append_tx_wf[OF wf])
  ultimately show ?thesis using assms Some
    by (auto simp: Stream_end_def resolve_single stream_id_create Let_def good_refl split: if_splits option.splits)
qed (use assms in \<open>auto simp: Stream_end_def resolve_single good_refl\<close>)

lemma Stream_reset_good:
  assumes "conn_wf c" "Stream_reset L (php_quic_stream_create h sid) code [h \<mapsto> c] = (u, objs)" "objs h = Some c'"
  shows "good_step c c'"
proof (cases "zend_hash_find (c_streams c) sid")
  case (Some entry)
  define e where "e = entry\<lparr>se_reset := True, se_closed := True, se_readable := False,
    se_writable := False, se_fin_pending := False, se_pending_open := False\<rparr>"
  have e: "entry_wf e" "entry_progress entry e"
    using conn_wf_find[OF assms(1) Some] by (auto simp: e_def reset_entry_wf entry_progress_def tx_ended_def)
  have good: "good_step c (php_quic_connection_push_event (put_stream_entry c1 sid e)
      PHP_QUIC_EVENT_STREAM_RESET sid code False None)" if "c1 = c \<or> (\<exists>n. c1 = c\<lparr>c_conn := Some n\<rparr>)" for c1
  proof -
    have c1: "conn_wf c1" "zend_hash_find (c_streams c1) sid = Some entry" "conn_progress c c1" "same_events c c1"
      using that assms(1) Some by auto
    have p: "conn_wf (put_stream_entry c1 sid e)" "conn_progress c1 (put_stream_entry c1 sid e)"
      using put_entry_good[OF c1(1,2) e] by (simp_all add: good_step_def)
    have "event_step c (php_quic_connection_push_event (put_stream_entry c1 sid e)
        PHP_QUIC_EVENT_STREAM_RESET sid code False None)"
      by (rule push_event_step[OF _ assms(1)]) (simp_all add: c1)
    moreover have "conn_progress c (php_quic_connection_push_event (put_stream_entry c1 sid e)
        PHP_QUIC_EVENT_STREAM_RESET sid code False None)"
      using c1(3) p(2) push_event_progress conn_progress_trans by blast
    ultimately show ?thesis using push_event_wf[OF p(1)] by (simp add: good_step_def)
  qed
  have conn: "good_step c (c\<lparr>c_conn := Some n\<rparr>)" for n
    using assms(1) by (simp add: good_step_def same_events_step)
  have reset: "good_step c (php_quic_connection_push_event (put_stream_entry c sid e)
      PHP_QUIC_EVENT_STREAM_RESET sid code False None)"
    "good_step c (php_quic_connection_push_event (put_stream_entry (c\<lparr>c_conn := Some n\<rparr>) sid e)
      PHP_QUIC_EVENT_STREAM_RESET sid code False None)" for n
    by (auto intro: good)
  show ?thesis using assms Some reset conn
    by (auto simp: Stream_reset_def resolve_single stream_id_create Let_def good_refl e_def[symmetric]
        split: if_splits option.splits prod.splits)
qed (use assms in \<open>auto simp: Stream_reset_def resolve_single good_refl\<close>)

subsection \<open>Draining datagrams\<close>

lemma update_tx_good:
  assumes "good_step c d"
  shows "good_step c (php_quic_connection_update_tx_entry d r w fa pe)"
proof -
  have d: "conn_wf d" using assms by (simp add: good_step_def)
  have "event_step d (php_quic_connection_update_tx_entry d r w fa pe)"
    by (auto simp: php_quic_connection_update_tx_entry_def Let_def split: option.split
        intro: push_event_step[OF _ d] same_events_step)
  with update_tx_entry_wf[OF d] have "good_step d (php_quic_connection_update_tx_entry d r w fa pe)"
    by (intro good_stepI)
  with assms show ?thesis by (rule good_step_trans)
qed

lemma discard_tx_good:
  assumes "good_step c d"
  shows "good_step c (php_quic_connection_discard_tx_entry d r)"
proof -
  have d: "conn_wf d" using assms by (simp add: good_step_def)
  have "event_step d (php_quic_connection_discard_tx_entry d r)"
    by (auto simp: php_quic_connection_discard_tx_entry_def split: option.split intro!: same_events_step)
  with discard_tx_entry_wf[OF d] have "good_step d (php_quic_connection_discard_tx_entry d r)"
    by (intro good_stepI)
  with assms show ?thesis by (rule good_step_trans)
qed

lemma drain_write_good:
  assumes c: "conn_wf (ds_c s)"
  shows "good_step (ds_c s) (ds_c (step_state (drain_write L n pick s)))"
proof -
  let ?c = "ds_c s"
  obtain nwrite w cbs n1 where wr: "ngtcp2_conn_writev_stream L n 1452 (tx_flags L (tp_fin pick))
      (tp_stream_id pick) (tp_datav pick) (c_hrtime ?c (c_reads ?c)) = (nwrite, w, cbs, n1)"
    by (metis prod_cases4)
  define c2 where "c2 = run_callbacks L cbs (?c\<lparr>c_reads := Suc (c_reads ?c), c_conn := Some n1\<rparr>)"
  have c2: "good_step ?c c2" unfolding c2_def by (rule good_call[OF c])
  note after = update_tx_good[OF c2] discard_tx_good[OF c2] good_sync[OF c2] c2
  show ?thesis
    using after wr unfolding drain_write_def Let_def
    by (auto simp: c2_def[symmetric] simp del: php_quic_connection_is_nonfatal_closing_error.simps split: sum.split)
qed

lemma drain_step_good:
  assumes c: "conn_wf (ds_c s)"
  shows "good_step (ds_c s) (ds_c (step_state (drain_step L s)))"
proof -
  obtain pick c1 where p: "(if ds_force s then (no_tx_pick, ds_c s)
    else php_quic_connection_pick_tx_stream (ds_c s)) = (pick, c1)" by fastforce
  obtain r c2 where o: "drain_open_pending L pick c1 = (r, c2)" by fastforce
  have "conn_wf c1 \<and> conn_progress (ds_c s) c1"
    using p c pick_tx_stream_wf[OF c] by (auto split: if_splits)
  moreover have "same_events (ds_c s) c1"
    using p by (auto simp: php_quic_connection_pick_tx_stream_def split: if_splits option.splits)
  ultimately have g1: "good_step (ds_c s) c1" by (intro good_stepI same_events_step)
  have "same_events c1 c2"
    using o by (auto simp: drain_open_pending_def Let_def split: option.splits prod.splits if_splits)
  moreover have "conn_wf c1" using g1 by (simp add: good_step_def)
  ultimately have "good_step c1 c2"
    using drain_open_pending_op[of c1 L pick] o by (intro good_stepI same_events_step) auto
  with g1 have g2: "good_step (ds_c s) c2" by (rule good_step_trans)
  have "good_step (ds_c s) (ds_c (step_state (drain_write L n pick2 (s\<lparr>ds_force := False, ds_c := c2\<rparr>))))" for n pick2
    using drain_write_good[of "s\<lparr>ds_force := False, ds_c := c2\<rparr>" L n pick2] g2
    by (auto simp: good_step_def intro: conn_progress_trans event_step_trans)
  with g2 show ?thesis
    unfolding drain_step_unfold[OF p o] by (cases r; cases "c_conn c2") auto
qed

lemma drain_loop_good:
  assumes "drain_loop L s = Some b" and c: "conn_wf (ds_c s)"
  shows "good_step (ds_c s) (ds_c (snd b))"
proof -
  have "conn_wf (ds_c s) \<longrightarrow> good_step (ds_c s) (ds_c (snd b))"
  proof (rule drain_loop.raw_induct[OF _ assms(1)])
    fix loop L s b
    assume IH: "\<And>L s b. loop L s = Some b \<Longrightarrow> conn_wf (ds_c s) \<longrightarrow> good_step (ds_c s) (ds_c (snd b))"
      and b: "(case drain_step L s of Inl s1 \<Rightarrow> loop L s1 | Inr r \<Rightarrow> Some r) = Some b"
    show "conn_wf (ds_c s) \<longrightarrow> good_step (ds_c s) (ds_c (snd b))"
    proof
      assume wf: "conn_wf (ds_c s)"
      show "good_step (ds_c s) (ds_c (snd b))"
      proof (cases "drain_step L s")
        case (Inl s1)
        with drain_step_good[OF wf, of L] have g: "good_step (ds_c s) (ds_c s1)" by simp
        moreover have "good_step (ds_c s1) (ds_c (snd b))"
          using IH[of L s1 b] b Inl g by (auto simp: good_step_def)
        ultimately show ?thesis by (rule good_step_trans)
      next
        case (Inr x)
        with drain_step_good[OF wf, of L] b show ?thesis by (cases x) auto
      qed
    qed
  qed
  with c show ?thesis by simp
qed

lemma drain_close_packet_good:
  assumes c: "conn_wf c" "c_close_requested c"
  shows "good_step c (snd (drain_close_packet L n c))"
proof -
  have sent: "good_step c (d\<lparr>c_close_packet_sent := True\<rparr>)" if "good_step c d" for d
  proof -
    have "c_close_requested d" using that c(2) by (auto simp: good_step_def conn_progress_def)
    moreover have "conn_wf d \<and> conn_progress c d" using that by (simp add: good_step_def)
    ultimately have "conn_wf (d\<lparr>c_close_packet_sent := True\<rparr>) \<and> conn_progress c (d\<lparr>c_close_packet_sent := True\<rparr>)"
      using close_packet_sent_op by blast
    moreover have "event_step c (d\<lparr>c_close_packet_sent := True\<rparr>)"
      using that by (simp add: good_step_def event_step_def)
    ultimately show ?thesis by (rule good_stepI)
  qed
  note good = good_call[OF c(1)]
  show ?thesis using good sent[OF good] good_sync[OF sent[OF good]]
    by (auto simp: drain_close_packet_def Let_def split: prod.split sum.split)
qed

lemma drainOutgoingDatagrams_good:
  assumes c: "conn_wf c" and d: "Connection_drainOutgoingDatagrams L c = Some (r, c')"
  shows "good_step c c'"
proof (cases "c_conn c")
  case None
  with c d show ?thesis by (auto simp: Connection_drainOutgoingDatagrams_def good_refl)
next
  case (Some n)
  show ?thesis
  proof (cases "c_close_requested c \<and> \<not> c_close_packet_sent c")
    case True
    with d Some drain_close_packet_good[OF c, of L n] show ?thesis
      by (auto simp: Connection_drainOutgoingDatagrams_def)
  next
    case False
    from d obtain x s where l: "drain_loop L \<lparr>ds_c = c, ds_out = [], ds_emitted = 0, ds_force = False\<rparr> = Some (x, s)"
      and r: "(case x of Inl e \<Rightarrow> (Inl e, ds_c s)
        | Inr u \<Rightarrow> (Inr (ds_out s), php_quic_connection_sync_state L (ds_c s))) = (r, c')"
      unfolding Connection_drainOutgoingDatagrams_def Some option.case if_not_P[OF False]
      by (auto split: option.splits sum.splits)
    from drain_loop_good[OF l] c have g: "good_step c (ds_c s)" by simp
    from r g good_sync[OF g] show ?thesis by (cases x) auto
  qed
qed

end
