(* ===== verification/Quic_Machine_Props.thy ===== *)
theory Quic_Machine_Props
  imports Quic_Machine
begin

text \<open>
  What holds after any sequence of calls on a connection and its streams.
\<close>

subsection \<open>Any sequence of calls\<close>

definition event_objects :: "'c php_quic_connection \<Rightarrow> php_quic_event_object list" where
  "event_objects c = map php_quic_event_create_from_native (queue_list (c_events c))"

definition reported_step ::
  "'c php_quic_connection \<Rightarrow> php_quic_event_object list \<Rightarrow> 'c php_quic_connection \<Rightarrow> bool" where
  "reported_step c events c' \<longleftrightarrow>
     (\<exists>new. events @ event_objects c' = event_objects c @ map php_quic_event_create_from_native new \<and>
       count_type PHP_QUIC_EVENT_CONNECTION_CLOSED new = raised (c_closed c) (c_closed c') \<and>
       count_type PHP_QUIC_EVENT_CONNECTION_DRAINING new = raised (c_draining c) (c_draining c') \<and>
       count_type PHP_QUIC_EVENT_HANDSHAKE_COMPLETED new = raised (c_established c) (c_established c'))"

lemma event_step_reported: "event_step c c' \<Longrightarrow> reported_step c [] c'"
  by (auto simp: event_step_def reported_step_def event_objects_def)

lemma good_step_reported:
  "good_step c c' \<Longrightarrow> conn_wf c' \<and> conn_progress c c' \<and> reported_step c [] c'"
  by (simp add: good_step_def event_step_reported)

lemma drainEvents_reported:
  assumes c: "conn_wf c" and d: "Connection_drainEvents c = (events, c')"
  shows "conn_wf c' \<and> conn_progress c c' \<and> reported_step c events c'"
proof -
  have "queue_wf (c_events c)" using c by (simp add: conn_wf_def)
  from drain_event_queue_list[OF this] d
  have "events = event_objects c \<and> event_objects c' = [] \<and> c_closed c' = c_closed c \<and>
      c_draining c' = c_draining c \<and> c_established c' = c_established c"
    by (auto simp: Connection_drainEvents_def event_objects_def split: prod.splits)
  with drainEvents_op[OF c] d show ?thesis by (simp add: reported_step_def)
qed

lemma conn_step_good:
  assumes "conn_step L gai c events c'" and c: "conn_wf c"
  shows "conn_wf c' \<and> conn_progress c c' \<and> reported_step c events c'"
  using assms(1)
proof cases
  case (cs_recv datagram r)
  with recv_good[OF c, of L gai datagram] show ?thesis by (simp add: good_step_reported)
next
  case (cs_timers r)
  with handle_timers_good[OF c, of L] show ?thesis by (simp add: good_step_reported)
next
  case (cs_timeout t)
  with get_next_timeout_good[OF c, of L] show ?thesis
    by (simp add: good_step_reported Connection_getNextTimeout_def)
next
  case (cs_expiry tv t)
  with getNextExpiry_good[OF c, of L tv] show ?thesis by (simp add: good_step_reported)
next
  case cs_events
  with drainEvents_reported[OF c] show ?thesis by simp
next
  case (cs_datagrams r)
  with good_step_reported[OF drainOutgoingDatagrams_good[OF c cs_datagrams(2)]] show ?thesis by simp
next
  case (cs_open h s)
  then show ?thesis
    using open_local_stream_good[OF c, of L True "''ngtcp2_conn_open_bidi_stream''" "ngtcp2_conn_open_bidi_stream L" h]
    by (simp add: good_step_reported Connection_openStream_def)
next
  case (cs_open_uni h s)
  then show ?thesis
    using open_local_stream_good[OF c, of L False "''ngtcp2_conn_open_uni_stream''" "ngtcp2_conn_open_uni_stream L" h]
    by (simp add: good_step_reported Connection_openUniStream_def)
next
  case (cs_close code reason)
  with close_good[OF c, of L code reason] show ?thesis by (simp add: good_step_reported)
next
  case (cs_read h sid len chunk objs)
  with good_step_reported[OF Stream_read_good[OF c cs_read(2,3)]] show ?thesis by simp
next
  case (cs_write h sid data n objs)
  with good_step_reported[OF Stream_write_good[OF c cs_write(2,3)]] show ?thesis by simp
next
  case (cs_end h sid final_data u objs)
  with good_step_reported[OF Stream_end_good[OF c cs_end(2,3)]] show ?thesis by simp
next
  case (cs_reset h sid code u objs)
  with good_step_reported[OF Stream_reset_good[OF c cs_reset(2,3)]] show ?thesis by simp
qed

lemma conn_reach_wf_progress:
  "conn_reach L gai c0 reported c \<Longrightarrow> conn_wf c0 \<Longrightarrow> conn_wf c \<and> conn_progress c0 c"
proof (induction rule: conn_reach.induct)
  case (reach_step reported c events c')
  with conn_step_good[OF reach_step(2)] show ?case by (auto intro: conn_progress_trans)
qed simp

text \<open>A connection nothing has happened to yet.\<close>

definition fresh_connection :: "'c php_quic_connection \<Rightarrow> bool" where
  "fresh_connection c \<longleftrightarrow> conn_wf c \<and> queue_list (c_events c) = [] \<and>
     \<not> c_closed c \<and> \<not> c_draining c \<and> \<not> c_established c"

definition log_inv :: "'c php_quic_connection \<Rightarrow> php_quic_event_object list \<Rightarrow> bool" where
  "log_inv c reported \<longleftrightarrow>
     (\<exists>log. reported @ event_objects c = map php_quic_event_create_from_native log \<and>
       count_type PHP_QUIC_EVENT_CONNECTION_CLOSED log = raised False (c_closed c) \<and>
       count_type PHP_QUIC_EVENT_CONNECTION_DRAINING log = raised False (c_draining c) \<and>
       count_type PHP_QUIC_EVENT_HANDSHAKE_COMPLETED log = raised False (c_established c))"

lemma log_inv_step:
  assumes "log_inv c reported" "reported_step c events c'" "conn_progress c c'"
  shows "log_inv c' (reported @ events)"
proof -
  from assms(1) obtain log where
    log: "reported @ event_objects c = map php_quic_event_create_from_native log"
      "count_type PHP_QUIC_EVENT_CONNECTION_CLOSED log = raised False (c_closed c)"
      "count_type PHP_QUIC_EVENT_CONNECTION_DRAINING log = raised False (c_draining c)"
      "count_type PHP_QUIC_EVENT_HANDSHAKE_COMPLETED log = raised False (c_established c)"
    unfolding log_inv_def by blast
  from assms(2) obtain new where
    new: "events @ event_objects c' = event_objects c @ map php_quic_event_create_from_native new"
      "count_type PHP_QUIC_EVENT_CONNECTION_CLOSED new = raised (c_closed c) (c_closed c')"
      "count_type PHP_QUIC_EVENT_CONNECTION_DRAINING new = raised (c_draining c) (c_draining c')"
      "count_type PHP_QUIC_EVENT_HANDSHAKE_COMPLETED new = raised (c_established c) (c_established c')"
    unfolding reported_step_def by blast
  have p: "c_closed c \<longrightarrow> c_closed c'" "c_draining c \<longrightarrow> c_draining c'" "c_established c \<longrightarrow> c_established c'"
    using assms(3) by (auto simp: conn_progress_def)
  have "(reported @ events) @ event_objects c' = map php_quic_event_create_from_native (log @ new)"
    using log(1) new(1) by (metis append_assoc map_append)
  moreover have "count_type PHP_QUIC_EVENT_CONNECTION_CLOSED (log @ new) = raised False (c_closed c')"
    "count_type PHP_QUIC_EVENT_CONNECTION_DRAINING (log @ new) = raised False (c_draining c')"
    "count_type PHP_QUIC_EVENT_HANDSHAKE_COMPLETED (log @ new) = raised False (c_established c')"
    using log(2-4) new(2-4) p by (auto simp: raised_def)
  ultimately show ?thesis unfolding log_inv_def by blast
qed

lemma conn_reach_log:
  assumes "conn_reach L gai c0 reported c" "fresh_connection c0"
  shows "log_inv c reported"
  using assms
proof (induction rule: conn_reach.induct)
  case reach_start
  then show ?case by (auto simp: log_inv_def fresh_connection_def event_objects_def raised_def)
next
  case (reach_step reported c events c')
  then have "conn_wf c" using conn_reach_wf_progress[OF reach_step(1)] by (auto simp: fresh_connection_def)
  with reach_step conn_step_good[OF reach_step(2)] show ?case by (auto intro: log_inv_step)
qed

lemma getType_native: "Event_getType (php_quic_event_create_from_native e) = ucast (ev_type e)"
  by (simp add: Event_getType_def php_quic_event_create_from_native_def Let_def php_quic_event_create_object_def)

lemma ucast_u32_inj: "(ucast (a :: u32) :: u64) = ucast b \<longleftrightarrow> a = b"
proof
  assume eq: "(ucast a :: u64) = ucast b"
  have u: "unat (ucast w :: u64) = unat w" for w :: u32
  proof -
    have "unat w < 2 ^ LENGTH(32)" by (rule unsigned_less)
    then have "unat w < 2 ^ 64" by simp
    then show ?thesis by (simp add: unsigned_ucast_eq take_bit_nat_eq_self)
  qed
  have "unat a = unat b" using eq u[of a] u[of b] by simp
  then show "a = b" by (simp add: word_unat_eq_iff)
qed simp

lemma filter_type_objects:
  "length (filter (\<lambda>ev. Event_getType ev = ucast t) (map php_quic_event_create_from_native log)) = count_type t log"
  by (induction log) (simp_all add: getType_native ucast_u32_inj)

text \<open>
  C10. Exactly once. After any sequence of method calls on a fresh connection, over any library
  and any callbacks, the events the application has been given together with the events still
  queued contain exactly one CONNECTION_CLOSED if the connection is closed and none otherwise,
  exactly one CONNECTION_DRAINING if it is draining and none otherwise, and exactly one
  HANDSHAKE_COMPLETED if it is established and none otherwise.
\<close>

theorem lifecycle_events_once:
  assumes "conn_reach L gai c0 reported c" and "fresh_connection c0"
  shows "let log = reported @ event_objects c;
             times = (\<lambda>t. length (filter (\<lambda>ev. Event_getType ev = ucast t) log))
    in times PHP_QUIC_EVENT_CONNECTION_CLOSED = (if c_closed c then 1 else 0) \<and>
       times PHP_QUIC_EVENT_CONNECTION_DRAINING = (if c_draining c then 1 else 0) \<and>
       times PHP_QUIC_EVENT_HANDSHAKE_COMPLETED = (if c_established c then 1 else 0)"
proof -
  from conn_reach_log[OF assms] obtain log where
    log: "reported @ event_objects c = map php_quic_event_create_from_native log"
      "count_type PHP_QUIC_EVENT_CONNECTION_CLOSED log = raised False (c_closed c)"
      "count_type PHP_QUIC_EVENT_CONNECTION_DRAINING log = raised False (c_draining c)"
      "count_type PHP_QUIC_EVENT_HANDSHAKE_COMPLETED log = raised False (c_established c)"
    unfolding log_inv_def by blast
  show ?thesis
    unfolding Let_def log(1) filter_type_objects using log(2-4) by (simp add: raised_def)
qed

text \<open>
  C16. The invariant of a connection holds after any sequence of method calls: its event queue
  and stream table stay well formed and its flags consistent, and nothing it has announced is
  taken back: no flag is cleared, no stream disappears, no closed, reset or ended stream comes
  back to life, and the clock only advances.
\<close>

theorem connection_invariant:
  assumes "conn_reach L gai c0 reported c" and "conn_wf c0"
  shows "conn_wf c \<and> conn_progress c0 c"
  by (rule conn_reach_wf_progress[OF assms])

text \<open>
  C27. Once the sending side of a stream has ended (closed, reset, its FIN sent or pending),
  every later write throws, whatever was called in between.
\<close>

theorem ended_stream_refuses_writes:
  assumes "conn_wf c" and "zend_hash_find (c_streams c) sid = Some entry" and "tx_ended entry"
    and "conn_reach L gai c reported c'"
  shows "\<exists>e. Stream_write L (php_quic_stream_create h sid) data [h \<mapsto> c'] = (Inl e, [h \<mapsto> c'])"
proof -
  have "conn_progress c c'" using conn_reach_wf_progress[OF assms(4,1)] by simp
  then obtain entry' where "zend_hash_find (c_streams c') sid = Some entry'" "tx_ended entry'"
    using assms(2,3) by (auto simp: conn_progress_def streams_progress_def entry_progress_def)
  then show ?thesis
    by (auto simp: Stream_write_def resolve_single stream_id_create tx_ended_def)
qed

subsection \<open>A sample run\<close>

lemma sample_fresh: "fresh_connection sample_connection"
  using sample_connection_wf
  by (simp add: fresh_connection_def sample_connection_def php_quic_connection_create_object_def event_queue.items_init)

text \<open>Close twice, then drain the events.\<close>

definition sample_closed :: "sample_conn php_quic_connection" where
  "sample_closed = Connection_close sample_ngtcp2 9 None (Connection_close sample_ngtcp2 7 (Some ''bye'') sample_connection)"

lemma sample_run:
  "conn_reach sample_ngtcp2 (\<lambda>h s. None) sample_connection (fst (Connection_drainEvents sample_closed))
     (snd (Connection_drainEvents sample_closed))"
proof -
  let ?R = "conn_reach sample_ngtcp2 (\<lambda>h s. None) sample_connection"
  have "?R ([] @ []) (Connection_close sample_ngtcp2 7 (Some ''bye'') sample_connection)"
    by (rule reach_step[OF reach_start]) (rule cs_close, rule refl)
  from reach_step[OF this cs_close[OF refl], of 9 None] have "?R [] sample_closed"
    by (simp add: sample_closed_def)
  from reach_step[OF this, of "fst (Connection_drainEvents sample_closed)"]
  show ?thesis by (simp add: cs_events)
qed

theorem lifecycle_events_once_witness:
  "length (filter (\<lambda>ev. Event_getType ev = ucast PHP_QUIC_EVENT_CONNECTION_CLOSED)
     (fst (Connection_drainEvents sample_closed) @ event_objects (snd (Connection_drainEvents sample_closed)))) = 1"
proof -
  have "c_closed (snd (Connection_drainEvents sample_closed))"
    by (simp add: sample_closed_def Connection_close_def Connection_drainEvents_def Let_def split: prod.split)
  with lifecycle_events_once[OF sample_run sample_fresh] show ?thesis by (simp add: Let_def)
qed

theorem connection_invariant_witness:
  "conn_wf (snd (Connection_drainEvents sample_closed)) \<and>
   conn_progress sample_connection (snd (Connection_drainEvents sample_closed))"
  by (rule connection_invariant[OF sample_run sample_connection_wf])

theorem ended_stream_refuses_writes_witness:
  "\<exists>e c. Stream_write sample_ngtcp2 (php_quic_stream_create 0 0) ''x'' [0 \<mapsto> c] = (Inl e, [0 \<mapsto> c])"
proof -
  let ?e = "(php_quic_stream_entry_alloc 0)\<lparr>se_fin_pending := True\<rparr>"
  let ?c = "put_stream_entry sample_connection 0 ?e"
  have "conn_wf ?c"
    by (rule put_entry_wf[OF sample_connection_wf]) (simp_all add: entry_wf_def php_quic_stream_entry_alloc_def)
  moreover have "zend_hash_find (c_streams ?c) 0 = Some ?e" by (simp add: put_entry_find)
  moreover have "tx_ended ?e" by (simp add: tx_ended_def)
  moreover have "conn_reach sample_ngtcp2 (\<lambda>h s. None) ?c [] ?c" by (rule reach_start)
  ultimately show ?thesis by (blast dest: ended_stream_refuses_writes)
qed

end
