(* ===== verification/Quic_Tls.thy ===== *)
theory Quic_Tls
  imports Quic_Sample Quic_Callbacks
begin

text \<open>
  \<^verbatim>\<open>src/tls_gnutls.c\<close>: the GnuTLS credentials and session of a connection. GnuTLS is a
  parameter \<open>G\<close> that gives the status of every call from its name and arguments. What the
  model keeps exactly is ownership: \<open>tls_heap\<close> is the set of handles that are allocated, with
  a flag that records any release of a handle that is not.
\<close>

datatype gnutls_call =
    Gnutls_certificate_allocate_credentials
  | Gnutls_init "string list"
  | Gnutls_priority_set_direct string
  | Ngtcp2_crypto_gnutls_configure_client_session
  | Ngtcp2_crypto_gnutls_configure_server_session
  | Gnutls_certificate_set_x509_system_trust
  | Gnutls_certificate_set_x509_key_file zstring zstring
  | Gnutls_credentials_set
  | Gnutls_alpn_set_protocols zstring "string list"
  | Gnutls_server_name_set zstring

type_synonym gnutls = "gnutls_call \<Rightarrow> int"

record tls_heap =
  th_live :: "nat list"
  th_next :: nat
  th_bad :: bool

definition tls_alloc :: "tls_heap \<Rightarrow> nat \<times> tls_heap" where
  "tls_alloc heap = (th_next heap, heap\<lparr>th_live := th_next heap # th_live heap, th_next := Suc (th_next heap)\<rparr>)"

definition tls_free :: "nat \<Rightarrow> tls_heap \<Rightarrow> tls_heap" where
  "tls_free h heap =
     (if h \<in> set (th_live heap) then heap\<lparr>th_live := remove1 h (th_live heap)\<rparr>
      else heap\<lparr>th_bad := True\<rparr>)"

definition tls_heap_wf :: "tls_heap \<Rightarrow> bool" where
  "tls_heap_wf heap \<longleftrightarrow> (\<forall>h \<in> set (th_live heap). h < th_next heap) \<and> distinct (th_live heap)"

definition php_quic_tls_gnutls_cleanup ::
  "'c php_quic_connection \<Rightarrow> tls_heap \<Rightarrow> 'c php_quic_connection \<times> tls_heap" where
  "php_quic_tls_gnutls_cleanup c heap =
     (let (c1, heap1) = (case c_session c of
                           None \<Rightarrow> (c, heap)
                         | Some s \<Rightarrow> (c\<lparr>c_session := None\<rparr>, tls_free s heap))
      in case c_cred c1 of
           None \<Rightarrow> (c1, heap1)
         | Some d \<Rightarrow> (c1\<lparr>c_cred := None\<rparr>, tls_free d heap1))"

definition tls_priority :: string where
  "tls_priority = ''NORMAL:-VERS-ALL:+VERS-TLS1.3:-CIPHER-ALL:+AES-128-GCM:+AES-256-GCM:'' @
     ''+CHACHA20-POLY1305:+AES-128-CCM:-GROUP-ALL:+GROUP-SECP256R1:+GROUP-X25519:'' @
     ''+GROUP-SECP384R1:+GROUP-SECP521R1:%DISABLE_TLS13_COMPAT_MODE''"

text \<open>\<open>True\<close> is \<^verbatim>\<open>SUCCESS\<close>; \<open>alpn\<close> is \<open>None\<close> for a \<^verbatim>\<open>NULL\<close> pointer.\<close>

definition php_quic_tls_gnutls_init_client ::
  "gnutls \<Rightarrow> zstring option \<Rightarrow> 'c php_quic_connection \<Rightarrow> tls_heap \<Rightarrow>
   bool \<times> 'c php_quic_connection \<times> tls_heap" where
  "php_quic_tls_gnutls_init_client G alpn c heap =
     (let alpn1 = (case alpn of None \<Rightarrow> ''h3'' | Some a \<Rightarrow> if cstr a = '''' then ''h3'' else cstr a) in
      if G Gnutls_certificate_allocate_credentials \<noteq> 0 then (False, c, heap)
      else
        let (d, heap1) = tls_alloc heap; c1 = c\<lparr>c_cred := Some d\<rparr> in
        if G (Gnutls_init [''GNUTLS_CLIENT'', ''GNUTLS_ENABLE_EARLY_DATA'', ''GNUTLS_NO_END_OF_EARLY_DATA'']) \<noteq> 0
        then (False, c1\<lparr>c_cred := None\<rparr>, tls_free d heap1)
        else
          let (s, heap2) = tls_alloc heap1; c2 = c1\<lparr>c_session := Some s\<rparr> in
          if G (Gnutls_priority_set_direct tls_priority) \<noteq> 0
          then (False, php_quic_tls_gnutls_cleanup c2 heap2)
          else if G Ngtcp2_crypto_gnutls_configure_client_session \<noteq> 0
          then (False, c2\<lparr>c_session := None, c_cred := None\<rparr>, tls_free d (tls_free s heap2))
          else if G Gnutls_credentials_set \<noteq> 0
          then (False, php_quic_tls_gnutls_cleanup c2 heap2)
          else if G (Gnutls_alpn_set_protocols alpn1 [''GNUTLS_ALPN_MANDATORY'']) \<noteq> 0
          then (False, php_quic_tls_gnutls_cleanup c2 heap2)
          else (True, c2, heap2))"

definition php_quic_tls_gnutls_init_server ::
  "gnutls \<Rightarrow> zstring option \<Rightarrow> zstring option \<Rightarrow> zstring option \<Rightarrow> 'c php_quic_connection \<Rightarrow>
   tls_heap \<Rightarrow> bool \<times> 'c php_quic_connection \<times> tls_heap" where
  "php_quic_tls_gnutls_init_server G cert_file key_file alpn c heap =
     (case (cert_file, key_file, alpn) of
        (Some cert, Some key, Some a) \<Rightarrow>
          if cstr a = '''' then (False, c, heap)
          else if G Gnutls_certificate_allocate_credentials \<noteq> 0 then (False, c, heap)
          else
            let (d, heap1) = tls_alloc heap; c1 = c\<lparr>c_cred := Some d\<rparr> in
            if G (Gnutls_certificate_set_x509_key_file (cstr cert) (cstr key)) \<noteq> 0
            then (False, php_quic_tls_gnutls_cleanup c1 heap1)
            else if G (Gnutls_init [''GNUTLS_SERVER'', ''GNUTLS_ENABLE_EARLY_DATA'',
                         ''GNUTLS_NO_AUTO_SEND_TICKET'', ''GNUTLS_NO_END_OF_EARLY_DATA'']) \<noteq> 0
            then (False, php_quic_tls_gnutls_cleanup c1 heap1)
            else
              let (s, heap2) = tls_alloc heap1; c2 = c1\<lparr>c_session := Some s\<rparr> in
              if G (Gnutls_priority_set_direct tls_priority) \<noteq> 0
              then (False, php_quic_tls_gnutls_cleanup c2 heap2)
              else if G Ngtcp2_crypto_gnutls_configure_server_session \<noteq> 0
              then (False, php_quic_tls_gnutls_cleanup c2 heap2)
              else if G Gnutls_credentials_set \<noteq> 0
              then (False, php_quic_tls_gnutls_cleanup c2 heap2)
              else if G (Gnutls_alpn_set_protocols (cstr a)
                           [''GNUTLS_ALPN_MANDATORY'', ''GNUTLS_ALPN_SERVER_PRECEDENCE'']) \<noteq> 0
              then (False, php_quic_tls_gnutls_cleanup c2 heap2)
              else (True, c2, heap2)
      | _ \<Rightarrow> (False, c, heap))"

subsection \<open>Ownership\<close>

text \<open>The handles a connection owns.\<close>

definition tls_owned :: "'c php_quic_connection \<Rightarrow> nat list" where
  "tls_owned c = (case c_session c of None \<Rightarrow> [] | Some s \<Rightarrow> [s]) @
     (case c_cred c of None \<Rightarrow> [] | Some d \<Rightarrow> [d])"

lemma tls_alloc_simps [simp]:
  "th_live (snd (tls_alloc heap)) = th_next heap # th_live heap"
  "th_bad (snd (tls_alloc heap)) = th_bad heap"
  "fst (tls_alloc heap) = th_next heap"
  by (simp_all add: tls_alloc_def)

lemma tls_free_head [simp]:
  "th_live heap = h # rest \<Longrightarrow> th_live (tls_free h heap) = rest \<and> th_bad (tls_free h heap) = th_bad heap"
  by (simp add: tls_free_def)

lemma tls_free_second:
  "th_live heap = g # h # rest \<Longrightarrow> g \<noteq> h \<Longrightarrow>
    th_live (tls_free h heap) = g # rest \<and> th_bad (tls_free h heap) = th_bad heap"
  by (simp add: tls_free_def)

text \<open>
  What an initialisation promises on a connection that owns nothing: on success the connection
  owns exactly a session and credentials, both newly allocated; on failure it owns nothing and
  nothing is left allocated; no call releases a handle it does not own.
\<close>

definition tls_init_ok ::
  "'c php_quic_connection \<Rightarrow> tls_heap \<Rightarrow> bool \<times> 'c php_quic_connection \<times> tls_heap \<Rightarrow> bool" where
  "tls_init_ok c heap r \<longleftrightarrow>
     (case r of (ok, c', heap') \<Rightarrow>
        th_live heap' = tls_owned c' @ th_live heap \<and> th_bad heap' = th_bad heap \<and>
        (if ok then c_session c' \<noteq> None \<and> c_cred c' \<noteq> None else tls_owned c' = []) \<and>
        c' = c\<lparr>c_cred := c_cred c', c_session := c_session c'\<rparr>)"

lemma tls_init_client_ok:
  assumes "c_session c = None" "c_cred c = None"
  shows "tls_init_ok c heap (php_quic_tls_gnutls_init_client G alpn c heap)"
proof -
  define d where "d = th_next heap"
  define heap1 where "heap1 = snd (tls_alloc heap)"
  define heap2 where "heap2 = snd (tls_alloc heap1)"
  have a: "tls_alloc heap = (d, heap1)" "tls_alloc heap1 = (Suc d, heap2)"
    by (simp_all add: d_def heap1_def heap2_def tls_alloc_def)
  have l: "th_live heap1 = d # th_live heap" "th_live heap2 = Suc d # d # th_live heap"
    "th_bad heap1 = th_bad heap" "th_bad heap2 = th_bad heap"
    by (simp_all add: d_def heap1_def heap2_def tls_alloc_def)
  have s: "th_live (tls_free (Suc d) heap2) = d # th_live heap" "th_bad (tls_free (Suc d) heap2) = th_bad heap"
    using tls_free_head[OF l(2)] l by simp_all
  have s': "th_live (tls_free d (tls_free (Suc d) heap2)) = th_live heap"
    "th_bad (tls_free d (tls_free (Suc d) heap2)) = th_bad heap"
    using tls_free_head[OF s(1)] s by simp_all
  have s1: "th_live (tls_free d heap1) = th_live heap" "th_bad (tls_free d heap1) = th_bad heap"
    using tls_free_head[OF l(1)] l by simp_all
  show ?thesis
    using assms by (auto simp: php_quic_tls_gnutls_init_client_def Let_def a tls_init_ok_def tls_owned_def
        php_quic_tls_gnutls_cleanup_def s' s1 l)
qed

lemma tls_init_server_ok:
  assumes "c_session c = None" "c_cred c = None"
  shows "tls_init_ok c heap (php_quic_tls_gnutls_init_server G cert key alpn c heap)"
proof -
  define d where "d = th_next heap"
  define heap1 where "heap1 = snd (tls_alloc heap)"
  define heap2 where "heap2 = snd (tls_alloc heap1)"
  have a: "tls_alloc heap = (d, heap1)" "tls_alloc heap1 = (Suc d, heap2)"
    by (simp_all add: d_def heap1_def heap2_def tls_alloc_def)
  have l: "th_live heap1 = d # th_live heap" "th_live heap2 = Suc d # d # th_live heap"
    "th_bad heap1 = th_bad heap" "th_bad heap2 = th_bad heap"
    by (simp_all add: d_def heap1_def heap2_def tls_alloc_def)
  have s: "th_live (tls_free (Suc d) heap2) = d # th_live heap" "th_bad (tls_free (Suc d) heap2) = th_bad heap"
    using tls_free_head[OF l(2)] l by simp_all
  have s': "th_live (tls_free d (tls_free (Suc d) heap2)) = th_live heap"
    "th_bad (tls_free d (tls_free (Suc d) heap2)) = th_bad heap"
    using tls_free_head[OF s(1)] s by simp_all
  have s1: "th_live (tls_free d heap1) = th_live heap" "th_bad (tls_free d heap1) = th_bad heap"
    using tls_free_head[OF l(1)] l by simp_all
  show ?thesis
    using assms by (auto simp: php_quic_tls_gnutls_init_server_def Let_def a tls_init_ok_def tls_owned_def
        php_quic_tls_gnutls_cleanup_def s' s1 l split: option.split)
qed

lemma tls_cleanup_owned:
  assumes "th_live heap = tls_owned c @ rest"
  shows "let (c', heap') = php_quic_tls_gnutls_cleanup c heap in
    tls_owned c' = [] \<and> th_live heap' = rest \<and> th_bad heap' = th_bad heap \<and>
    c' = c\<lparr>c_cred := None, c_session := None\<rparr>"
proof (cases "c_session c")
  case None
  with assms show ?thesis
    by (cases "c_cred c") (auto simp: php_quic_tls_gnutls_cleanup_def tls_owned_def)
next
  case (Some s)
  have l: "th_live (tls_free s heap) = (case c_cred c of None \<Rightarrow> [] | Some d \<Rightarrow> [d]) @ rest"
    "th_bad (tls_free s heap) = th_bad heap"
    using assms Some tls_free_head[of heap s] by (simp_all add: tls_owned_def)
  show ?thesis
  proof (cases "c_cred c")
    case None
    with Some l show ?thesis by (auto simp: php_quic_tls_gnutls_cleanup_def tls_owned_def)
  next
    case (Some d)
    with l have "th_live (tls_free s heap) = d # rest" by simp
    from tls_free_head[OF this] Some l \<open>c_session c = Some s\<close> show ?thesis
      by (auto simp: php_quic_tls_gnutls_cleanup_def tls_owned_def)
  qed
qed

text \<open>
  C26. No TLS handle leaks and none is released twice: on a connection that owns none, client or
  server initialisation either succeeds with exactly a new session and new credentials, or fails
  with everything it had allocated released again, whichever of its GnuTLS calls fails; and
  cleaning up after a success releases exactly what was allocated.
\<close>

theorem tls_handles_balanced:
  assumes "c_session c = None" and "c_cred c = None"
    and "r = php_quic_tls_gnutls_init_client G alpn c heap \<or>
         r = php_quic_tls_gnutls_init_server G cert key alpn c heap"
  shows "case r of (ok, c', heap') \<Rightarrow>
    th_bad heap' = th_bad heap \<and>
    (ok \<longrightarrow> (\<exists>s d. c_session c' = Some s \<and> c_cred c' = Some d \<and> th_live heap' = [s, d] @ th_live heap)) \<and>
    (\<not> ok \<longrightarrow> c_session c' = None \<and> c_cred c' = None \<and> th_live heap' = th_live heap) \<and>
    (case php_quic_tls_gnutls_cleanup c' heap' of (c'', heap'') \<Rightarrow>
       c'' = c \<and> th_live heap'' = th_live heap \<and> th_bad heap'' = th_bad heap)"
proof -
  have ok: "tls_init_ok c heap r"
    using assms tls_init_client_ok[OF assms(1,2)] tls_init_server_ok[OF assms(1,2)] by blast
  obtain ok c' heap' where r: "r = (ok, c', heap')" by (metis prod_cases3)
  have live: "th_live heap' = tls_owned c' @ th_live heap" using ok by (simp add: r tls_init_ok_def)
  have "c'\<lparr>c_cred := None, c_session := None\<rparr> = c"
  proof -
    have "\<exists>d s. c' = c\<lparr>c_cred := d, c_session := s\<rparr>" using ok by (auto simp: r tls_init_ok_def)
    then obtain d s where "c' = c\<lparr>c_cred := d, c_session := s\<rparr>" by blast
    with assms(1,2) show ?thesis by simp
  qed
  with tls_cleanup_owned[OF live] ok show ?thesis
    by (auto simp: r tls_init_ok_def tls_owned_def split: option.splits if_splits)
qed


theorem tls_handles_balanced_witness:
  "case php_quic_tls_gnutls_init_client (\<lambda>call. if call = Gnutls_credentials_set then -1 else 0)
      (Some ''h3'') sample_connection \<lparr>th_live = [], th_next = 0, th_bad = False\<rparr> of
    (ok, c', heap') \<Rightarrow> \<not> th_bad heap' \<and> (\<not> ok \<longrightarrow> th_live heap' = [])"
proof -
  have "c_session sample_connection = None" "c_cred sample_connection = None"
    by (simp_all add: sample_connection_def php_quic_connection_create_object_def)
  from tls_handles_balanced[OF this, of _ "\<lambda>call. if call = Gnutls_credentials_set then -1 else 0"
      "Some ''h3''" "\<lparr>th_live = [], th_next = 0, th_bad = False\<rparr>" None None, OF disjI1[OF refl]]
  show ?thesis by (auto split: prod.splits)
qed

end
