(* ===== verification/Quic_Config.thy ===== *)
theory Quic_Config
  imports Quic_Connection
begin

text \<open>
  The configuration objects: \<^verbatim>\<open>ClientConfig\<close> (\<^verbatim>\<open>src/connection.c\<close>) and
  \<^verbatim>\<open>ServerConfig\<close> (\<^verbatim>\<open>src/server_connection.c\<close>). A method that ends in
  \<^verbatim>\<open>RETURN_ZVAL(ZEND_THIS, 1, 0)\<close> returns the object it was called on, whose handle is
  \<open>this\<close>: the methods named \<^verbatim>\<open>with...\<close> change that object. Arguments that may be
  \<^verbatim>\<open>null\<close> are options.
\<close>

record php_quic_client_config =
  cc_local_address :: address_zval
  cc_server_name :: "zstring option"
  cc_alpn :: "zstring option"

record php_quic_server_config =
  sc_local_address :: address_zval
  sc_cert_file :: "zstring option"
  sc_key_file :: "zstring option"
  sc_alpn :: "zstring option"

definition php_quic_set_nullable_string :: "zstring option \<Rightarrow> zstring option \<Rightarrow> zstring option" where
  "php_quic_set_nullable_string target value =
     (let target1 = (if target \<noteq> None then None else target)
      in if value \<noteq> None then value else target1)"

definition nullable_address :: "php_quic_address option \<Rightarrow> address_zval" where
  "nullable_address a = (case a of Some addr \<Rightarrow> Addr addr | None \<Rightarrow> Addr_null)"

definition msg_non_empty_or_null :: string where
  "msg_non_empty_or_null = ''must be a non-empty string or null''"

definition msg_non_empty :: string where
  "msg_non_empty = ''must be a non-empty string''"

lemma set_nullable_string [simp]: "php_quic_set_nullable_string target value = value"
  by (simp add: php_quic_set_nullable_string_def)

subsection \<open>ClientConfig\<close>

definition php_quic_client_config_create_object :: php_quic_client_config where
  "php_quic_client_config_create_object =
     \<lparr>cc_local_address = Addr_null, cc_server_name = None, cc_alpn = None\<rparr>"

definition ClientConfig_construct ::
  "php_quic_address option \<Rightarrow> zstring option \<Rightarrow> zstring option \<Rightarrow> php_quic_client_config \<Rightarrow>
   unit outcome \<times> php_quic_client_config" where
  "ClientConfig_construct local_address server_name alpn config =
     (if server_name = Some '''' then (Inl (Value_error 2 msg_non_empty_or_null), config)
      else if alpn = Some '''' then (Inl (Value_error 3 msg_non_empty_or_null), config)
      else
        (Inr (), config\<lparr>cc_local_address := nullable_address local_address,
           cc_server_name := php_quic_set_nullable_string (cc_server_name config) server_name,
           cc_alpn := php_quic_set_nullable_string (cc_alpn config) alpn\<rparr>))"

definition ClientConfig_withLocalAddress ::
  "nat \<Rightarrow> php_quic_address option \<Rightarrow> php_quic_client_config \<Rightarrow> nat outcome \<times> php_quic_client_config" where
  "ClientConfig_withLocalAddress this local_address config =
     (Inr this, config\<lparr>cc_local_address := nullable_address local_address\<rparr>)"

definition ClientConfig_withServerName ::
  "nat \<Rightarrow> zstring option \<Rightarrow> php_quic_client_config \<Rightarrow> nat outcome \<times> php_quic_client_config" where
  "ClientConfig_withServerName this server_name config =
     (if server_name = Some '''' then (Inl (Value_error 1 msg_non_empty_or_null), config)
      else (Inr this, config\<lparr>cc_server_name :=
              php_quic_set_nullable_string (cc_server_name config) server_name\<rparr>))"

definition ClientConfig_withAlpn ::
  "nat \<Rightarrow> zstring option \<Rightarrow> php_quic_client_config \<Rightarrow> nat outcome \<times> php_quic_client_config" where
  "ClientConfig_withAlpn this alpn config =
     (if alpn = Some '''' then (Inl (Value_error 1 msg_non_empty_or_null), config)
      else (Inr this, config\<lparr>cc_alpn := php_quic_set_nullable_string (cc_alpn config) alpn\<rparr>))"

definition ClientConfig_getLocalAddress :: "php_quic_client_config \<Rightarrow> address_zval" where
  "ClientConfig_getLocalAddress config = cc_local_address config"

definition ClientConfig_getServerName :: "php_quic_client_config \<Rightarrow> zstring option" where
  "ClientConfig_getServerName config = cc_server_name config"

definition ClientConfig_getAlpn :: "php_quic_client_config \<Rightarrow> zstring option" where
  "ClientConfig_getAlpn config = cc_alpn config"

definition php_quic_client_config_free_object :: "php_quic_client_config \<Rightarrow> php_quic_client_config" where
  "php_quic_client_config_free_object config =
     config\<lparr>cc_local_address := Addr_undef,
       cc_server_name := php_quic_set_nullable_string (cc_server_name config) None,
       cc_alpn := php_quic_set_nullable_string (cc_alpn config) None\<rparr>"

subsection \<open>ServerConfig\<close>

definition php_quic_server_config_create_object :: php_quic_server_config where
  "php_quic_server_config_create_object =
     \<lparr>sc_local_address = Addr_null, sc_cert_file = None, sc_key_file = None, sc_alpn = None\<rparr>"

definition ServerConfig_construct ::
  "php_quic_address option \<Rightarrow> zstring option \<Rightarrow> zstring option \<Rightarrow> zstring option \<Rightarrow>
   php_quic_server_config \<Rightarrow> unit outcome \<times> php_quic_server_config" where
  "ServerConfig_construct local_address cert_file key_file alpn config =
     (if cert_file = Some '''' then (Inl (Value_error 2 msg_non_empty_or_null), config)
      else if key_file = Some '''' then (Inl (Value_error 3 msg_non_empty_or_null), config)
      else if alpn = Some '''' then (Inl (Value_error 4 msg_non_empty_or_null), config)
      else
        (Inr (), config\<lparr>sc_local_address := nullable_address local_address,
           sc_cert_file := php_quic_set_nullable_string (sc_cert_file config) cert_file,
           sc_key_file := php_quic_set_nullable_string (sc_key_file config) key_file,
           sc_alpn := php_quic_set_nullable_string (sc_alpn config) alpn\<rparr>))"

definition ServerConfig_withLocalAddress ::
  "nat \<Rightarrow> php_quic_address option \<Rightarrow> php_quic_server_config \<Rightarrow> nat outcome \<times> php_quic_server_config" where
  "ServerConfig_withLocalAddress this local_address config =
     (Inr this, config\<lparr>sc_local_address := nullable_address local_address\<rparr>)"

definition ServerConfig_withCertificate ::
  "nat \<Rightarrow> zstring \<Rightarrow> zstring \<Rightarrow> php_quic_server_config \<Rightarrow> nat outcome \<times> php_quic_server_config" where
  "ServerConfig_withCertificate this cert_file key_file config =
     (if length cert_file = 0 then (Inl (Value_error 1 msg_non_empty), config)
      else if length key_file = 0 then (Inl (Value_error 2 msg_non_empty), config)
      else (Inr this, config\<lparr>
              sc_cert_file := php_quic_set_nullable_string (sc_cert_file config) (Some cert_file),
              sc_key_file := php_quic_set_nullable_string (sc_key_file config) (Some key_file)\<rparr>))"

definition ServerConfig_withAlpn ::
  "nat \<Rightarrow> zstring option \<Rightarrow> php_quic_server_config \<Rightarrow> nat outcome \<times> php_quic_server_config" where
  "ServerConfig_withAlpn this alpn config =
     (if alpn = Some '''' then (Inl (Value_error 1 msg_non_empty_or_null), config)
      else (Inr this, config\<lparr>sc_alpn := php_quic_set_nullable_string (sc_alpn config) alpn\<rparr>))"

definition ServerConfig_getLocalAddress :: "php_quic_server_config \<Rightarrow> address_zval" where
  "ServerConfig_getLocalAddress config = sc_local_address config"

definition ServerConfig_getCertFile :: "php_quic_server_config \<Rightarrow> zstring option" where
  "ServerConfig_getCertFile config = sc_cert_file config"

definition ServerConfig_getKeyFile :: "php_quic_server_config \<Rightarrow> zstring option" where
  "ServerConfig_getKeyFile config = sc_key_file config"

definition ServerConfig_getAlpn :: "php_quic_server_config \<Rightarrow> zstring option" where
  "ServerConfig_getAlpn config = sc_alpn config"

definition php_quic_server_config_free_object :: "php_quic_server_config \<Rightarrow> php_quic_server_config" where
  "php_quic_server_config_free_object config =
     config\<lparr>sc_local_address := Addr_undef,
       sc_cert_file := php_quic_set_nullable_string (sc_cert_file config) None,
       sc_key_file := php_quic_set_nullable_string (sc_key_file config) None,
       sc_alpn := php_quic_set_nullable_string (sc_alpn config) None\<rparr>"

subsection \<open>Runs of the methods\<close>

text \<open>
  The method calls a script can make on one configuration object, with the handle or nothing as
  the result, and what they keep: no string of a configuration is ever empty. The code that
  reads a configuration only tests its strings against \<^verbatim>\<open>NULL\<close>.
\<close>

datatype client_config_op =
    Cc_construct "php_quic_address option" "zstring option" "zstring option"
  | Cc_withLocalAddress "php_quic_address option"
  | Cc_withServerName "zstring option"
  | Cc_withAlpn "zstring option"

datatype server_config_op =
    Sc_construct "php_quic_address option" "zstring option" "zstring option" "zstring option"
  | Sc_withLocalAddress "php_quic_address option"
  | Sc_withCertificate zstring zstring
  | Sc_withAlpn "zstring option"

fun client_config_step ::
  "nat \<Rightarrow> client_config_op \<Rightarrow> php_quic_client_config \<Rightarrow> nat option outcome \<times> php_quic_client_config" where
  "client_config_step this (Cc_construct a sn al) config =
     map_prod (map_sum id (\<lambda>_. None)) id (ClientConfig_construct a sn al config)"
| "client_config_step this (Cc_withLocalAddress a) config =
     map_prod (map_sum id Some) id (ClientConfig_withLocalAddress this a config)"
| "client_config_step this (Cc_withServerName sn) config =
     map_prod (map_sum id Some) id (ClientConfig_withServerName this sn config)"
| "client_config_step this (Cc_withAlpn al) config =
     map_prod (map_sum id Some) id (ClientConfig_withAlpn this al config)"

fun server_config_step ::
  "nat \<Rightarrow> server_config_op \<Rightarrow> php_quic_server_config \<Rightarrow> nat option outcome \<times> php_quic_server_config" where
  "server_config_step this (Sc_construct a cert key al) config =
     map_prod (map_sum id (\<lambda>_. None)) id (ServerConfig_construct a cert key al config)"
| "server_config_step this (Sc_withLocalAddress a) config =
     map_prod (map_sum id Some) id (ServerConfig_withLocalAddress this a config)"
| "server_config_step this (Sc_withCertificate cert key) config =
     map_prod (map_sum id Some) id (ServerConfig_withCertificate this cert key config)"
| "server_config_step this (Sc_withAlpn al) config =
     map_prod (map_sum id Some) id (ServerConfig_withAlpn this al config)"

definition client_config_wf :: "php_quic_client_config \<Rightarrow> bool" where
  "client_config_wf config \<longleftrightarrow>
     cc_local_address config \<noteq> Addr_undef \<and> cc_server_name config \<noteq> Some '''' \<and> cc_alpn config \<noteq> Some ''''"

definition server_config_wf :: "php_quic_server_config \<Rightarrow> bool" where
  "server_config_wf config \<longleftrightarrow>
     sc_local_address config \<noteq> Addr_undef \<and> sc_cert_file config \<noteq> Some '''' \<and>
     sc_key_file config \<noteq> Some '''' \<and> sc_alpn config \<noteq> Some ''''"

lemma nullable_address_defined [simp]: "nullable_address a \<noteq> Addr_undef"
  by (simp add: nullable_address_def split: option.split)

lemmas client_config_defs = ClientConfig_construct_def ClientConfig_withLocalAddress_def
  ClientConfig_withServerName_def ClientConfig_withAlpn_def client_config_wf_def

lemmas server_config_defs = ServerConfig_construct_def ServerConfig_withLocalAddress_def
  ServerConfig_withCertificate_def ServerConfig_withAlpn_def server_config_wf_def

interpretation client_config: invariant_machine "client_config_step this" client_config_wf
  by unfold_locales (case_tac x; auto simp: client_config_defs)

interpretation server_config: invariant_machine "server_config_step this" server_config_wf
  by unfold_locales (case_tac x; auto simp: server_config_defs)

subsection \<open>What a script gets\<close>

text \<open>
  What each call means, stated without the methods: the error it ends in, if a string argument is
  empty (the first such argument is named), and the value it gives each part of the configuration,
  if any.
\<close>

fun first_empty :: "string \<Rightarrow> (nat \<times> zstring option) list \<Rightarrow> php_throw option" where
  "first_empty msg [] = None"
| "first_empty msg ((i, arg) # args) = (if arg = Some '''' then Some (Value_error i msg) else first_empty msg args)"

fun sc_error :: "server_config_op \<Rightarrow> php_throw option" where
  "sc_error (Sc_construct a cert key al) =
     first_empty ''must be a non-empty string or null'' [(2, cert), (3, key), (4, al)]"
| "sc_error (Sc_withLocalAddress a) = None"
| "sc_error (Sc_withCertificate cert key) =
     first_empty ''must be a non-empty string'' [(1, Some cert), (2, Some key)]"
| "sc_error (Sc_withAlpn al) = first_empty ''must be a non-empty string or null'' [(1, al)]"

fun sc_result :: "nat \<Rightarrow> server_config_op \<Rightarrow> nat option" where
  "sc_result this (Sc_construct a cert key al) = None"
| "sc_result this call = Some this"

fun sc_local :: "server_config_op \<Rightarrow> php_quic_address option option" where
  "sc_local (Sc_construct a cert key al) = Some a"
| "sc_local (Sc_withLocalAddress a) = Some a"
| "sc_local _ = None"

fun sc_cert :: "server_config_op \<Rightarrow> zstring option option" where
  "sc_cert (Sc_construct a cert key al) = Some cert"
| "sc_cert (Sc_withCertificate cert key) = Some (Some cert)"
| "sc_cert _ = None"

fun sc_key :: "server_config_op \<Rightarrow> zstring option option" where
  "sc_key (Sc_construct a cert key al) = Some key"
| "sc_key (Sc_withCertificate cert key) = Some (Some key)"
| "sc_key _ = None"

fun sc_alpn_set :: "server_config_op \<Rightarrow> zstring option option" where
  "sc_alpn_set (Sc_construct a cert key al) = Some al"
| "sc_alpn_set (Sc_withAlpn al) = Some al"
| "sc_alpn_set _ = None"

fun cc_error :: "client_config_op \<Rightarrow> php_throw option" where
  "cc_error (Cc_construct a sn al) =
     first_empty ''must be a non-empty string or null'' [(2, sn), (3, al)]"
| "cc_error (Cc_withLocalAddress a) = None"
| "cc_error (Cc_withServerName sn) = first_empty ''must be a non-empty string or null'' [(1, sn)]"
| "cc_error (Cc_withAlpn al) = first_empty ''must be a non-empty string or null'' [(1, al)]"

fun cc_result :: "nat \<Rightarrow> client_config_op \<Rightarrow> nat option" where
  "cc_result this (Cc_construct a sn al) = None"
| "cc_result this call = Some this"

fun cc_local :: "client_config_op \<Rightarrow> php_quic_address option option" where
  "cc_local (Cc_construct a sn al) = Some a"
| "cc_local (Cc_withLocalAddress a) = Some a"
| "cc_local _ = None"

fun cc_name :: "client_config_op \<Rightarrow> zstring option option" where
  "cc_name (Cc_construct a sn al) = Some sn"
| "cc_name (Cc_withServerName sn) = Some sn"
| "cc_name _ = None"

fun cc_alpn_set :: "client_config_op \<Rightarrow> zstring option option" where
  "cc_alpn_set (Cc_construct a sn al) = Some al"
| "cc_alpn_set (Cc_withAlpn al) = Some al"
| "cc_alpn_set _ = None"

text \<open>The value a getter shows after calls that set it: the last one set, or the first.\<close>

definition last_set :: "'v \<Rightarrow> ('op \<Rightarrow> 'v option) \<Rightarrow> 'op list \<Rightarrow> 'v" where
  "last_set initial sets calls = last (initial # List.map_filter sets calls)"

lemma last_set_simps [simp]:
  "last_set v sets [] = v"
  "last_set v sets (call # calls) = last_set (case sets call of None \<Rightarrow> v | Some v' \<Rightarrow> v') sets calls"
  by (auto simp: last_set_def List.map_filter_simps split: option.split)

definition accepted_calls :: "('op \<Rightarrow> php_throw option) \<Rightarrow> 'op list \<Rightarrow> 'op list" where
  "accepted_calls err calls = filter (\<lambda>call. err call = None) calls"

definition call_results :: "('op \<Rightarrow> php_throw option) \<Rightarrow> ('op \<Rightarrow> 'r) \<Rightarrow> 'op list \<Rightarrow> 'r outcome list" where
  "call_results err res calls = map (\<lambda>call. case err call of Some e \<Rightarrow> Inl e | None \<Rightarrow> Inr (res call)) calls"

lemma server_config_step_is:
  "server_config_step this call config =
    (case sc_error call of
       Some e \<Rightarrow> (Inl e, config)
     | None \<Rightarrow> (Inr (sc_result this call),
         \<lparr>sc_local_address = last_set (sc_local_address config) (map_option nullable_address \<circ> sc_local) [call],
          sc_cert_file = last_set (sc_cert_file config) sc_cert [call],
          sc_key_file = last_set (sc_key_file config) sc_key [call],
          sc_alpn = last_set (sc_alpn config) sc_alpn_set [call]\<rparr>))"
  by (cases call) (auto simp: server_config_defs msg_non_empty_def msg_non_empty_or_null_def)

lemma client_config_step_is:
  "client_config_step this call config =
    (case cc_error call of
       Some e \<Rightarrow> (Inl e, config)
     | None \<Rightarrow> (Inr (cc_result this call),
         \<lparr>cc_local_address = last_set (cc_local_address config) (map_option nullable_address \<circ> cc_local) [call],
          cc_server_name = last_set (cc_server_name config) cc_name [call],
          cc_alpn = last_set (cc_alpn config) cc_alpn_set [call]\<rparr>))"
  by (cases call) (auto simp: client_config_defs msg_non_empty_or_null_def)

lemma server_config_run_is:
  "run_ops (server_config_step this) calls config =
    (call_results sc_error (sc_result this) calls,
     \<lparr>sc_local_address = last_set (sc_local_address config) (map_option nullable_address \<circ> sc_local) (accepted_calls sc_error calls),
      sc_cert_file = last_set (sc_cert_file config) sc_cert (accepted_calls sc_error calls),
      sc_key_file = last_set (sc_key_file config) sc_key (accepted_calls sc_error calls),
      sc_alpn = last_set (sc_alpn config) sc_alpn_set (accepted_calls sc_error calls)\<rparr>)"
  by (induction calls arbitrary: config)
     (auto simp: server_config_step_is call_results_def accepted_calls_def simp del: server_config_step.simps split: option.split)

lemma client_config_run_is:
  "run_ops (client_config_step this) calls config =
    (call_results cc_error (cc_result this) calls,
     \<lparr>cc_local_address = last_set (cc_local_address config) (map_option nullable_address \<circ> cc_local) (accepted_calls cc_error calls),
      cc_server_name = last_set (cc_server_name config) cc_name (accepted_calls cc_error calls),
      cc_alpn = last_set (cc_alpn config) cc_alpn_set (accepted_calls cc_error calls)\<rparr>)"
  by (induction calls arbitrary: config)
     (auto simp: client_config_step_is call_results_def accepted_calls_def simp del: client_config_step.simps split: option.split)

text \<open>
  C35. What a \<^verbatim>\<open>ServerConfig\<close> remembers. Over any calls on a new one, the constructor
  included, a call throws a \<^verbatim>\<open>ValueError\<close> naming its first empty string argument, and then
  has no effect; every other call returns the object itself (the constructor nothing), sets what it
  is named for and nothing else: each getter shows the last value an accepted call gave, the local
  address, certificate, key and ALPN being \<^verbatim>\<open>null\<close> before. No string shown is ever empty.
\<close>

theorem server_config_run:
  "case run_ops (server_config_step this) calls php_quic_server_config_create_object of (results, config) \<Rightarrow>
     results = call_results sc_error (sc_result this) calls \<and>
     ServerConfig_getLocalAddress config =
       last_set Addr_null (map_option nullable_address \<circ> sc_local) (accepted_calls sc_error calls) \<and>
     ServerConfig_getCertFile config = last_set None sc_cert (accepted_calls sc_error calls) \<and>
     ServerConfig_getKeyFile config = last_set None sc_key (accepted_calls sc_error calls) \<and>
     ServerConfig_getAlpn config = last_set None sc_alpn_set (accepted_calls sc_error calls) \<and>
     server_config_wf config"
proof -
  let ?r = "run_ops (server_config_step this) calls php_quic_server_config_create_object"
  have "server_config_wf (snd ?r)"
    by (rule server_config.run_inv) (simp add: server_config_wf_def php_quic_server_config_create_object_def)
  then show ?thesis unfolding server_config_run_is
    by (simp add: php_quic_server_config_create_object_def ServerConfig_getLocalAddress_def
        ServerConfig_getCertFile_def ServerConfig_getKeyFile_def ServerConfig_getAlpn_def)
qed

text \<open>
  C40. What a \<^verbatim>\<open>ClientConfig\<close> remembers. Over any calls on a new one, the constructor
  included, a call throws a \<^verbatim>\<open>ValueError\<close> naming its first empty string argument, and then
  has no effect; every other call returns the object itself (the constructor nothing), sets what it
  is named for and nothing else: each getter shows the last value an accepted call gave, the local
  address, server name and ALPN being \<^verbatim>\<open>null\<close> before. So \<^verbatim>\<open>getLocalAddress\<close> returns
  an address or \<^verbatim>\<open>null\<close>, as declared, from the first moment on, and no string shown is empty.
\<close>

theorem client_config_run:
  "case run_ops (client_config_step this) calls php_quic_client_config_create_object of (results, config) \<Rightarrow>
     results = call_results cc_error (cc_result this) calls \<and>
     ClientConfig_getLocalAddress config =
       last_set Addr_null (map_option nullable_address \<circ> cc_local) (accepted_calls cc_error calls) \<and>
     ClientConfig_getServerName config = last_set None cc_name (accepted_calls cc_error calls) \<and>
     ClientConfig_getAlpn config = last_set None cc_alpn_set (accepted_calls cc_error calls) \<and>
     client_config_wf config"
proof -
  let ?r = "run_ops (client_config_step this) calls php_quic_client_config_create_object"
  have "client_config_wf (snd ?r)"
    by (rule client_config.run_inv) (simp add: client_config_wf_def php_quic_client_config_create_object_def)
  then show ?thesis unfolding client_config_run_is
    by (simp add: php_quic_client_config_create_object_def ClientConfig_getLocalAddress_def
        ClientConfig_getServerName_def ClientConfig_getAlpn_def)
qed

end
