(* ===== verification/Quic_Native.thy ===== *)
theory Quic_Native
  imports Quic_Tls
begin

text \<open>
  What the two ways of making a connection (\<^verbatim>\<open>Connection::__construct\<close> and
  \<^verbatim>\<open>ServerConnection::accept\<close>) share: the native resources behind a connection, the random
  bytes, the default local address, and the destruction of a connection object.

  \<open>world\<close> is what lives outside the PHP objects: the TLS handles, the state of the random
  generator, how many \<^verbatim>\<open>ngtcp2_conn\<close> objects exist, and how many references to PHP strings
  C variables hold. \<open>system\<close> collects the functions of the libraries and the operating system,
  parameters throughout.
\<close>

record 'r world =
  w_tls :: tls_heap
  w_rnd :: 'r
  w_conns :: nat
  w_strings :: nat

record ('c, 'r) system =
  y_ngtcp2 :: "'c ngtcp2"
  y_getaddrinfo :: getaddrinfo
  y_gnutls :: gnutls
  y_gnutls_rnd :: "'r gnutls_rnd"
  y_inet_pton :: "af \<Rightarrow> zstring \<Rightarrow> bool"
  y_inet_ntop :: "af \<Rightarrow> u8 list \<Rightarrow> zstring"
  y_getenv :: "zstring \<Rightarrow> zstring option"

definition php_quic_fill_random ::
  "('c, 'r) system \<Rightarrow> nat \<Rightarrow> 'r world \<Rightarrow> zstring option \<times> 'r world" where
  "php_quic_fill_random Y destlen w =
     (let (bytes, r) = y_gnutls_rnd Y (w_rnd w) destlen in (bytes, w\<lparr>w_rnd := r\<rparr>))"

definition php_quic_is_numeric_host :: "('c, 'r) system \<Rightarrow> zstring \<Rightarrow> bool" where
  "php_quic_is_numeric_host Y host \<longleftrightarrow> y_inet_pton Y AF_INET host \<or> y_inet_pton Y AF_INET6 host"

text \<open>It has no failing path: the result is always \<^verbatim>\<open>SUCCESS\<close>.\<close>

definition php_quic_default_local_addr :: "af \<Rightarrow> sockaddr" where
  "php_quic_default_local_addr family =
     (if family = AF_INET6 then \<lparr>sa_family = AF_INET6, sa_addr = replicate 16 0, sa_port = 0\<rparr>
      else \<lparr>sa_family = AF_INET, sa_addr = replicate 4 0, sa_port = 0\<rparr>)"

text \<open>\<^verbatim>\<open>php_quic_connection_free_object\<close>: what is left of the object, and the world.\<close>

definition php_quic_connection_free_object ::
  "'c php_quic_connection \<Rightarrow> 'r world \<Rightarrow> 'c php_quic_connection \<times> 'r world" where
  "php_quic_connection_free_object c w =
     (let (c1, w1) = (if c_conn c \<noteq> None then (c\<lparr>c_conn := None\<rparr>, w\<lparr>w_conns := w_conns w - 1\<rparr>)
                      else (c, w));
          c2 = (if c_remote_address_zv c1 \<noteq> Addr_undef then c1\<lparr>c_remote_address_zv := Addr_undef\<rparr> else c1);
          c3 = (if c_local_address_zv c2 \<noteq> Addr_undef then c2\<lparr>c_local_address_zv := Addr_undef\<rparr> else c2);
          c4 = (if c_close_reason c3 \<noteq> None then c3\<lparr>c_close_reason := None\<rparr> else c3);
          (c5, heap) = php_quic_tls_gnutls_cleanup c4 (w_tls w1);
          c6 = c5\<lparr>c_events := php_quic_event_queue_destroy (c_events c5), c_streams := []\<rparr>
      in (c6, w1\<lparr>w_tls := heap\<rparr>))"

lemma fill_random_frame [simp]:
  "w_tls (snd (php_quic_fill_random Y n w)) = w_tls w"
  "w_conns (snd (php_quic_fill_random Y n w)) = w_conns w"
  "w_strings (snd (php_quic_fill_random Y n w)) = w_strings w"
  by (simp_all add: php_quic_fill_random_def split: prod.split)

subsection \<open>Ownership\<close>

text \<open>
  \<open>owns c w w0\<close>: apart from what exists in \<open>w0\<close>, exactly the native resources of the
  connection \<open>c\<close> exist in \<open>w\<close>, and no handle was ever released twice.
\<close>

definition owns :: "'c php_quic_connection \<Rightarrow> 'r world \<Rightarrow> 'r world \<Rightarrow> bool" where
  "owns c w w0 \<longleftrightarrow>
     th_live (w_tls w) = tls_owned c @ th_live (w_tls w0) \<and> th_bad (w_tls w) = th_bad (w_tls w0) \<and>
     w_conns w = (if c_conn c = None then 0 else 1) + w_conns w0"

definition same_natives :: "'r world \<Rightarrow> 'r world \<Rightarrow> bool" where
  "same_natives w w0 \<longleftrightarrow>
     th_live (w_tls w) = th_live (w_tls w0) \<and> th_bad (w_tls w) = th_bad (w_tls w0) \<and>
     w_conns w = w_conns w0"

lemma same_natives_refl [simp]: "same_natives w w"
  by (simp add: same_natives_def)

lemma same_natives_trans: "same_natives a b \<Longrightarrow> same_natives b c \<Longrightarrow> same_natives a c"
  by (simp add: same_natives_def)

lemma fill_random_natives [simp]: "same_natives (snd (php_quic_fill_random Y n w)) w"
  by (simp add: same_natives_def)

lemma owns_cong:
  "owns c w w0 \<Longrightarrow> c_session c' = c_session c \<Longrightarrow> c_cred c' = c_cred c \<Longrightarrow>
    (c_conn c' = None \<longleftrightarrow> c_conn c = None) \<Longrightarrow> owns c' w w0"
  by (simp add: owns_def tls_owned_def)

lemma owns_none: "owns c w w0 \<Longrightarrow> tls_owned c = [] \<Longrightarrow> c_conn c = None \<Longrightarrow> same_natives w w0"
  by (simp add: owns_def same_natives_def)

lemma free_object_natives:
  assumes "owns c w w0"
  shows "case php_quic_connection_free_object c w of (c', w') \<Rightarrow>
    same_natives w' w0 \<and> w_strings w' = w_strings w \<and> w_rnd w' = w_rnd w \<and>
    tls_owned c' = [] \<and> c_conn c' = None"
proof -
  define d where "d = c\<lparr>c_conn := None, c_remote_address_zv := Addr_undef,
    c_local_address_zv := Addr_undef, c_close_reason := None\<rparr>"
  have o: "tls_owned d = tls_owned c" by (simp add: d_def tls_owned_def)
  have l: "th_live (w_tls w) = tls_owned d @ th_live (w_tls w0)" using assms by (simp add: owns_def o)
  obtain d' heap where p: "php_quic_tls_gnutls_cleanup d (w_tls w) = (d', heap)" by fastforce
  have r: "tls_owned d' = []" "th_live heap = th_live (w_tls w0)" "th_bad heap = th_bad (w_tls w)"
    "d' = d\<lparr>c_cred := None, c_session := None\<rparr>"
    using tls_cleanup_owned[OF l] unfolding p Let_def prod.case by blast+
  have norm: "(if c_conn c \<noteq> None then (c\<lparr>c_conn := None\<rparr>, w\<lparr>w_conns := w_conns w - 1\<rparr>) else (c, w)) =
      (c\<lparr>c_conn := None\<rparr>, if c_conn c = None then w else w\<lparr>w_conns := w_conns w - 1\<rparr>)"
    by simp
  have e: "php_quic_connection_free_object c w =
      (d'\<lparr>c_events := php_quic_event_queue_destroy (c_events d'), c_streams := []\<rparr>,
       (if c_conn c = None then w else w\<lparr>w_conns := w_conns w - 1\<rparr>)\<lparr>w_tls := heap\<rparr>)"
  proof -
    have a: "(if c_remote_address_zv x \<noteq> Addr_undef then x\<lparr>c_remote_address_zv := Addr_undef\<rparr> else x) =
        x\<lparr>c_remote_address_zv := Addr_undef\<rparr>"
      "(if c_local_address_zv x \<noteq> Addr_undef then x\<lparr>c_local_address_zv := Addr_undef\<rparr> else x) =
        x\<lparr>c_local_address_zv := Addr_undef\<rparr>"
      "(if c_close_reason x \<noteq> None then x\<lparr>c_close_reason := None\<rparr> else x) = x\<lparr>c_close_reason := None\<rparr>"
      for x :: "'a php_quic_connection"
      by (cases x; simp)+
    have t: "w_tls (if c_conn c = None then w else w\<lparr>w_conns := w_conns w - 1\<rparr>) = w_tls w" by simp
    show ?thesis
      unfolding php_quic_connection_free_object_def norm Let_def prod.case a t
      unfolding d_def[symmetric] p prod.case ..
  qed
  show ?thesis
    unfolding e prod.case using assms r
    by (auto simp: same_natives_def owns_def tls_owned_def d_def)
qed

subsection \<open>A sample system\<close>

text \<open>
  A system on which everything succeeds, over the sample library, and a world with no native
  resources.
\<close>

definition sample_system :: "(sample_conn, nat) system" where
  "sample_system =
     \<lparr>y_ngtcp2 = sample_ngtcp2,
      y_getaddrinfo = (\<lambda>host service. Some [\<lparr>sa_family = AF_INET, sa_addr = [192, 0, 2, 1], sa_port = 443\<rparr>]),
      y_gnutls = (\<lambda>call. 0), y_gnutls_rnd = (\<lambda>r n. (Some (replicate n CHR ''r''), Suc r)),
      y_inet_pton = (\<lambda>family host. family = AF_INET), y_inet_ntop = (\<lambda>family a. ''0.0.0.0''),
      y_getenv = (\<lambda>name. None)\<rparr>"

definition sample_world :: "nat world" where
  "sample_world = \<lparr>w_tls = \<lparr>th_live = [], th_next = 0, th_bad = False\<rparr>, w_rnd = 0, w_conns = 0, w_strings = 0\<rparr>"

lemma sample_system_simps [simp]:
  "y_ngtcp2 sample_system = sample_ngtcp2"
  "y_getaddrinfo sample_system host service = Some [\<lparr>sa_family = AF_INET, sa_addr = [192, 0, 2, 1], sa_port = 443\<rparr>]"
  "y_gnutls sample_system call = 0"
  "y_gnutls_rnd sample_system r n = (Some (replicate n CHR ''r''), Suc r)"
  "y_inet_pton sample_system family host \<longleftrightarrow> family = AF_INET"
  "y_getenv sample_system name = None"
  by (simp_all add: sample_system_def)

lemma sample_ngtcp2_new [simp]:
  "ngtcp2_conn_client_new sample_ngtcp2 dcid scid path v now params = (None, (8, []))"
  "ngtcp2_conn_server_new sample_ngtcp2 dcid scid path v now params = (None, (8, []))"
  "ngtcp2_conn_set_tls_native_handle sample_ngtcp2 n h = n"
  "ngtcp2_pkt_decode_version_cid sample_ngtcp2 p = (None, \<lparr>vc_version = 1, vc_dcid = take 8 p, vc_scid = ''''\<rparr>)"
  "ngtcp2_is_supported_version sample_ngtcp2 v \<longleftrightarrow> v = 1"
  "NGTCP2_MAX_CIDLEN sample_ngtcp2 = 20"
  by (simp_all add: sample_ngtcp2_def)

end
