(* ===== verification/Quic_Construct.thy ===== *)
theory Quic_Construct
  imports Quic_Native Quic_Config Quic_Machine_Props
begin

text \<open>
  \<^verbatim>\<open>Connection::__construct\<close> and \<^verbatim>\<open>php_quic_connection_init_native\<close> of
  \<^verbatim>\<open>src/connection.c\<close>: how a client connection is made. A call returns its outcome, the
  object, which exists whether or not the constructor throws, and the world.
\<close>

definition client_transport_params :: "'c ngtcp2 \<Rightarrow> ngtcp2_transport_params" where
  "client_transport_params L =
     (ngtcp2_transport_params_default L)\<lparr>initial_max_streams_bidi := 16,
        initial_max_streams_uni := 3,
        initial_max_stream_data_bidi_local := 128 * 1024,
        initial_max_stream_data_bidi_remote := 128 * 1024,
        initial_max_data := 1024 * 1024,
        max_idle_timeout := 30 * NGTCP2_SECONDS L\<rparr>"

text \<open>
  \<open>ngtcp2_conn_client_new\<close> stores the new connection through its first argument when it
  succeeds; on failure it is taken to leave the pointer alone. \<open>True\<close> is \<^verbatim>\<open>SUCCESS\<close>.
\<close>

definition php_quic_connection_init_native ::
  "('c, 'r) system \<Rightarrow> 'c php_quic_connection \<Rightarrow> 'r world \<Rightarrow> bool \<times> 'c php_quic_connection \<times> 'r world" where
  "php_quic_connection_init_native Y c w =
     (let L = y_ngtcp2 Y in
      case php_quic_fill_random Y (NGTCP2_MIN_INITIAL_DCIDLEN L) w of
        (None, w1) \<Rightarrow> (False, c, w1)
      | (Some dcid, w1) \<Rightarrow>
          (case php_quic_fill_random Y 8 w1 of
             (None, w2) \<Rightarrow> (False, c, w2)
           | (Some scid, w2) \<Rightarrow>
               let (initial_ts, c1) = php_quic_timestamp c;
                   path = \<lparr>path_local = c_local_addr c1, path_remote = c_remote_addr c1\<rparr>;
                   (rv, conn) = ngtcp2_conn_client_new L dcid scid path (NGTCP2_PROTO_VER_V1 L)
                                  initial_ts (client_transport_params L)
               in if rv \<noteq> None then (False, c1, w2)
                  else (True, c1\<lparr>c_conn := Some (ngtcp2_conn_set_tls_native_handle L conn (c_session c1))\<rparr>,
                        w2\<lparr>w_conns := Suc (w_conns w2)\<rparr>)))"

text \<open>The server name sent to the peer, before the C string conventions cut it.\<close>

definition construct_sni ::
  "('c, 'r) system \<Rightarrow> php_quic_client_config option \<Rightarrow> php_quic_address \<Rightarrow> zstring" where
  "construct_sni Y config remote_address =
     (case (case config of Some cfg \<Rightarrow> cc_server_name cfg | None \<Rightarrow> None) of
        Some name \<Rightarrow> cstr name
      | None \<Rightarrow>
          if php_quic_is_numeric_host Y (cstr (ad_host remote_address)) then ''localhost''
          else cstr (ad_host remote_address))"

definition Connection_construct ::
  "('c, 'r) system \<Rightarrow> php_quic_address \<Rightarrow> php_quic_client_config option \<Rightarrow>
   'c php_quic_connection \<Rightarrow> 'r world \<Rightarrow> unit outcome \<times> 'c php_quic_connection \<times> 'r world" where
  "Connection_construct Y remote_address config c w =
     (let local_address = (case config of
              Some cfg \<Rightarrow> (case cc_local_address cfg of Addr a \<Rightarrow> Some a | _ \<Rightarrow> None)
            | None \<Rightarrow> None);
          alpn = (case config of
              Some cfg \<Rightarrow> (case cc_alpn cfg of Some a \<Rightarrow> a | None \<Rightarrow> ''h3'')
            | None \<Rightarrow> ''h3'');
          c1 = c\<lparr>c_remote_address_zv := Addr remote_address,
                 c_local_address_zv := nullable_address local_address\<rparr>
      in case php_quic_address_to_sockaddr (y_getaddrinfo Y) (Some remote_address) of
           None \<Rightarrow> (Inl (Exception ''Invalid remote address''), c1, w)
         | Some remote_addr \<Rightarrow>
             let c2 = c1\<lparr>c_remote_addr := Some remote_addr\<rparr> in
             (case (case local_address of
                      Some a \<Rightarrow> php_quic_address_to_sockaddr (y_getaddrinfo Y) (Some a)
                    | None \<Rightarrow> Some (php_quic_default_local_addr (sa_family remote_addr))) of
                None \<Rightarrow> (Inl (Exception ''Invalid local address''), c2, w)
              | Some local_addr \<Rightarrow>
                  let c3 = c2\<lparr>c_local_addr := Some local_addr\<rparr>;
                      (tls_ok, c4, heap) =
                        (if c_session c3 = None
                         then php_quic_tls_gnutls_init_client (y_gnutls Y) (Some alpn) c3 (w_tls w)
                         else (True, c3, w_tls w));
                      w1 = w\<lparr>w_tls := heap\<rparr>
                  in if \<not> tls_ok
                     then (Inl (Exception ''Failed to initialize GnuTLS for QUIC connection''), c4, w1)
                     else
                       let sni = construct_sni Y config remote_address;
                           rv = (if sni \<noteq> '''' then y_gnutls Y (Gnutls_server_name_set sni) else 0)
                       in if rv \<noteq> 0
                          then (Inl (Gnutls_failed ''gnutls_server_name_set'' rv), c4, w1)
                          else
                            let (ok, c5, w2) = php_quic_connection_init_native Y c4 w1
                            in if \<not> ok
                               then (Inl (Exception ''Failed to initialize ngtcp2 connection''), c5, w2)
                               else (Inr (), c5, w2)))"

subsection \<open>Native resources\<close>

lemma init_native_owns:
  assumes "owns c w w0" and "c_conn c = None"
  shows "case php_quic_connection_init_native Y c w of (ok, c', w') \<Rightarrow>
    owns c' w' w0 \<and> w_strings w' = w_strings w \<and> (ok \<longleftrightarrow> c_conn c' \<noteq> None) \<and>
    (\<exists>i n. c' = c\<lparr>c_reads := i, c_conn := n\<rparr>)"
proof -
  obtain dcid w1 where f: "php_quic_fill_random Y (NGTCP2_MIN_INITIAL_DCIDLEN (y_ngtcp2 Y)) w = (dcid, w1)" by fastforce
  obtain scid w2 where g: "php_quic_fill_random Y 8 w1 = (scid, w2)" by fastforce
  have w: "w_tls w1 = w_tls w" "w_conns w1 = w_conns w" "w_strings w1 = w_strings w"
      "w_tls w2 = w_tls w" "w_conns w2 = w_conns w" "w_strings w2 = w_strings w"
    using fill_random_frame[of Y "NGTCP2_MIN_INITIAL_DCIDLEN (y_ngtcp2 Y)" w] fill_random_frame[of Y 8 w1]
    by (simp_all add: f g)
  have c: "\<exists>i n. c = c\<lparr>c_reads := i, c_conn := n\<rparr>"
    by (rule exI[of _ "c_reads c"], rule exI[of _ "c_conn c"]) simp
  have c': "\<exists>i n. c\<lparr>c_reads := j\<rparr> = c\<lparr>c_reads := i, c_conn := n\<rparr>" for j
    by (rule exI[of _ j], rule exI[of _ "c_conn c"]) simp
  show ?thesis
    using assms w c c' unfolding php_quic_connection_init_native_def Let_def f prod.case
    by (cases dcid; cases scid)
       (auto simp: g owns_def tls_owned_def php_quic_timestamp_def split: prod.split)
qed

text \<open>
  The stages of the constructor: it either throws before anything is allocated, leaving only
  addresses changed, or reaches the TLS stage with both socket addresses set.
\<close>

lemma find_family:
  "find (\<lambda>rp. sa_family rp = AF_INET \<or> sa_family rp = AF_INET6) res = Some sa \<Longrightarrow>
    sa_family sa = AF_INET \<or> sa_family sa = AF_INET6"
  by (auto simp: find_Some_iff)

lemma to_sockaddr_family:
  "php_quic_address_to_sockaddr gai a = Some sa \<Longrightarrow> sa_family sa = AF_INET \<or> sa_family sa = AF_INET6"
  by (auto simp: php_quic_address_to_sockaddr_def Let_def split: option.splits if_splits dest: find_family)

lemma default_local_family:
  "family = AF_INET \<or> family = AF_INET6 \<Longrightarrow> sa_family (php_quic_default_local_addr family) = family"
  by (auto simp: php_quic_default_local_addr_def)

text \<open>What the constructor leaves alone.\<close>

definition construct_frame :: "'c php_quic_connection \<Rightarrow> 'c php_quic_connection \<Rightarrow> bool" where
  "construct_frame c c' \<longleftrightarrow>
     c_last_error c' = c_last_error c \<and> c_close_reason c' = c_close_reason c \<and> c_streams c' = c_streams c \<and>
     c_events c' = c_events c \<and> c_next_bidi_stream_id c' = c_next_bidi_stream_id c \<and>
     c_next_uni_stream_id c' = c_next_uni_stream_id c \<and> c_established c' = c_established c \<and>
     c_draining c' = c_draining c \<and> c_closed c' = c_closed c \<and> c_close_requested c' = c_close_requested c \<and>
     c_close_packet_sent c' = c_close_packet_sent c \<and> c_close_event_emitted c' = c_close_event_emitted c \<and>
     c_draining_event_emitted c' = c_draining_event_emitted c \<and> c_hrtime c' = c_hrtime c"

lemma construct_frame_fresh: "construct_frame c c' \<Longrightarrow> fresh_connection c \<Longrightarrow> fresh_connection c'"
  by (cases c; cases c') (auto simp: construct_frame_def fresh_connection_def conn_wf_def flags_wf_def)

definition construct_post ::
  "('c, 'r) system \<Rightarrow> php_quic_address \<Rightarrow> php_quic_client_config option \<Rightarrow> 'c php_quic_connection \<Rightarrow>
   'r world \<Rightarrow> unit outcome \<times> 'c php_quic_connection \<times> 'r world \<Rightarrow> bool" where
  "construct_post Y remote config c w r \<longleftrightarrow>
     (case r of (res, c', w') \<Rightarrow>
        construct_frame c c' \<and> owns c' w' w \<and> w_strings w' = w_strings w \<and>
        c_remote_address_zv c' = Addr remote \<and>
        (case res of
           Inl e \<Rightarrow> c_conn c' = None
         | Inr _ \<Rightarrow> c_conn c' \<noteq> None \<and> c_session c' \<noteq> None \<and> c_cred c' \<noteq> None \<and>
             (\<exists>ra la. php_quic_address_to_sockaddr (y_getaddrinfo Y) (Some remote) = Some ra \<and>
                c_remote_addr c' = Some ra \<and> c_local_addr c' = Some la \<and>
                (case c_local_address_zv c' of
                   Addr a \<Rightarrow> php_quic_address_to_sockaddr (y_getaddrinfo Y) (Some a) = Some la
                 | _ \<Rightarrow> la = php_quic_default_local_addr (sa_family ra) \<and> sa_family la = sa_family ra))))"

lemma construct_new_post:
  assumes c: "c_conn c = None" "c_session c = None" "c_cred c = None"
  shows "construct_post Y remote config c w (Connection_construct Y remote config c w)"
proof -
  define local where "local = (case config of
              Some cfg \<Rightarrow> (case cc_local_address cfg of Addr a \<Rightarrow> Some a | _ \<Rightarrow> None) | None \<Rightarrow> None)"
  define alpn where "alpn = (case config of
              Some cfg \<Rightarrow> (case cc_alpn cfg of Some a \<Rightarrow> a | None \<Rightarrow> ''h3'') | None \<Rightarrow> ''h3'')"
  let ?c1 = "c\<lparr>c_remote_address_zv := Addr remote, c_local_address_zv := nullable_address local\<rparr>"
  have own0: "owns d w w" if "c_conn d = None" "c_session d = None" "c_cred d = None" for d :: "'a php_quic_connection"
    using that by (simp add: owns_def tls_owned_def)
  note unf = Connection_construct_def local_def[symmetric] alpn_def[symmetric]
  show ?thesis
  proof (cases "php_quic_address_to_sockaddr (y_getaddrinfo Y) (Some remote)")
    case None
    then show ?thesis using c own0
      by (simp add: unf Let_def construct_post_def construct_frame_def)
  next
    case ra: (Some ra)
    define lo where "lo = (case local of
                      Some a \<Rightarrow> php_quic_address_to_sockaddr (y_getaddrinfo Y) (Some a)
                    | None \<Rightarrow> Some (php_quic_default_local_addr (sa_family ra)))"
    show ?thesis
    proof (cases lo)
      case None
      then show ?thesis using c own0
        by (simp add: unf Let_def ra lo_def[symmetric] construct_post_def construct_frame_def)
    next
      case (Some la)
      let ?c3 = "?c1\<lparr>c_remote_addr := Some ra, c_local_addr := Some la\<rparr>"
      have c3: "c_session ?c3 = None" "c_cred ?c3 = None" using c by simp_all
      obtain ok c4 heap where t: "php_quic_tls_gnutls_init_client (y_gnutls Y) (Some alpn) ?c3 (w_tls w) = (ok, c4, heap)"
        by (metis prod_cases3)
      let ?w1 = "w\<lparr>w_tls := heap\<rparr>"
      have tok: "tls_init_ok ?c3 (w_tls w) (ok, c4, heap)"
        using tls_init_client_ok[OF c3, of "w_tls w" "y_gnutls Y" "Some alpn"] by (simp only: t)
      then have "\<exists>x y. c4 = ?c3\<lparr>c_cred := x, c_session := y\<rparr>" by (auto simp: tls_init_ok_def)
      then obtain x y where c4: "c4 = ?c3\<lparr>c_cred := x, c_session := y\<rparr>" by blast
      have own: "owns c4 ?w1 w" using tok c c4 by (simp add: tls_init_ok_def owns_def)
      have n4: "c_conn c4 = None" using c c4 by simp
      have s4: "ok \<Longrightarrow> c_session c4 \<noteq> None \<and> c_cred c4 \<noteq> None" using tok by (simp add: tls_init_ok_def)
      obtain ok' c5 w2 where i: "php_quic_connection_init_native Y c4 ?w1 = (ok', c5, w2)" by (metis prod_cases3)
      have i': "owns c5 w2 w" "w_strings w2 = w_strings w" "ok' \<longleftrightarrow> c_conn c5 \<noteq> None"
        "\<exists>j n. c5 = c4\<lparr>c_reads := j, c_conn := n\<rparr>"
        using init_native_owns[OF own n4, of Y] by (simp_all add: i)
      have fr: "construct_frame c c4" by (simp add: c4 construct_frame_def)
      have fr5: "construct_frame c c5" "c_remote_address_zv c5 = Addr remote" "c_remote_addr c5 = Some ra"
        "c_local_addr c5 = Some la" "c_local_address_zv c5 = nullable_address local"
        "c_session c5 = c_session c4" "c_cred c5 = c_cred c4"
        using i'(4) by (auto simp: c4 construct_frame_def)
      have la: "case nullable_address local of
                   Addr a \<Rightarrow> php_quic_address_to_sockaddr (y_getaddrinfo Y) (Some a) = Some la
                 | _ \<Rightarrow> la = php_quic_default_local_addr (sa_family ra) \<and> sa_family la = sa_family ra"
        using Some default_local_family[OF to_sockaddr_family[OF ra]]
        by (auto simp: lo_def nullable_address_def split: option.splits)
      have zv: "c_remote_address_zv c4 = Addr remote" by (simp add: c4)
      have c3': "c_session ?c3 = None" using c by simp
      define sni where "sni = construct_sni Y config remote"
      define rv where "rv = (if sni \<noteq> '''' then y_gnutls Y (Gnutls_server_name_set sni) else 0)"
      have e: "Connection_construct Y remote config c w =
          (if \<not> ok then (Inl (Exception ''Failed to initialize GnuTLS for QUIC connection''), c4, ?w1)
           else if rv \<noteq> 0 then (Inl (Gnutls_failed ''gnutls_server_name_set'' rv), c4, ?w1)
           else if \<not> ok' then (Inl (Exception ''Failed to initialize ngtcp2 connection''), c5, w2)
           else (Inr (), c5, w2))"
        unfolding unf Let_def ra option.case lo_def[symmetric] Some if_P[OF c3'] t prod.case
          sni_def[symmetric] rv_def[symmetric] i ..
      show ?thesis
        unfolding e construct_post_def
        using own n4 s4 i'(1-3) fr fr5 la ra zv by simp
    qed
  qed
qed

text \<open>
  C25. A new connection object and its native resources. Whatever fails on the way, the
  constructor leaves the object in the initial state of the connection machine (no event, no
  stream, no flag); it returns exactly when the object has an \<^verbatim>\<open>ngtcp2_conn\<close>, together with a
  TLS session and credentials and the socket addresses of the remote and the local end, the
  latter of the family of the former when none is configured; and destroying the object, after
  success or failure, gives back every TLS handle and library connection it made, exactly once.
\<close>

theorem construct_new_connection:
  "case Connection_construct Y remote config (php_quic_connection_create_object (y_ngtcp2 Y) hr) w of
     (res, c, w') \<Rightarrow>
       fresh_connection c \<and> c_streams c = [] \<and> (is_ok res \<longleftrightarrow> c_conn c \<noteq> None) \<and>
       (is_ok res \<longrightarrow> c_session c \<noteq> None \<and> c_cred c \<noteq> None \<and>
          (\<exists>ra la. php_quic_address_to_sockaddr (y_getaddrinfo Y) (Some remote) = Some ra \<and>
             c_remote_addr c = Some ra \<and> c_local_addr c = Some la \<and>
             (c_local_address_zv c = Addr_null \<longrightarrow> sa_family la = sa_family ra))) \<and>
       (case php_quic_connection_free_object c w' of (c2, w2) \<Rightarrow>
          same_natives w2 w \<and> w_strings w2 = w_strings w \<and> c_conn c2 = None \<and> tls_owned c2 = [])"
proof -
  let ?c0 = "php_quic_connection_create_object (y_ngtcp2 Y) hr"
  have c0: "c_conn ?c0 = None" "c_session ?c0 = None" "c_cred ?c0 = None" "c_streams ?c0 = []"
    by (simp_all add: php_quic_connection_create_object_def)
  have f0: "fresh_connection ?c0"
    using create_object_wf by (simp add: fresh_connection_def php_quic_connection_create_object_def event_queue.items_init)
  obtain res c w' where r: "Connection_construct Y remote config ?c0 w = (res, c, w')" by (metis prod_cases3)
  have p: "construct_post Y remote config ?c0 w (res, c, w')"
    using construct_new_post[OF c0(1-3), of Y remote config w] by (simp only: r)
  then have frame: "construct_frame ?c0 c" and own: "owns c w' w" and s: "w_strings w' = w_strings w"
    by (simp_all add: construct_post_def)
  from free_object_natives[OF own] s
  have "case php_quic_connection_free_object c w' of (c2, w2) \<Rightarrow>
          same_natives w2 w \<and> w_strings w2 = w_strings w \<and> c_conn c2 = None \<and> tls_owned c2 = []"
    by (auto split: prod.splits)
  moreover have "fresh_connection c" by (rule construct_frame_fresh[OF frame f0])
  moreover have "c_streams c = []" using frame c0 by (simp add: construct_frame_def)
  ultimately show ?thesis using p by (auto simp: r construct_post_def split: sum.splits)
qed

lemma sample_construct_ok:
  "is_ok (fst (Connection_construct sample_system \<lparr>ad_host = ''h'', ad_port = 443\<rparr> None
      (php_quic_connection_create_object (y_ngtcp2 sample_system) (\<lambda>i. 0)) sample_world))"
  by (simp add: Connection_construct_def php_quic_address_to_sockaddr_def
      php_quic_tls_gnutls_init_client_def tls_alloc_def php_quic_connection_init_native_def
      php_quic_fill_random_def sample_system_def sample_world_def php_quic_timestamp_def Let_def
      php_quic_connection_create_object_def construct_sni_def sample_ngtcp2_def)

theorem construct_new_connection_witness:
  "case Connection_construct sample_system \<lparr>ad_host = ''h'', ad_port = 443\<rparr> None
      (php_quic_connection_create_object (y_ngtcp2 sample_system) (\<lambda>i. 0)) sample_world of
     (res, c, w') \<Rightarrow> c_conn c \<noteq> None \<and> c_session c \<noteq> None \<and>
       (case php_quic_connection_free_object c w' of (c2, w2) \<Rightarrow> same_natives w2 sample_world)"
  using construct_new_connection[where Y = sample_system and remote = "\<lparr>ad_host = ''h'', ad_port = 443\<rparr>"
      and config = None and hr = "\<lambda>i. 0" and w = sample_world]
    sample_construct_ok by (auto split: prod.splits)

subsection \<open>Credit for the peer's streams\<close>

text \<open>
  A client lets its peer open three unidirectional streams but sets no credit for their data: it
  stays at the library's default, documented as 0 for every parameter that is not set.
\<close>

theorem client_uni_stream_credit:
  "initial_max_streams_uni (client_transport_params L) = 3 \<and>
   initial_max_stream_data_uni (client_transport_params L) =
     initial_max_stream_data_uni (ngtcp2_transport_params_default L)"
  by (simp add: client_transport_params_def)

subsection \<open>Constructing twice\<close>

text \<open>
  Nothing stops a script from calling the constructor again. The TLS session is reused, but a
  second \<^verbatim>\<open>ngtcp2_conn\<close> overwrites the pointer to the first, which is never deleted.
\<close>

lemma init_native_counts:
  "case php_quic_connection_init_native Y c w of (ok, c', w') \<Rightarrow>
     w_tls w' = w_tls w \<and> w_strings w' = w_strings w \<and>
     w_conns w' = (if ok then 1 else 0) + w_conns w \<and> (ok \<longrightarrow> c_conn c' \<noteq> None)"
proof -
  obtain dcid w1 where f: "php_quic_fill_random Y (NGTCP2_MIN_INITIAL_DCIDLEN (y_ngtcp2 Y)) w = (dcid, w1)" by fastforce
  obtain scid w2 where g: "php_quic_fill_random Y 8 w1 = (scid, w2)" by fastforce
  have w: "w_tls w1 = w_tls w" "w_conns w1 = w_conns w" "w_strings w1 = w_strings w"
      "w_tls w2 = w_tls w" "w_conns w2 = w_conns w" "w_strings w2 = w_strings w"
    using fill_random_frame[of Y "NGTCP2_MIN_INITIAL_DCIDLEN (y_ngtcp2 Y)" w] fill_random_frame[of Y 8 w1]
    by (simp_all add: f g)
  show ?thesis unfolding php_quic_connection_init_native_def Let_def f prod.case
    by (cases dcid; cases scid) (auto simp: g w split: prod.split)
qed

lemma construct_counts:
  assumes "Connection_construct Y remote config c w = (Inr u, c', w')"
  shows "w_conns w' = Suc (w_conns w) \<and> c_conn c' \<noteq> None"
proof -
  from assms obtain c4 w4 where
    i: "php_quic_connection_init_native Y c4 w4 = (True, c', w')" and w4: "w_conns w4 = w_conns w"
    by (force simp: Connection_construct_def Let_def split: option.splits prod.splits if_splits)
  show ?thesis using init_native_counts[where Y = Y and c = c4 and w = w4] w4 by (simp add: i)
qed

theorem construct_twice_leaks:
  assumes "Connection_construct Y remote config c w = (Inr u, c1, w1)"
    and "Connection_construct Y remote' config' c1 w1 = (Inr u', c2, w2)"
  shows "w_conns (snd (php_quic_connection_free_object c2 w2)) = Suc (w_conns w)"
  using construct_counts[OF assms(1)] construct_counts[OF assms(2)]
  by (auto simp: php_quic_connection_free_object_def Let_def split: prod.splits if_splits)

end
