(* ===== verification/Quic_Server_Connection.thy ===== *)
theory Quic_Server_Connection
  imports Quic_Construct
begin

text \<open>
  \<^verbatim>\<open>src/server_connection.c\<close>: \<^verbatim>\<open>ServerConnection::accept\<close>, which makes a server
  connection out of a client's first datagram. The method is split where the source changes
  what has to be undone on failure: decoding and addresses (nothing allocated yet), the new
  object, and the native stages. \<open>hr\<close> is the clock the new connection will read.
\<close>

definition tolower :: "char \<Rightarrow> char" where
  "tolower c = (let n = of_char c :: nat in if 65 \<le> n \<and> n \<le> 90 then char_of (n + 32) else c)"

definition strcasecmp_eq :: "zstring \<Rightarrow> zstring \<Rightarrow> bool" where
  "strcasecmp_eq s t \<longleftrightarrow> map tolower s = map tolower t"

definition php_quic_test_force_server_new_failure :: "('c, 'r) system \<Rightarrow> bool" where
  "php_quic_test_force_server_new_failure Y \<longleftrightarrow>
     (case y_getenv Y ''NGTCP2_TEST_FORCE_SERVER_NEW_FAILURE'' of
        None \<Rightarrow> False
      | Some flag \<Rightarrow> flag = ''1'' \<or> strcasecmp_eq flag ''true'' \<or> strcasecmp_eq flag ''yes'')"

definition php_quic_server_set_stateless_reset_token ::
  "('c, 'r) system \<Rightarrow> ngtcp2_transport_params \<Rightarrow> 'r world \<Rightarrow> bool \<times> ngtcp2_transport_params \<times> 'r world" where
  "php_quic_server_set_stateless_reset_token Y params w =
     (case php_quic_fill_random Y (NGTCP2_STATELESS_RESET_TOKENLEN (y_ngtcp2 Y)) w of
        (None, w1) \<Rightarrow> (False, params\<lparr>stateless_reset_token := None\<rparr>, w1)
      | (Some token, w1) \<Rightarrow> (True, params\<lparr>stateless_reset_token := Some token\<rparr>, w1))"

definition server_transport_params :: "'c ngtcp2 \<Rightarrow> ngtcp2_transport_params" where
  "server_transport_params L =
     (ngtcp2_transport_params_default L)\<lparr>
        initial_max_stream_data_bidi_local := 64 * 1024,
        initial_max_stream_data_bidi_remote := 64 * 1024,
        initial_max_stream_data_uni := 64 * 1024,
        initial_max_data := 1024 * 1024,
        initial_max_streams_bidi := 16,
        initial_max_streams_uni := 16,
        max_idle_timeout := 30 * NGTCP2_SECONDS L,
        active_connection_id_limit := 7\<rparr>"

subsection \<open>The stages of accept\<close>

definition accept_decode :: "'c ngtcp2 \<Rightarrow> php_quic_datagram \<Rightarrow> ngtcp2_version_cid outcome" where
  "accept_decode L initial =
     (if length (dg_payload initial) = 0
      then Inl (Exception ''ServerConnection::accept [initial]: initial datagram payload is empty'')
      else
        (case ngtcp2_pkt_decode_version_cid L (dg_payload initial) of
           (rv, vc) \<Rightarrow>
             if rv \<noteq> None \<and> rv \<noteq> Some NGTCP2_ERR_VERSION_NEGOTIATION
             then Inl (Call_failed ''ServerConnection::accept [decode]: failed to decode initial datagram'' (the rv))
             else if \<not> ngtcp2_is_supported_version L (vc_version vc)
             then Inl (Unsupported_version (vc_version vc))
             else if length (vc_dcid vc) > NGTCP2_MAX_CIDLEN L \<or> length (vc_scid vc) > NGTCP2_MAX_CIDLEN L
             then Inl (Exception ''ServerConnection::accept [decode]: initial datagram has unsupported CID length'')
             else Inr vc))"

definition accept_addresses ::
  "getaddrinfo \<Rightarrow> php_quic_datagram \<Rightarrow> php_quic_address option \<Rightarrow> (sockaddr \<times> sockaddr) outcome" where
  "accept_addresses gai initial effective_local =
     (case php_quic_address_to_sockaddr gai (address_of_zval (dg_peer_address initial)) of
        None \<Rightarrow> Inl (Exception ''ServerConnection::accept [address]: Datagram.peerAddress is invalid'')
      | Some remote_addr \<Rightarrow>
          (case effective_local of
             Some a \<Rightarrow>
               (case php_quic_address_to_sockaddr gai (Some a) of
                  None \<Rightarrow> Inl (Exception ''ServerConnection::accept [address]: localAddress is invalid'')
                | Some local_addr \<Rightarrow> Inr (remote_addr, local_addr))
           | None \<Rightarrow>
               (case dg_local_address initial of
                  Addr a \<Rightarrow>
                    (case php_quic_address_to_sockaddr gai (Some a) of
                       None \<Rightarrow> Inl (Exception ''ServerConnection::accept [address]: Datagram.localAddress is invalid'')
                     | Some local_addr \<Rightarrow> Inr (remote_addr, local_addr))
                | _ \<Rightarrow> Inr (remote_addr, php_quic_default_local_addr (sa_family remote_addr)))))"

definition accept_object ::
  "('c, 'r) system \<Rightarrow> (nat \<Rightarrow> u64) \<Rightarrow> php_quic_datagram \<Rightarrow> php_quic_address option \<Rightarrow>
   sockaddr \<Rightarrow> sockaddr \<Rightarrow> 'c php_quic_connection" where
  "accept_object Y hr initial effective_local remote_addr local_addr =
     (php_quic_connection_create_object (y_ngtcp2 Y) hr)\<lparr>
        c_remote_address_zv := dg_peer_address initial,
        c_local_address_zv :=
          (case effective_local of
             Some a \<Rightarrow> Addr a
           | None \<Rightarrow>
               (case dg_local_address initial of
                  Addr a \<Rightarrow> Addr a
                | _ \<Rightarrow> Addr (php_quic_address_init_from_sockaddr (y_inet_ntop Y) (Some local_addr)))),
        c_remote_addr := Some remote_addr,
        c_local_addr := Some local_addr\<rparr>"

definition release_strings :: "'r world \<Rightarrow> 'r world" where
  "release_strings w = w\<lparr>w_strings := w_strings w - 3\<rparr>"

text \<open>How every native stage fails: the strings are released, the object is destroyed, and
  the exception is thrown.\<close>

definition accept_fail ::
  "php_throw \<Rightarrow> 'c php_quic_connection \<Rightarrow> 'r world \<Rightarrow> 'c php_quic_connection outcome \<times> 'r world" where
  "accept_fail e c w = (Inl e, snd (php_quic_connection_free_object c (release_strings w)))"

definition accept_native ::
  "('c, 'r) system \<Rightarrow> zstring \<Rightarrow> zstring \<Rightarrow> zstring \<Rightarrow> ngtcp2_version_cid \<Rightarrow> zstring \<Rightarrow>
   'c php_quic_connection \<Rightarrow> 'r world \<Rightarrow> 'c php_quic_connection outcome \<times> 'r world" where
  "accept_native Y cert_file key_file alpn vc payload c w =
     (let L = y_ngtcp2 Y;
          (tls_ok, c1, heap) = php_quic_tls_gnutls_init_server (y_gnutls Y) (Some cert_file)
                                 (Some key_file) (Some alpn) c (w_tls w);
          w1 = w\<lparr>w_tls := heap\<rparr>
      in if \<not> tls_ok
         then accept_fail (Exception ''ServerConnection::accept [tls]: failed to initialize server-side GnuTLS session'') c1 w1
         else (case php_quic_fill_random Y 18 w1 of
           (None, w2) \<Rightarrow>
             accept_fail (Exception ''ServerConnection::accept [cid]: failed to generate server SCID'') c1 w2
         | (Some scid, w2) \<Rightarrow>
             let (initial_ts, c2) = php_quic_timestamp c1;
                 (token_ok, params, w3) =
                   php_quic_server_set_stateless_reset_token Y (server_transport_params L) w2
             in if \<not> token_ok
                then accept_fail (Exception ''ServerConnection::accept [transport]: failed to generate stateless reset token'') c2 w3
                else
                  let params1 = params\<lparr>original_dcid := Some (vc_dcid vc)\<rparr>;
                      path = \<lparr>path_local = c_local_addr c2, path_remote = c_remote_addr c2\<rparr>
                  in if php_quic_test_force_server_new_failure Y
                     then accept_fail (Exception ''ServerConnection::accept [ngtcp2:new]: forced failure by NGTCP2_TEST_FORCE_SERVER_NEW_FAILURE'') c2 w3
                     else
                       let (rv, conn) = ngtcp2_conn_server_new L (vc_scid vc) scid path (vc_version vc)
                                          initial_ts params1
                       in if rv \<noteq> None
                          then accept_fail (Call_failed ''ServerConnection::accept [ngtcp2:new]: ngtcp2_conn_server_new'' (the rv)) c2 w3
                          else
                            let c3 = c2\<lparr>c_conn := Some (ngtcp2_conn_set_tls_native_handle L conn (c_session c2))\<rparr>;
                                w4 = w3\<lparr>w_conns := Suc (w_conns w3)\<rparr>;
                                (now, c4) = php_quic_timestamp c3;
                                (rv2, cbs, conn2) = ngtcp2_conn_read_pkt L (the (c_conn c3)) path payload now;
                                c5 = run_callbacks L cbs (c4\<lparr>c_conn := Some conn2\<rparr>)
                            in if rv2 \<noteq> None
                               then accept_fail (Call_failed ''ServerConnection::accept [ngtcp2:read_initial]: ngtcp2_conn_read_pkt (initial)'' (the rv2)) c5 w4
                               else (Inr c5, release_strings w4)))"

definition ServerConnection_accept ::
  "('c, 'r) system \<Rightarrow> (nat \<Rightarrow> u64) \<Rightarrow> php_quic_datagram \<Rightarrow> php_quic_server_config \<Rightarrow> 'r world \<Rightarrow>
   'c php_quic_connection outcome \<times> 'r world" where
  "ServerConnection_accept Y hr initial config w =
     (let effective_local = (case sc_local_address config of Addr a \<Rightarrow> Some a | _ \<Rightarrow> None) in
      case (sc_cert_file config, sc_key_file config) of
        (Some cert_file, Some key_file) \<Rightarrow>
          let alpn = (case sc_alpn config of Some a \<Rightarrow> a | None \<Rightarrow> ''hq-interop'');
              w1 = w\<lparr>w_strings := w_strings w + 3\<rparr>
          in (case accept_decode (y_ngtcp2 Y) initial of
                Inl e \<Rightarrow> (Inl e, w1)
              | Inr vc \<Rightarrow>
                  (case accept_addresses (y_getaddrinfo Y) initial effective_local of
                     Inl e \<Rightarrow> (Inl e, release_strings w1)
                   | Inr addrs \<Rightarrow>
                       accept_native Y cert_file key_file alpn vc (dg_payload initial)
                         (accept_object Y hr initial effective_local (fst addrs) (snd addrs)) w1))
      | _ \<Rightarrow> (Inl (Exception ''ServerConnection::accept [config]: ServerConfig.certFile and ServerConfig.keyFile are required''), w))"

definition ServerConnection_construct :: "unit outcome" where
  "ServerConnection_construct =
     Inl (Exception (''Varion'' @ [CHR 0x5C] @ ''Ngtcp2'' @ [CHR 0x5C] @
       ''ServerConnection cannot be constructed directly; use ServerConnection::accept()''))"

subsection \<open>Callbacks leave the native side alone\<close>

definition native_frame :: "'c php_quic_connection \<Rightarrow> 'c php_quic_connection \<Rightarrow> bool" where
  "native_frame c c' \<longleftrightarrow>
     c_conn c' = c_conn c \<and> c_cred c' = c_cred c \<and> c_session c' = c_session c \<and>
     c_remote_address_zv c' = c_remote_address_zv c \<and> c_local_address_zv c' = c_local_address_zv c \<and>
     c_remote_addr c' = c_remote_addr c \<and> c_local_addr c' = c_local_addr c"

lemma native_frame_simps [frame, simp]:
  "native_frame c c"
  "native_frame c (php_quic_connection_push_event d t s e b r) = native_frame c d"
  "native_frame c (put_stream_entry d k entry) = native_frame c d"
  "native_frame c (d\<lparr>c_established := est\<rparr>) = native_frame c d"
  by (simp_all add: native_frame_def put_stream_entry_def)

lemma open_stream_entry_native:
  "php_quic_connection_open_stream_entry c sid = (entry, c1) \<Longrightarrow> native_frame c c1"
  by (auto simp: php_quic_connection_open_stream_entry_def Let_def split: option.splits)

lemma invoke_callback_native: "native_frame c (invoke_callback L cb c)"
  by (cases cb) (auto simp: php_quic_handshake_completed_cb_def php_quic_stream_open_cb_def
      php_quic_recv_stream_data_cb_def php_quic_stream_close_cb_def php_quic_stream_reset_cb_def
      php_quic_acked_stream_data_offset_cb_def Let_def split: prod.split option.split
      dest: open_stream_entry_native)

lemma run_callbacks_native: "native_frame c (run_callbacks L cbs c)"
proof (induction cbs arbitrary: c)
  case (Cons cb cbs)
  have "native_frame (invoke_callback L cb c) (run_callbacks L cbs (invoke_callback L cb c))" by (rule Cons)
  with invoke_callback_native[of c L cb] show ?case by (simp add: native_frame_def)
qed simp

subsection \<open>What accept does with the native resources\<close>

text \<open>
  The contract of the native stages, for a fresh object that owns nothing: they release the
  strings, and either give the connection, which owns what was allocated and has taken a good
  step (the callbacks of the first packet) from the fresh object, or give everything back.
\<close>

definition accept_post ::
  "'c php_quic_connection \<Rightarrow> 'r world \<Rightarrow> 'c php_quic_connection outcome \<times> 'r world \<Rightarrow> bool" where
  "accept_post c w r \<longleftrightarrow>
     (case r of
        (Inl e, w') \<Rightarrow> same_natives w' w \<and> w_strings w' = w_strings w - 3
      | (Inr c', w') \<Rightarrow> owns c' w' w \<and> w_strings w' = w_strings w - 3 \<and>
          c_conn c' \<noteq> None \<and> c_session c' \<noteq> None \<and> c_cred c' \<noteq> None \<and>
          native_frame (c\<lparr>c_conn := c_conn c', c_cred := c_cred c', c_session := c_session c'\<rparr>) c' \<and>
          good_step c c')"

lemma accept_fail_post:
  assumes "owns c' w' w" "w_strings w' = w_strings w"
  shows "accept_post c w (accept_fail e c' w')"
proof -
  have "owns c' (release_strings w') w" using assms by (simp add: owns_def release_strings_def)
  from free_object_natives[OF this] show ?thesis
    using assms by (auto simp: accept_fail_def accept_post_def release_strings_def split: prod.splits)
qed

lemma set_token_frame:
  "case php_quic_server_set_stateless_reset_token Y params w of (ok, params', w') \<Rightarrow>
     w_tls w' = w_tls w \<and> w_conns w' = w_conns w \<and> w_strings w' = w_strings w \<and>
     (ok \<longleftrightarrow> stateless_reset_token params' \<noteq> None) \<and> (\<exists>t. params' = params\<lparr>stateless_reset_token := t\<rparr>)"
proof -
  obtain b w1 where f: "php_quic_fill_random Y (NGTCP2_STATELESS_RESET_TOKENLEN (y_ngtcp2 Y)) w = (b, w1)" by fastforce
  show ?thesis using fill_random_frame[of Y "NGTCP2_STATELESS_RESET_TOKENLEN (y_ngtcp2 Y)" w]
    by (cases b) (auto simp: php_quic_server_set_stateless_reset_token_def f)
qed

lemma good_native:
  assumes "conn_wf c" "c_reads c \<le> i"
  shows "good_step c (c\<lparr>c_conn := n, c_cred := x, c_session := y, c_reads := i\<rparr>)"
  using assms by (auto simp: good_step_def event_step_def conn_progress_def conn_wf_def flags_wf_def)

text \<open>The last stage: the first packet is read and its callbacks run.\<close>

lemma accept_read_post:
  fixes c :: "'c php_quic_connection"
  assumes wf: "conn_wf c" and c2: "c2 = c\<lparr>c_cred := Some x, c_session := Some y, c_reads := i\<rparr>" "c_reads c \<le> i"
    and own: "owns c2 w3 w" "c_conn c = None"
    and c5: "c5 = run_callbacks L cbs (c2\<lparr>c_reads := Suc (c_reads c2), c_conn := Some k\<rparr>)"
  shows "owns c5 (w3\<lparr>w_conns := Suc (w_conns w3)\<rparr>) w \<and> c_conn c5 \<noteq> None \<and> c_session c5 \<noteq> None \<and>
    c_cred c5 \<noteq> None \<and> good_step c c5 \<and>
    native_frame (c\<lparr>c_conn := c_conn c5, c_cred := c_cred c5, c_session := c_session c5\<rparr>) c5"
proof -
  let ?c4 = "c2\<lparr>c_reads := Suc (c_reads c2), c_conn := Some k\<rparr>"
  have fr: "native_frame ?c4 c5" unfolding c5 by (rule run_callbacks_native)
  have "good_step c (c\<lparr>c_conn := c_conn c, c_cred := Some x, c_session := Some y, c_reads := i\<rparr>)"
    by (rule good_native[OF wf c2(2)])
  then have g: "good_step c c2" by (simp add: c2(1))
  moreover have "good_step c2 c5"
    unfolding c5 by (rule good_call) (use g in \<open>simp add: good_step_def\<close>)
  ultimately have "good_step c c5" by (rule good_step_trans)
  moreover have "owns c5 (w3\<lparr>w_conns := Suc (w_conns w3)\<rparr>) w"
    using own fr by (simp add: owns_def tls_owned_def native_frame_def c2(1))
  ultimately show ?thesis using fr by (simp add: native_frame_def c2(1))
qed

lemma accept_native_post:
  assumes c: "c_conn c = None" "c_session c = None" "c_cred c = None" and f: "fresh_connection c"
  shows "accept_post c w (accept_native Y cert key alpn vc payload c w)"
proof -
  define L where "L = y_ngtcp2 Y"
  obtain ok c1 heap where t: "php_quic_tls_gnutls_init_server (y_gnutls Y) (Some cert) (Some key) (Some alpn) c (w_tls w)
      = (ok, c1, heap)" by (metis prod_cases3)
  have tok: "tls_init_ok c (w_tls w) (ok, c1, heap)"
    using tls_init_server_ok[OF c(2,3), of "w_tls w" "y_gnutls Y" "Some cert" "Some key" "Some alpn"] by (simp only: t)
  then have "\<exists>x y. c1 = c\<lparr>c_cred := x, c_session := y\<rparr>" by (auto simp: tls_init_ok_def)
  then obtain x y where c1: "c1 = c\<lparr>c_cred := x, c_session := y\<rparr>" by blast
  let ?w1 = "w\<lparr>w_tls := heap\<rparr>"
  have own: "owns c1 ?w1 w" using tok c c1 by (simp add: tls_init_ok_def owns_def)
  have s1: "ok \<Longrightarrow> x \<noteq> None \<and> y \<noteq> None" using tok by (simp add: tls_init_ok_def c1)
  obtain scid w2 where g: "php_quic_fill_random Y 18 ?w1 = (scid, w2)" by fastforce
  define c2 where "c2 = c1\<lparr>c_reads := Suc (c_reads c1)\<rparr>"
  obtain tk params w3 where p: "php_quic_server_set_stateless_reset_token Y (server_transport_params L) w2 = (tk, params, w3)"
    by (metis prod_cases3)
  have w3: "w_tls w3 = heap" "w_conns w3 = w_conns w" "w_strings w3 = w_strings w"
    "w_tls w2 = heap" "w_conns w2 = w_conns w" "w_strings w2 = w_strings w"
    using fill_random_frame[of Y 18 ?w1] set_token_frame[where Y = Y and params = "server_transport_params L" and w = w2]
    by (simp_all add: g p)
  have own2: "owns c1 w2 w" "owns c2 w3 w" using own w3 by (simp_all add: owns_def c2_def tls_owned_def)
  define params1 where "params1 = params\<lparr>original_dcid := Some (vc_dcid vc)\<rparr>"
  define path where "path = \<lparr>path_local = c_local_addr c2, path_remote = c_remote_addr c2\<rparr>"
  have ts: "php_quic_timestamp c1 = (c_hrtime c1 (c_reads c1), c2)" by (simp add: php_quic_timestamp_def c2_def)
  note fails = accept_fail_post[OF own2(1)] accept_fail_post[OF own2(2)] accept_fail_post[OF own]
  show ?thesis
  proof (cases "ok \<and> scid \<noteq> None \<and> tk \<and> \<not> php_quic_test_force_server_new_failure Y")
    case False
    then show ?thesis using fails w3
      unfolding accept_native_def Let_def t prod.case L_def[symmetric]
      by (cases scid) (auto simp: g ts p c2_def)
  next
    case True
    then obtain scid' where sc: "scid = Some scid'" and ok: ok tk "\<not> php_quic_test_force_server_new_failure Y" by auto
    obtain rv conn where n: "ngtcp2_conn_server_new L (vc_scid vc) scid' path (vc_version vc)
        (c_hrtime c1 (c_reads c1)) params1 = (rv, conn)" by fastforce
    show ?thesis
    proof (cases rv)
      case (Some e)
      then show ?thesis using fails w3 ok n
        unfolding accept_native_def Let_def t prod.case L_def[symmetric] g sc option.case ts p
          params1_def[symmetric] path_def[symmetric] by auto
    next
      case None
      let ?k = "ngtcp2_conn_set_tls_native_handle L conn (c_session c2)"
      obtain rv2 cbs conn2 where r: "ngtcp2_conn_read_pkt L ?k path payload (c_hrtime c2 (c_reads c2))
          = (rv2, cbs, conn2)" by (metis prod_cases3)
      define c5 where "c5 = run_callbacks L cbs (c2\<lparr>c_reads := Suc (c_reads c2), c_conn := Some conn2\<rparr>)"
      let ?w4 = "w3\<lparr>w_conns := Suc (w_conns w3)\<rparr>"
      from s1 ok obtain x' y' where xy: "x = Some x'" "y = Some y'" by auto
      have wf: "conn_wf c" using f by (simp add: fresh_connection_def)
      have c2': "c2 = c\<lparr>c_cred := Some x', c_session := Some y', c_reads := Suc (c_reads c)\<rparr>"
        by (simp add: c2_def c1 xy)
      note post = accept_read_post[OF wf c2' _ own2(2) c(1) c5_def, simplified]
      have e: "accept_native Y cert key alpn vc payload c w =
          (if rv2 \<noteq> None
           then accept_fail (Call_failed ''ServerConnection::accept [ngtcp2:read_initial]: ngtcp2_conn_read_pkt (initial)'' (the rv2)) c5 ?w4
           else (Inr c5, release_strings ?w4))"
        using ok None r n
        unfolding accept_native_def Let_def t prod.case L_def[symmetric] g sc option.case ts p
          params1_def[symmetric] path_def[symmetric]
        by (simp add: php_quic_timestamp_def c5_def)
      show ?thesis
      proof (cases rv2)
        case (Some e2)
        then show ?thesis unfolding e using accept_fail_post[of c5 ?w4 w c] post w3 by simp
      next
        case None
        have "owns c5 (release_strings ?w4) w" using post by (simp add: owns_def release_strings_def)
        then show ?thesis unfolding e None using post w3 by (simp add: accept_post_def release_strings_def)
      qed
    qed
  qed
qed

lemma accept_object_new:
  "c_conn (accept_object Y hr initial eff ra la) = None"
  "c_session (accept_object Y hr initial eff ra la) = None"
  "c_cred (accept_object Y hr initial eff ra la) = None"
  "c_remote_addr (accept_object Y hr initial eff ra la) = Some ra"
  "c_local_addr (accept_object Y hr initial eff ra la) = Some la"
  "c_remote_address_zv (accept_object Y hr initial eff ra la) = dg_peer_address initial"
  by (simp_all add: accept_object_def php_quic_connection_create_object_def)

lemma accept_object_fresh: "fresh_connection (accept_object Y hr initial eff ra la)"
  using create_object_wf[of "y_ngtcp2 Y" hr]
  by (simp add: accept_object_def fresh_connection_def conn_wf_def flags_wf_def
      php_quic_connection_create_object_def event_queue.items_init)

lemma fresh_good_log:
  assumes "fresh_connection c0" "good_step c0 c"
  shows "conn_wf c \<and> log_inv c []"
proof -
  from assms(2) obtain new where
    new: "queue_list (c_events c) = queue_list (c_events c0) @ new"
      "count_type PHP_QUIC_EVENT_CONNECTION_CLOSED new = raised (c_closed c0) (c_closed c)"
      "count_type PHP_QUIC_EVENT_CONNECTION_DRAINING new = raised (c_draining c0) (c_draining c)"
      "count_type PHP_QUIC_EVENT_HANDSHAKE_COMPLETED new = raised (c_established c0) (c_established c)"
    unfolding good_step_def event_step_def by blast
  have "[] @ event_objects c = map php_quic_event_create_from_native new"
    using new(1) assms(1) by (simp add: event_objects_def fresh_connection_def)
  with new assms show ?thesis unfolding log_inv_def good_step_def fresh_connection_def by auto
qed

lemma accept_cases:
  "ServerConnection_accept Y hr initial config w =
     (case (sc_cert_file config, sc_key_file config) of
        (Some cert, Some key) \<Rightarrow>
          (case accept_decode (y_ngtcp2 Y) initial of
             Inl e \<Rightarrow> (Inl e, w\<lparr>w_strings := w_strings w + 3\<rparr>)
           | Inr vc \<Rightarrow>
              (case accept_addresses (y_getaddrinfo Y) initial
                      (case sc_local_address config of Addr a \<Rightarrow> Some a | _ \<Rightarrow> None) of
                 Inl e \<Rightarrow> (Inl e, w)
               | Inr (ra, la) \<Rightarrow>
                   accept_native Y cert key (case sc_alpn config of Some a \<Rightarrow> a | None \<Rightarrow> ''hq-interop'') vc
                     (dg_payload initial)
                     (accept_object Y hr initial (case sc_local_address config of Addr a \<Rightarrow> Some a | _ \<Rightarrow> None) ra la)
                     (w\<lparr>w_strings := w_strings w + 3\<rparr>)))
      | _ \<Rightarrow> (Inl (Exception ''ServerConnection::accept [config]: ServerConfig.certFile and ServerConfig.keyFile are required''), w))"
  by (simp add: ServerConnection_accept_def Let_def release_strings_def split: option.split sum.split prod.split)

text \<open>
  C15. \<^verbatim>\<open>accept\<close> and the native resources. Whichever of its stages fails, every TLS handle and
  library connection it made is given back; when it returns, the new connection is well formed,
  its queue announces exactly the states its flags are in (the callbacks of the first packet have
  run), it owns an \<^verbatim>\<open>ngtcp2_conn\<close>, a TLS session and credentials, destroying it gives them
  back, and no reference to the configuration's strings is kept.
\<close>

theorem accept_resources:
  "case ServerConnection_accept Y hr initial config w of
     (Inl e, w') \<Rightarrow> same_natives w' w
   | (Inr c, w') \<Rightarrow>
       conn_wf c \<and> log_inv c [] \<and> c_conn c \<noteq> None \<and> c_session c \<noteq> None \<and> c_cred c \<noteq> None \<and>
       w_strings w' = w_strings w \<and>
       (case php_quic_connection_free_object c w' of (c2, w2) \<Rightarrow>
          same_natives w2 w \<and> w_strings w2 = w_strings w)"
proof -
  let ?w1 = "w\<lparr>w_strings := w_strings w + 3\<rparr>"
  have post: "accept_post (accept_object Y hr initial eff ra la) ?w1
      (accept_native Y cert key alpn vc payload (accept_object Y hr initial eff ra la) ?w1)" for cert key alpn vc payload eff ra la
    by (rule accept_native_post[OF accept_object_new(1-3) accept_object_fresh])
  let ?P = "\<lambda>r. case r of (Inl e, w') \<Rightarrow> same_natives w' w
   | (Inr c, w') \<Rightarrow>
       conn_wf c \<and> log_inv c [] \<and> c_conn c \<noteq> None \<and> c_session c \<noteq> None \<and> c_cred c \<noteq> None \<and>
       w_strings w' = w_strings w \<and>
       (case php_quic_connection_free_object c w' of (c2, w2) \<Rightarrow>
          same_natives w2 w \<and> w_strings w2 = w_strings w)"
  have conclude: "?P r" if p: "accept_post (accept_object Y hr initial eff ra la) ?w1 r" for eff ra la r
  proof -
    obtain res w' where r: "r = (res, w')" by fastforce
    show ?thesis
    proof (cases res)
      case (Inl e)
      with p r show ?thesis by (simp add: accept_post_def same_natives_def)
    next
      case (Inr c)
      with p r have a: "owns c w' w" "w_strings w' = w_strings w" "c_conn c \<noteq> None" "c_session c \<noteq> None" "c_cred c \<noteq> None"
        and g: "good_step (accept_object Y hr initial eff ra la) c"
        by (simp_all add: accept_post_def owns_def)
      from free_object_natives[OF a(1)] fresh_good_log[OF accept_object_fresh g] a show ?thesis
        by (auto simp: r Inr split: prod.splits)
    qed
  qed
  show ?thesis
    unfolding accept_cases by (auto simp: conclude[OF post] same_natives_def split: option.split sum.split prod.split)
qed

subsection \<open>What accept checks and what it passes on\<close>

lemma accept_decode_Inr:
  assumes "accept_decode L initial = Inr vc"
  shows "dg_payload initial \<noteq> '''' \<and> snd (ngtcp2_pkt_decode_version_cid L (dg_payload initial)) = vc \<and>
    fst (ngtcp2_pkt_decode_version_cid L (dg_payload initial)) \<in> {None, Some NGTCP2_ERR_VERSION_NEGOTIATION} \<and>
    ngtcp2_is_supported_version L (vc_version vc) \<and> length (vc_dcid vc) \<le> NGTCP2_MAX_CIDLEN L \<and>
    length (vc_scid vc) \<le> NGTCP2_MAX_CIDLEN L"
  using assms by (auto simp: accept_decode_def split: if_splits prod.splits)

lemma accept_addresses_Inr:
  assumes "accept_addresses gai initial eff = Inr (ra, la)"
  shows "php_quic_address_to_sockaddr gai (address_of_zval (dg_peer_address initial)) = Some ra \<and>
    (case (eff, dg_local_address initial) of
       (Some a, _) \<Rightarrow> php_quic_address_to_sockaddr gai (Some a) = Some la
     | (None, Addr a) \<Rightarrow> php_quic_address_to_sockaddr gai (Some a) = Some la
     | _ \<Rightarrow> la = php_quic_default_local_addr (sa_family ra))"
  using assms by (auto simp: accept_addresses_def split: option.splits address_zval.splits)

text \<open>The arguments of the only successful path through the native stages.\<close>

lemma accept_native_Inr:
  assumes "accept_native Y cert key alpn vc payload c0 w = (Inr c, w')"
    and "c_conn c0 = None" "c_session c0 = None" "c_cred c0 = None"
  shows "\<not> php_quic_test_force_server_new_failure Y \<and>
    (\<exists>scid ts params n. stateless_reset_token params \<noteq> None \<and> original_dcid params = Some (vc_dcid vc) \<and>
      ngtcp2_conn_server_new (y_ngtcp2 Y) (vc_scid vc) scid
        \<lparr>path_local = c_local_addr c0, path_remote = c_remote_addr c0\<rparr> (vc_version vc) ts params = (None, n))"
proof -
  define L where "L = y_ngtcp2 Y"
  obtain ok c1 heap where t: "php_quic_tls_gnutls_init_server (y_gnutls Y) (Some cert) (Some key) (Some alpn) c0 (w_tls w)
      = (ok, c1, heap)" by (metis prod_cases3)
  have "tls_init_ok c0 (w_tls w) (ok, c1, heap)"
    using tls_init_server_ok[OF assms(3,4), of "w_tls w" "y_gnutls Y" "Some cert" "Some key" "Some alpn"] by (simp only: t)
  then have "\<exists>x y. c1 = c0\<lparr>c_cred := x, c_session := y\<rparr>" by (auto simp: tls_init_ok_def)
  then have addrs: "c_local_addr c1 = c_local_addr c0" "c_remote_addr c1 = c_remote_addr c0" by auto
  let ?w1 = "w\<lparr>w_tls := heap\<rparr>"
  obtain scid w2 where g: "php_quic_fill_random Y 18 ?w1 = (scid, w2)" by fastforce
  obtain tk params w3 where p: "php_quic_server_set_stateless_reset_token Y (server_transport_params L) w2 = (tk, params, w3)"
    by (metis prod_cases3)
  have tk: "tk \<longleftrightarrow> stateless_reset_token params \<noteq> None"
    using set_token_frame[where Y = Y and params = "server_transport_params L" and w = w2] by (simp add: p)
  have fail: "accept_fail e d v \<noteq> (Inr c, w')" for e d v by (simp add: accept_fail_def)
  from assms(1) have a: "ok" "scid \<noteq> None" "tk" "\<not> php_quic_test_force_server_new_failure Y"
    unfolding accept_native_def Let_def t prod.case L_def[symmetric] g
    by (auto simp: fail p php_quic_timestamp_def split: option.splits if_splits prod.splits)
  from a(2) obtain s where s: "scid = Some s" by blast
  let ?params = "params\<lparr>original_dcid := Some (vc_dcid vc)\<rparr>"
  let ?path = "\<lparr>path_local = c_local_addr c0, path_remote = c_remote_addr c0\<rparr>"
  obtain rv n where n: "ngtcp2_conn_server_new L (vc_scid vc) s ?path (vc_version vc)
        (c_hrtime c1 (c_reads c1)) ?params = (rv, n)" by fastforce
  from assms(1) a have "rv = None"
    unfolding accept_native_def Let_def t prod.case L_def[symmetric] g s option.case
    by (auto simp: fail p php_quic_timestamp_def addrs n split: if_splits prod.splits)
  with n a tk show ?thesis
    unfolding L_def by (intro conjI exI[of _ s] exI[of _ "c_hrtime c1 (c_reads c1)"] exI[of _ ?params] exI[of _ n]) simp_all
qed

text \<open>A successful \<open>accept\<close>, stage by stage.\<close>

lemma accept_success:
  assumes "ServerConnection_accept Y hr initial config w = (Inr c, w')"
  obtains cert key alpn vc ra la eff where
    "sc_cert_file config = Some cert" "sc_key_file config = Some key"
    "accept_decode (y_ngtcp2 Y) initial = Inr vc"
    "accept_addresses (y_getaddrinfo Y) initial eff = Inr (ra, la)"
    "accept_native Y cert key alpn vc (dg_payload initial) (accept_object Y hr initial eff ra la)
       (w\<lparr>w_strings := w_strings w + 3\<rparr>) = (Inr c, w')"
    "accept_post (accept_object Y hr initial eff ra la) (w\<lparr>w_strings := w_strings w + 3\<rparr>) (Inr c, w')"
proof -
  define eff where "eff = (case sc_local_address config of Addr a \<Rightarrow> Some a | _ \<Rightarrow> None)"
  from assms obtain cert key alpn vc ra la where
    cf: "sc_cert_file config = Some cert" "sc_key_file config = Some key"
      "accept_decode (y_ngtcp2 Y) initial = Inr vc"
      "accept_addresses (y_getaddrinfo Y) initial eff = Inr (ra, la)"
      "accept_native Y cert key alpn vc (dg_payload initial) (accept_object Y hr initial eff ra la)
          (w\<lparr>w_strings := w_strings w + 3\<rparr>) = (Inr c, w')"
    unfolding accept_cases eff_def[symmetric] by (auto split: option.splits sum.splits prod.splits)
  moreover have "accept_post (accept_object Y hr initial eff ra la) (w\<lparr>w_strings := w_strings w + 3\<rparr>) (Inr c, w')"
    using accept_native_post[OF accept_object_new(1-3) accept_object_fresh] cf(5) by metis
  ultimately show ?thesis by (rule that)
qed

lemma accept_returned:
  assumes "ServerConnection_accept Y hr initial config w = (Inr c, w')"
  shows "conn_wf c \<and> c_remote_address_zv c = dg_peer_address initial"
  using assms
  by (rule accept_success) (auto simp: accept_post_def good_step_def native_frame_def accept_object_new)

text \<open>
  C14. \<^verbatim>\<open>accept\<close> returns a connection only for a configuration with certificate and key, a
  non-empty first datagram that decodes, in a version the library supports and with connection
  ids no longer than it allows, and a peer address that resolves. The library is then given the
  client's source id as destination, the client's original destination id and a stateless reset
  token as transport parameters, the client's version, and the path of the two addresses; and the
  connection keeps the datagram's peer address.
\<close>

theorem accept_sound:
  assumes "ServerConnection_accept Y hr initial config w = (Inr c, w')"
  shows "sc_cert_file config \<noteq> None \<and> sc_key_file config \<noteq> None \<and> dg_payload initial \<noteq> '''' \<and>
    \<not> php_quic_test_force_server_new_failure Y \<and>
    c_remote_address_zv c = dg_peer_address initial \<and>
    (\<exists>vc ra la scid ts params n.
       snd (ngtcp2_pkt_decode_version_cid (y_ngtcp2 Y) (dg_payload initial)) = vc \<and>
       fst (ngtcp2_pkt_decode_version_cid (y_ngtcp2 Y) (dg_payload initial)) \<in> {None, Some NGTCP2_ERR_VERSION_NEGOTIATION} \<and>
       ngtcp2_is_supported_version (y_ngtcp2 Y) (vc_version vc) \<and>
       length (vc_dcid vc) \<le> NGTCP2_MAX_CIDLEN (y_ngtcp2 Y) \<and> length (vc_scid vc) \<le> NGTCP2_MAX_CIDLEN (y_ngtcp2 Y) \<and>
       php_quic_address_to_sockaddr (y_getaddrinfo Y) (address_of_zval (dg_peer_address initial)) = Some ra \<and>
       c_remote_addr c = Some ra \<and> c_local_addr c = Some la \<and>
       original_dcid params = Some (vc_dcid vc) \<and> stateless_reset_token params \<noteq> None \<and>
       ngtcp2_conn_server_new (y_ngtcp2 Y) (vc_scid vc) scid \<lparr>path_local = Some la, path_remote = Some ra\<rparr>
         (vc_version vc) ts params = (None, n))"
proof -
  from assms obtain cert key alpn vc ra la eff where
    cf: "sc_cert_file config = Some cert" "sc_key_file config = Some key" and
    d: "accept_decode (y_ngtcp2 Y) initial = Inr vc" and
    ad: "accept_addresses (y_getaddrinfo Y) initial eff = Inr (ra, la)" and
    n: "accept_native Y cert key alpn vc (dg_payload initial) (accept_object Y hr initial eff ra la)
          (w\<lparr>w_strings := w_strings w + 3\<rparr>) = (Inr c, w')" and
    post: "accept_post (accept_object Y hr initial eff ra la) (w\<lparr>w_strings := w_strings w + 3\<rparr>) (Inr c, w')"
    by (rule accept_success)
  note new = accept_object_new[of Y hr initial eff ra la]
  have fr: "c_remote_address_zv c = dg_peer_address initial" "c_remote_addr c = Some ra" "c_local_addr c = Some la"
    using new post by (simp_all add: accept_post_def native_frame_def)
  from accept_native_Inr[OF n new(1-3)] accept_decode_Inr[OF d] accept_addresses_Inr[OF ad] cf fr new
  show ?thesis by (intro conjI) (simp_all, fastforce)
qed

text \<open>
  The returns between the copies of the configuration's strings and the address stage release
  nothing: every datagram that fails there leaves three references behind.
\<close>

theorem accept_decode_leaks:
  assumes "sc_cert_file config = Some cert" "sc_key_file config = Some key"
    and "accept_decode (y_ngtcp2 Y) initial = Inl e"
  shows "ServerConnection_accept Y hr initial config w = (Inl e, w\<lparr>w_strings := w_strings w + 3\<rparr>)"
  using assms by (simp add: accept_cases)

subsection \<open>A sample accept\<close>

definition sample_initial :: php_quic_datagram where
  "sample_initial =
     Datagram_construct php_quic_datagram_create_object ''initial packet'' \<lparr>ad_host = ''client'', ad_port = 5000\<rparr>
       None None None"

definition sample_server_config :: php_quic_server_config where
  "sample_server_config =
     \<lparr>sc_local_address = Addr_null, sc_cert_file = Some ''cert.pem'', sc_key_file = Some ''key.pem'', sc_alpn = None\<rparr>"

lemma sample_decode: "accept_decode (y_ngtcp2 sample_system) sample_initial =
    Inr \<lparr>vc_version = 1, vc_dcid = ''initial '', vc_scid = ''''\<rparr>"
  by (simp add: accept_decode_def sample_initial_def Datagram_construct_def eval_nat_numeral)

lemma sample_accept:
  "\<exists>c w'. ServerConnection_accept sample_system (\<lambda>i. of_nat i) sample_initial sample_server_config sample_world = (Inr c, w')"
proof -
  have "accept_addresses (y_getaddrinfo sample_system) sample_initial None =
      Inr (\<lparr>sa_family = AF_INET, sa_addr = [192, 0, 2, 1], sa_port = 443\<rparr>, php_quic_default_local_addr AF_INET)"
    by (simp add: accept_addresses_def sample_initial_def Datagram_construct_def
        php_quic_address_to_sockaddr_def Let_def)
  then show ?thesis
    using sample_decode
    by (simp add: accept_cases sample_server_config_def accept_native_def Let_def
        php_quic_tls_gnutls_init_server_def cstr_def tls_alloc_def
        php_quic_fill_random_def php_quic_server_set_stateless_reset_token_def
        php_quic_test_force_server_new_failure_def php_quic_timestamp_def)
qed

theorem accept_sound_witness:
  "\<exists>c w'. ServerConnection_accept sample_system (\<lambda>i. of_nat i) sample_initial sample_server_config sample_world = (Inr c, w') \<and>
    c_remote_address_zv c = Addr \<lparr>ad_host = ''client'', ad_port = 5000\<rparr>"
proof -
  from sample_accept obtain c w' where
    a: "ServerConnection_accept sample_system (\<lambda>i. of_nat i) sample_initial sample_server_config sample_world = (Inr c, w')"
    by blast
  have "c_remote_address_zv c = dg_peer_address sample_initial" using accept_sound[OF a] by (elim conjE)
  with a show ?thesis by (simp add: sample_initial_def Datagram_construct_def)
qed

end
