(* ===== verification/Quic_Server_Endpoint.thy ===== *)
theory Quic_Server_Endpoint
  imports Quic_Server_Connection
begin

text \<open>
  \<^verbatim>\<open>src/server_endpoint.c\<close>: the object that owns the server connections of one socket. It
  reaches its connections only through PHP method calls (\<^verbatim>\<open>call_user_function\<close>), so the
  model has the PHP objects in a store, \<open>php_heap\<close>, the functions the script defines, and the
  exception that is pending while a loop goes on. A connection dropped from the table stays in the
  store: whether the engine destroys it depends on the references the script holds and cannot be
  seen from here.
\<close>

record php_quic_server_endpoint =
  ep_config :: "nat option"
  ep_accepted_queue :: "nat list"
  ep_connections :: "(zstring, nat) hash_table"

record ('c, 'r) php_heap =
  hp_connections :: "'c objects"
  hp_server_configs :: "nat \<Rightarrow> php_quic_server_config option"
  hp_next :: nat
  hp_world :: "'r world"

definition php_quic_server_endpoint_create_object :: php_quic_server_endpoint where
  "php_quic_server_endpoint_create_object =
     \<lparr>ep_config = None, ep_accepted_queue = [], ep_connections = []\<rparr>"

subsection \<open>Routing keys\<close>

definition address_key :: "address_zval \<Rightarrow> zstring option" where
  "address_key peer_address =
     (case peer_address of
        Addr address \<Rightarrow>
          if length (ad_host address) = 0 then None
          else Some (cstr (ad_host address) @ ''|'' @ show_long (ad_port address))
      | _ \<Rightarrow> None)"

definition php_quic_server_endpoint_connection_key :: "php_quic_datagram \<Rightarrow> zstring option" where
  "php_quic_server_endpoint_connection_key datagram = address_key (dg_peer_address datagram)"

subsection \<open>Calling methods\<close>

text \<open>
  What \<^verbatim>\<open>call_user_function\<close> leaves: \<^verbatim>\<open>FAILURE\<close>, or \<^verbatim>\<open>SUCCESS\<close> with the return
  value still undefined (the method threw, or was not run), or with a value. The engine does not
  run a method while an exception is pending; whether it then reports \<^verbatim>\<open>FAILURE\<close> or
  \<^verbatim>\<open>SUCCESS\<close> depends on its version and is the parameter \<open>fp\<close>.
\<close>

datatype 'a call_result = Call_failure | Call_undef | Call_value 'a

definition php_quic_server_endpoint_call_method ::
  "bool \<Rightarrow> ('h \<Rightarrow> 'a outcome \<times> 'h) \<Rightarrow> php_throw option \<Rightarrow> 'h \<Rightarrow>
   'a call_result \<times> php_throw option \<times> 'h" where
  "php_quic_server_endpoint_call_method fp m pending heap =
     (case pending of
        Some e \<Rightarrow> (if fp then Call_failure else Call_undef, pending, heap)
      | None \<Rightarrow>
          (case m heap of
             (Inl e, heap1) \<Rightarrow> (Call_undef, Some e, heap1)
           | (Inr v, heap1) \<Rightarrow> (Call_value v, None, heap1)))"

text \<open>A method of the connection object with handle \<open>h\<close>.\<close>

definition on_connection ::
  "nat \<Rightarrow> ('c php_quic_connection \<Rightarrow> 'a outcome \<times> 'c php_quic_connection) \<Rightarrow> ('c, 'r) php_heap \<Rightarrow>
   'a outcome \<times> ('c, 'r) php_heap" where
  "on_connection h m heap =
     (case hp_connections heap h of
        None \<Rightarrow> (Inl (Exception ''no such object''), heap)
      | Some c \<Rightarrow> (case m c of (r, c1) \<Rightarrow> (r, heap\<lparr>hp_connections := (hp_connections heap)(h \<mapsto> c1)\<rparr>)))"

text \<open>\<^verbatim>\<open>zend_throw_exception\<close>, and what a method that returns normally leaves pending.\<close>

definition zend_throw :: "string \<Rightarrow> php_throw option \<Rightarrow> php_throw" where
  "zend_throw msg pending = (case pending of None \<Rightarrow> Exception msg | Some e \<Rightarrow> Chained msg e)"

definition unless_pending :: "php_throw option \<Rightarrow> 'a \<Rightarrow> 'a outcome" where
  "unless_pending pending v = (case pending of None \<Rightarrow> Inr v | Some e \<Rightarrow> Inl e)"

definition server_endpoint_accept ::
  "('c, 'r) system \<Rightarrow> (nat \<Rightarrow> u64) \<Rightarrow> php_quic_datagram \<Rightarrow> nat option \<Rightarrow> ('c, 'r) php_heap \<Rightarrow>
   nat outcome \<times> ('c, 'r) php_heap" where
  "server_endpoint_accept Y hr datagram config heap =
     (case (case config of None \<Rightarrow> None | Some h \<Rightarrow> hp_server_configs heap h) of
        None \<Rightarrow> (Inl (Type_error 2), heap)
      | Some cfg \<Rightarrow>
          (case ServerConnection_accept Y hr datagram cfg (hp_world heap) of
             (Inl e, w) \<Rightarrow> (Inl e, heap\<lparr>hp_world := w\<rparr>)
           | (Inr c, w) \<Rightarrow>
               (Inr (hp_next heap),
                heap\<lparr>hp_connections := (hp_connections heap)(hp_next heap \<mapsto> c),
                     hp_next := Suc (hp_next heap), hp_world := w\<rparr>)))"

text \<open>
  \<^verbatim>\<open>call_user_function\<close> with no object. Since PHP 8 the macro ignores the function table it
  is given, so that the name is looked up among the global functions of the script, not among the
  methods of \<^verbatim>\<open>ServerConnection\<close>. What the script has defined there is not in the repository and
  is the parameter \<open>globals\<close>: a function takes the datagram and the configuration, may work on
  the objects, and throws, returns an object or returns something else. The caller takes any object
  for a connection; what it then does with one that is none is outside the model. When there is no
  function of the name, the engine reports \<^verbatim>\<open>FAILURE\<close> before PHP 8.2 and throws an
  \<^verbatim>\<open>Error\<close> since.
\<close>

datatype user_value = User_object nat | User_other

type_synonym ('c, 'r) user_function =
  "php_quic_datagram \<Rightarrow> nat option \<Rightarrow> ('c, 'r) php_heap \<Rightarrow> user_value outcome \<times> ('c, 'r) php_heap"

type_synonym ('c, 'r) function_table = "zstring \<Rightarrow> ('c, 'r) user_function option"

definition call_global_function ::
  "bool \<Rightarrow> ('c, 'r) function_table \<Rightarrow> zstring \<Rightarrow> php_quic_datagram \<Rightarrow> nat option \<Rightarrow>
   php_throw option \<Rightarrow> ('c, 'r) php_heap \<Rightarrow> user_value call_result \<times> php_throw option \<times> ('c, 'r) php_heap" where
  "call_global_function fp globals name datagram config pending heap =
     (case globals name of
        Some f \<Rightarrow> php_quic_server_endpoint_call_method fp (f datagram config) pending heap
      | None \<Rightarrow>
          if fp then (Call_failure, pending, heap)
          else (Call_undef,
                Some (case pending of None \<Rightarrow> Exception ''Invalid callback accept'' | Some e \<Rightarrow> e), heap))"

definition php_quic_server_endpoint_call_static_accept ::
  "bool \<Rightarrow> ('c, 'r) function_table \<Rightarrow> php_quic_datagram \<Rightarrow> nat option \<Rightarrow>
   php_throw option \<Rightarrow> ('c, 'r) php_heap \<Rightarrow> user_value call_result \<times> php_throw option \<times> ('c, 'r) php_heap" where
  "php_quic_server_endpoint_call_static_accept fp globals datagram config =
     call_global_function fp globals ''accept'' datagram config"

text \<open>
  The function a script needs for the endpoint to accept anything: it passes its arguments on to
  \<^verbatim>\<open>ServerConnection::accept\<close>. More generally \<open>accepting_function\<close>: what it returns, when that
  is an object, is the connection that \<^verbatim>\<open>ServerConnection::accept\<close> made of the datagram; it may
  refuse in any way. \<open>accept_script\<close> is a script that defines such a function or none.
\<close>

definition forwarding_accept :: "('c, 'r) system \<Rightarrow> (nat \<Rightarrow> u64) \<Rightarrow> ('c, 'r) user_function" where
  "forwarding_accept Y hr datagram config heap =
     (case server_endpoint_accept Y hr datagram config heap of
        (Inl e, heap1) \<Rightarrow> (Inl e, heap1)
      | (Inr h, heap1) \<Rightarrow> (Inr (User_object h), heap1))"

definition accepting_function :: "('c, 'r) user_function \<Rightarrow> bool" where
  "accepting_function f \<longleftrightarrow>
     (\<forall>datagram config heap heap' r. f datagram config heap = (r, heap') \<longrightarrow>
       (case r of
          Inr (User_object h) \<Rightarrow> \<exists>Y hr. server_endpoint_accept Y hr datagram config heap = (Inr h, heap')
        | _ \<Rightarrow> hp_connections heap' = hp_connections heap \<and> hp_next heap' = hp_next heap))"

definition accept_script :: "('c, 'r) function_table \<Rightarrow> bool" where
  "accept_script globals \<longleftrightarrow>
     (case globals ''accept'' of None \<Rightarrow> True | Some f \<Rightarrow> accepting_function f)"

definition forwarding_script :: "('c, 'r) system \<Rightarrow> (nat \<Rightarrow> u64) \<Rightarrow> ('c, 'r) function_table" where
  "forwarding_script Y hr = [''accept'' \<mapsto> forwarding_accept Y hr]"

lemma accept_refused_frame:
  "server_endpoint_accept Y hr datagram config heap = (Inl e, heap') \<Longrightarrow>
     hp_connections heap' = hp_connections heap \<and> hp_next heap' = hp_next heap"
  by (auto simp: server_endpoint_accept_def split: option.splits prod.splits sum.splits)

lemma forwarding_accepting: "accepting_function (forwarding_accept Y hr)"
  unfolding accepting_function_def forwarding_accept_def
  by (auto dest: accept_refused_frame split: prod.splits sum.splits)

lemma forwarding_accept_script: "accept_script (forwarding_script Y hr)"
  by (simp add: accept_script_def forwarding_script_def forwarding_accepting)

subsection \<open>Cleanup\<close>

definition connection_finished :: "'c php_quic_connection \<Rightarrow> bool" where
  "connection_finished c \<longleftrightarrow> c_closed c \<and> (\<not> c_close_requested c \<or> c_close_packet_sent c)"

definition handle_finished :: "('c, 'r) php_heap \<Rightarrow> nat \<Rightarrow> bool" where
  "handle_finished heap h \<longleftrightarrow>
     (case hp_connections heap h of None \<Rightarrow> False | Some c \<Rightarrow> connection_finished c)"

definition php_quic_server_endpoint_cleanup_connections ::
  "('c, 'r) php_heap \<Rightarrow> php_quic_server_endpoint \<Rightarrow> php_quic_server_endpoint" where
  "php_quic_server_endpoint_cleanup_connections heap endpoint =
     (let remove_keys = map fst (filter (\<lambda>(key, h). handle_finished heap h) (ep_connections endpoint))
      in endpoint\<lparr>ep_connections := fold zend_hash_del remove_keys (ep_connections endpoint)\<rparr>)"

subsection \<open>The methods\<close>

definition ServerEndpoint_construct :: "nat \<Rightarrow> php_quic_server_endpoint \<Rightarrow> php_quic_server_endpoint" where
  "ServerEndpoint_construct config endpoint = endpoint\<lparr>ep_config := Some config\<rparr>"

definition ServerEndpoint_recv ::
  "bool \<Rightarrow> ('c, 'r) system \<Rightarrow> ('c, 'r) function_table \<Rightarrow> php_quic_datagram \<Rightarrow> php_quic_server_endpoint \<Rightarrow>
   ('c, 'r) php_heap \<Rightarrow> unit outcome \<times> php_quic_server_endpoint \<times> ('c, 'r) php_heap" where
  "ServerEndpoint_recv fp Y globals datagram endpoint heap =
     (case php_quic_server_endpoint_connection_key datagram of
        None \<Rightarrow> (Inl (Exception ''ServerEndpoint::recv [datagram]: Datagram.peerAddress is invalid''), endpoint, heap)
      | Some key \<Rightarrow>
          (case zend_hash_find (ep_connections endpoint) key of
             Some h \<Rightarrow>
               (case php_quic_server_endpoint_call_method fp
                       (on_connection h (Connection_recv (y_ngtcp2 Y) (y_getaddrinfo Y) datagram)) None heap of
                  (res, pending, heap1) \<Rightarrow>
                    (case res of
                       Call_failure \<Rightarrow>
                         (Inl (zend_throw ''ServerEndpoint::recv: failed to route datagram'' pending), endpoint, heap1)
                     | _ \<Rightarrow> (unless_pending pending (),
                             php_quic_server_endpoint_cleanup_connections heap1 endpoint, heap1)))
           | None \<Rightarrow>
               (case php_quic_server_endpoint_call_static_accept fp globals datagram (ep_config endpoint) None heap of
                  (res, pending, heap1) \<Rightarrow>
                    (case res of
                       Call_failure \<Rightarrow>
                         (Inl (zend_throw ''ServerEndpoint::recv: accept dispatch failed'' pending), endpoint, heap1)
                     | Call_value (User_object h) \<Rightarrow>
                         let endpoint1 = endpoint\<lparr>
                               ep_connections := zend_hash_update key h (ep_connections endpoint),
                               ep_accepted_queue := ep_accepted_queue endpoint @ [h]\<rparr>
                         in (unless_pending pending (),
                             php_quic_server_endpoint_cleanup_connections heap1 endpoint1, heap1)
                     | _ \<Rightarrow>
                         (Inl (zend_throw ''ServerEndpoint::recv: ServerConnection::accept returned invalid value'' pending),
                          endpoint, heap1)))))"

text \<open>
  The loops over the connections: call the method \<open>m\<close> on each in table order, add its value to
  the accumulator, stop at a \<^verbatim>\<open>FAILURE\<close>. The flag tells whether the loop reached its end.
\<close>

fun endpoint_foreach ::
  "bool \<Rightarrow> (nat \<Rightarrow> 'h \<Rightarrow> 'a outcome \<times> 'h) \<Rightarrow> ('a \<Rightarrow> 'b \<Rightarrow> 'b) \<Rightarrow> nat list \<Rightarrow> 'b \<Rightarrow>
   php_throw option \<Rightarrow> 'h \<Rightarrow> bool \<times> 'b \<times> php_throw option \<times> 'h" where
  "endpoint_foreach fp m f [] acc pending heap = (True, acc, pending, heap)"
| "endpoint_foreach fp m f (h # hs) acc pending heap =
     (case php_quic_server_endpoint_call_method fp (m h) pending heap of
        (res, pending1, heap1) \<Rightarrow>
          (case res of
             Call_failure \<Rightarrow> (False, acc, pending1, heap1)
           | Call_undef \<Rightarrow> endpoint_foreach fp m f hs acc pending1 heap1
           | Call_value v \<Rightarrow> endpoint_foreach fp m f hs (f v acc) pending1 heap1))"

definition endpoint_handles :: "php_quic_server_endpoint \<Rightarrow> nat list" where
  "endpoint_handles endpoint = map snd (ep_connections endpoint)"

definition ServerEndpoint_handleTimers ::
  "bool \<Rightarrow> ('c, 'r) system \<Rightarrow> php_quic_server_endpoint \<Rightarrow> ('c, 'r) php_heap \<Rightarrow>
   unit outcome \<times> php_quic_server_endpoint \<times> ('c, 'r) php_heap" where
  "ServerEndpoint_handleTimers fp Y endpoint heap =
     (case endpoint_foreach fp (\<lambda>h. on_connection h (Connection_handleTimers (y_ngtcp2 Y))) (\<lambda>_ acc. acc)
             (endpoint_handles endpoint) () None heap of
        (finished, _, pending, heap1) \<Rightarrow>
          if \<not> finished
          then (Inl (zend_throw ''ServerEndpoint::handleTimers: timer dispatch failed'' pending), endpoint, heap1)
          else (unless_pending pending (), php_quic_server_endpoint_cleanup_connections heap1 endpoint, heap1))"

definition ServerEndpoint_onTimeout ::
  "bool \<Rightarrow> ('c, 'r) system \<Rightarrow> php_quic_server_endpoint \<Rightarrow> ('c, 'r) php_heap \<Rightarrow>
   unit outcome \<times> php_quic_server_endpoint \<times> ('c, 'r) php_heap" where
  "ServerEndpoint_onTimeout fp Y = ServerEndpoint_handleTimers fp Y"

definition ServerEndpoint_tick ::
  "bool \<Rightarrow> ('c, 'r) system \<Rightarrow> php_quic_server_endpoint \<Rightarrow> ('c, 'r) php_heap \<Rightarrow>
   unit outcome \<times> php_quic_server_endpoint \<times> ('c, 'r) php_heap" where
  "ServerEndpoint_tick fp Y = ServerEndpoint_handleTimers fp Y"

text \<open>\<^verbatim>\<open>has_expiry\<close> and \<^verbatim>\<open>min_expiry\<close>; a \<^verbatim>\<open>null\<close> return is not an \<^verbatim>\<open>IS_LONG\<close>.\<close>

definition update_min :: "zend_long option \<Rightarrow> bool \<times> zend_long \<Rightarrow> bool \<times> zend_long" where
  "update_min retval acc =
     (case (retval, acc) of
        (Some v, (has, m)) \<Rightarrow> (True, if \<not> has \<or> sint v < sint m then v else m)
      | (None, _) \<Rightarrow> acc)"

definition min_result :: "bool \<times> zend_long \<Rightarrow> zend_long option" where
  "min_result acc = (case acc of (has, m) \<Rightarrow> if \<not> has then None else Some m)"

text \<open>\<open>tv h\<close> is what \<^verbatim>\<open>gettimeofday\<close> returns to the call for connection \<open>h\<close>.\<close>

definition ServerEndpoint_getNextExpiry ::
  "bool \<Rightarrow> ('c, 'r) system \<Rightarrow> (nat \<Rightarrow> (zend_long \<times> zend_long) option) \<Rightarrow> php_quic_server_endpoint \<Rightarrow>
   ('c, 'r) php_heap \<Rightarrow> zend_long option outcome \<times> ('c, 'r) php_heap" where
  "ServerEndpoint_getNextExpiry fp Y tv endpoint heap =
     (case endpoint_foreach fp
             (\<lambda>h. on_connection h (\<lambda>c. map_prod Inr id (Connection_getNextExpiry (y_ngtcp2 Y) (tv h) c)))
             update_min (endpoint_handles endpoint) (False, 0) None heap of
        (finished, acc, pending, heap1) \<Rightarrow>
          if \<not> finished
          then (Inl (zend_throw ''ServerEndpoint::getNextExpiry: deadline dispatch failed'' pending), heap1)
          else (unless_pending pending (min_result acc), heap1))"

definition ServerEndpoint_getTimeoutAt ::
  "bool \<Rightarrow> ('c, 'r) system \<Rightarrow> (nat \<Rightarrow> (zend_long \<times> zend_long) option) \<Rightarrow> php_quic_server_endpoint \<Rightarrow>
   ('c, 'r) php_heap \<Rightarrow> zend_long option outcome \<times> ('c, 'r) php_heap" where
  "ServerEndpoint_getTimeoutAt fp Y = ServerEndpoint_getNextExpiry fp Y"

definition ServerEndpoint_getNextTimeout ::
  "bool \<Rightarrow> ('c, 'r) system \<Rightarrow> php_quic_server_endpoint \<Rightarrow> ('c, 'r) php_heap \<Rightarrow>
   zend_long option outcome \<times> ('c, 'r) php_heap" where
  "ServerEndpoint_getNextTimeout fp Y endpoint heap =
     (case endpoint_foreach fp
             (\<lambda>h. on_connection h (\<lambda>c. map_prod Inr id (Connection_getNextTimeout (y_ngtcp2 Y) c)))
             update_min (endpoint_handles endpoint) (False, 0) None heap of
        (finished, acc, pending, heap1) \<Rightarrow>
          if \<not> finished
          then (Inl (zend_throw ''ServerEndpoint::getNextTimeout: timeout dispatch failed'' pending), heap1)
          else (unless_pending pending (min_result acc), heap1))"

definition ServerEndpoint_drainAcceptedConnections ::
  "php_quic_server_endpoint \<Rightarrow> nat list \<times> php_quic_server_endpoint" where
  "ServerEndpoint_drainAcceptedConnections endpoint =
     (ep_accepted_queue endpoint, endpoint\<lparr>ep_accepted_queue := []\<rparr>)"

text \<open>
  \<^verbatim>\<open>drainOutgoingDatagrams\<close> of a connection may fail to return (\<open>None\<close>), and then so does
  the endpoint's. Its loop is \<open>endpoint_foreach\<close> with that outcome passed through (lemma
  \<open>drain_foreach_total\<close>).
\<close>

fun endpoint_drain_foreach ::
  "bool \<Rightarrow> ('c, 'r) system \<Rightarrow> nat list \<Rightarrow> php_quic_datagram list \<Rightarrow> php_throw option \<Rightarrow> ('c, 'r) php_heap \<Rightarrow>
   (bool \<times> php_quic_datagram list \<times> php_throw option \<times> ('c, 'r) php_heap) option" where
  "endpoint_drain_foreach fp Y [] acc pending heap = Some (True, acc, pending, heap)"
| "endpoint_drain_foreach fp Y (h # hs) acc (Some e) heap =
     (if fp then Some (False, acc, Some e, heap) else endpoint_drain_foreach fp Y hs acc (Some e) heap)"
| "endpoint_drain_foreach fp Y (h # hs) acc None heap =
     (case hp_connections heap h of
        None \<Rightarrow> endpoint_drain_foreach fp Y hs acc (Some (Exception ''no such object'')) heap
      | Some c \<Rightarrow>
          (case Connection_drainOutgoingDatagrams (y_ngtcp2 Y) c of
             None \<Rightarrow> None
           | Some (r, c1) \<Rightarrow>
               let heap1 = heap\<lparr>hp_connections := (hp_connections heap)(h \<mapsto> c1)\<rparr>
               in case r of
                    Inl e \<Rightarrow> endpoint_drain_foreach fp Y hs acc (Some e) heap1
                  | Inr items \<Rightarrow> endpoint_drain_foreach fp Y hs (acc @ items) None heap1))"

definition ServerEndpoint_drainOutgoingDatagrams ::
  "bool \<Rightarrow> ('c, 'r) system \<Rightarrow> php_quic_server_endpoint \<Rightarrow> ('c, 'r) php_heap \<Rightarrow>
   (php_quic_datagram list outcome \<times> php_quic_server_endpoint \<times> ('c, 'r) php_heap) option" where
  "ServerEndpoint_drainOutgoingDatagrams fp Y endpoint heap =
     (case endpoint_drain_foreach fp Y (endpoint_handles endpoint) [] None heap of
        None \<Rightarrow> None
      | Some (finished, items, pending, heap1) \<Rightarrow>
          if \<not> finished
          then Some (Inl (zend_throw ''ServerEndpoint::drainOutgoingDatagrams: drain dispatch failed'' pending),
                     endpoint, heap1)
          else Some (unless_pending pending items,
                     php_quic_server_endpoint_cleanup_connections heap1 endpoint, heap1))"

definition ServerEndpoint_drainEvents ::
  "bool \<Rightarrow> php_quic_server_endpoint \<Rightarrow> ('c, 'r) php_heap \<Rightarrow>
   php_quic_event_object list outcome \<times> php_quic_server_endpoint \<times> ('c, 'r) php_heap" where
  "ServerEndpoint_drainEvents fp endpoint heap =
     (case endpoint_foreach fp (\<lambda>h. on_connection h (\<lambda>c. map_prod Inr id (Connection_drainEvents c)))
             (\<lambda>items acc. acc @ items) (endpoint_handles endpoint) [] None heap of
        (finished, items, pending, heap1) \<Rightarrow>
          if \<not> finished
          then (Inl (zend_throw ''ServerEndpoint::drainEvents: drain dispatch failed'' pending), endpoint, heap1)
          else (unless_pending pending items, php_quic_server_endpoint_cleanup_connections heap1 endpoint, heap1))"

definition ServerEndpoint_getConnectionCount :: "php_quic_server_endpoint \<Rightarrow> zend_long" where
  "ServerEndpoint_getConnectionCount endpoint = of_nat (length (ep_connections endpoint))"

definition php_quic_server_endpoint_free_object :: "php_quic_server_endpoint \<Rightarrow> php_quic_server_endpoint" where
  "php_quic_server_endpoint_free_object endpoint =
     \<lparr>ep_config = None, ep_accepted_queue = [], ep_connections = []\<rparr>"

subsection \<open>Routing keys identify peers\<close>

lemma isdigit_not_bar: "isdigit c \<Longrightarrow> c \<noteq> CHR ''|''"
  by (auto simp: isdigit_def)

lemma show_long_no_bar: "CHR ''|'' \<notin> set (show_long n)"
  using show_nat_digits isdigit_not_bar by (auto simp: show_long_def)

lemma show_nat_inj: "show_nat m = show_nat n \<Longrightarrow> m = n"
  by (metis digits_value_show_nat)

lemma show_nat_no_minus: "CHR ''-'' # xs \<noteq> show_nat n"
  using show_nat_digits[of n] isdigit_not_special by (metis list.set_intros(1))

lemma show_long_inj:
  assumes e: "show_long m = show_long n"
  shows "m = n"
proof -
  have "(sint m < 0) = (sint n < 0)"
    using e show_nat_no_minus show_nat_no_minus[THEN not_sym] by (auto simp only: show_long_def split: if_splits)
  moreover have "sint m < 0 \<Longrightarrow> sint n < 0 \<Longrightarrow> nat (- sint m) = nat (- sint n)"
    using e by (intro show_nat_inj) (simp only: show_long_def if_True list.inject simp_thms)
  moreover have "\<not> sint m < 0 \<Longrightarrow> \<not> sint n < 0 \<Longrightarrow> nat (sint m) = nat (sint n)"
    using e by (intro show_nat_inj) (simp only: show_long_def if_False)
  ultimately have "sint m = sint n" by arith
  then show ?thesis by (rule signed_word_eqI)
qed

lemma split_last_unique:
  assumes "xs @ c # ys = xs' @ c # ys'" "c \<notin> set ys" "c \<notin> set ys'"
  shows "xs = xs' \<and> ys = ys'"
  using assms
proof (induction xs arbitrary: xs')
  case Nil
  then show ?case by (cases xs') auto
next
  case (Cons x xs)
  then show ?case by (cases xs') auto
qed

text \<open>
  Two peers share a routing key exactly when their hosts are the same C string and their
  ports the same number; the separator makes no two different peers collide.
\<close>

theorem connection_key_injective:
  assumes "ad_host a \<noteq> ''''" "ad_host b \<noteq> ''''"
  shows "address_key (Addr a) = address_key (Addr b) \<longleftrightarrow>
    cstr (ad_host a) = cstr (ad_host b) \<and> ad_port a = ad_port b"
  using assms split_last_unique[of "cstr (ad_host a)" "CHR ''|''" "show_long (ad_port a)"
      "cstr (ad_host b)" "show_long (ad_port b)"] show_long_no_bar show_long_inj
  by (auto simp: address_key_def)

theorem connection_key_injective_witness:
  "address_key (Addr \<lparr>ad_host = ''a|1'', ad_port = 2\<rparr>) \<noteq> address_key (Addr \<lparr>ad_host = ''a'', ad_port = 2\<rparr>)"
  using connection_key_injective[of "\<lparr>ad_host = ''a|1'', ad_port = 2\<rparr>" "\<lparr>ad_host = ''a'', ad_port = 2\<rparr>"]
  by (simp add: cstr_def)

end
