(* ===== verification/Quic_Peer.thy ===== *)
theory Quic_Peer
  imports Quic_Server_Endpoint Quic_Drain_Props
begin

text \<open>
  Who a connection talks to never changes: every method call leaves the peer and local address
  objects of the connection as the constructor or \<^verbatim>\<open>accept\<close> set them. The endpoint's
  routing relies on it.
\<close>

lemma call_addresses:
  "same_addresses c (run_callbacks L cbs (c\<lparr>c_reads := i, c_conn := n\<rparr>))"
  using run_callbacks_addresses[of "c\<lparr>c_reads := i, c_conn := n\<rparr>" L cbs] by (simp add: same_addresses_def)

lemma handle_timers_addresses: "same_addresses c (snd (php_quic_connection_handle_timers L c))"
  using call_addresses
  by (auto simp: php_quic_connection_handle_timers_def Let_def split: option.split prod.split)

lemma recv_addresses: "same_addresses c (snd (Connection_recv L gai datagram c))"
  using call_addresses by (auto simp: Connection_recv_def Let_def split: option.split prod.split)

lemma get_next_timeout_addresses: "same_addresses c (snd (php_quic_connection_get_next_timeout_ms L c))"
  by (auto simp: php_quic_connection_get_next_timeout_ms_def php_quic_connection_get_next_expiry_def
      Let_def split: option.split)

lemma getNextExpiry_addresses: "same_addresses c (snd (Connection_getNextExpiry L tv c))"
  using get_next_timeout_addresses[of c L]
  by (auto simp: Connection_getNextExpiry_def Let_def split: option.split prod.split)

lemma drainEvents_addresses: "same_addresses c (snd (Connection_drainEvents c))"
  by (simp add: Connection_drainEvents_def same_addresses_def split: prod.split)

lemma close_addresses: "same_addresses c (Connection_close L code reason c)"
  by (simp add: Connection_close_def Let_def same_addresses_def split: option.split)

lemma open_local_stream_addresses: "same_addresses c (snd (open_local_stream L bidi context open_fn this c))"
proof -
  have e: "same_addresses d (php_quic_connection_ensure_next_stream_id L d b)" for d b
    by (simp add: php_quic_connection_ensure_next_stream_id_def Let_def same_addresses_def)
  have base: "same_addresses c (php_quic_connection_ensure_next_stream_id L (c\<lparr>c_conn := n\<rparr>) b)" for n b
    using e[of "c\<lparr>c_conn := n\<rparr>" b] by (simp add: same_addresses_def)
  then have next_id: "same_addresses c ((php_quic_connection_ensure_next_stream_id L (c\<lparr>c_conn := n\<rparr>) b)\<lparr>c_next_bidi_stream_id := i\<rparr>)"
    "same_addresses c ((php_quic_connection_ensure_next_stream_id L (c\<lparr>c_conn := n\<rparr>) b)\<lparr>c_next_uni_stream_id := i\<rparr>)" for n b i
    by (simp_all add: same_addresses_def)
  note trans = same_addresses_trans[OF base] same_addresses_trans[OF next_id(1)] same_addresses_trans[OF next_id(2)]
  show ?thesis
    by (cases bidi) (auto simp: open_local_stream_def Let_def split: option.split prod.split
        dest!: open_stream_entry_addresses intro: trans)
qed

subsection \<open>Draining\<close>

lemma drain_write_addresses: "same_addresses (ds_c s) (ds_c (step_state (drain_write L n pick s)))"
proof -
  obtain nwrite w cbs n1 where wr: "ngtcp2_conn_writev_stream L n 1452 (tx_flags L (tp_fin pick))
      (tp_stream_id pick) (tp_datav pick) (c_hrtime (ds_c s) (c_reads (ds_c s))) = (nwrite, w, cbs, n1)"
    by (metis prod_cases4)
  define c2 where "c2 = run_callbacks L cbs ((ds_c s)\<lparr>c_reads := Suc (c_reads (ds_c s)), c_conn := Some n1\<rparr>)"
  have "same_addresses (ds_c s) c2" unfolding c2_def by (rule call_addresses)
  then show ?thesis using wr unfolding drain_write_def Let_def
    by (auto simp: c2_def[symmetric] simp del: php_quic_connection_is_nonfatal_closing_error.simps split: sum.split)
qed

lemma drain_step_addresses: "same_addresses (ds_c s) (ds_c (step_state (drain_step L s)))"
proof -
  obtain pick c1 where p: "(if ds_force s then (no_tx_pick, ds_c s)
    else php_quic_connection_pick_tx_stream (ds_c s)) = (pick, c1)" by fastforce
  obtain r c2 where o: "drain_open_pending L pick c1 = (r, c2)" by fastforce
  have "same_addresses (ds_c s) c1"
    using p pick_tx_stream_addresses[of "ds_c s"] by (auto split: if_splits)
  moreover have "same_addresses c1 c2" using drain_open_pending_addresses[of c1 L pick] o by simp
  ultimately have a: "same_addresses (ds_c s) c2" by (rule same_addresses_trans)
  have "same_addresses (ds_c s) (ds_c (step_state (drain_write L n pick2 (s\<lparr>ds_force := False, ds_c := c2\<rparr>))))" for n pick2
    using same_addresses_trans[OF a] drain_write_addresses[of "s\<lparr>ds_force := False, ds_c := c2\<rparr>" L n pick2] by simp
  with a show ?thesis unfolding drain_step_unfold[OF p o] by (cases r; cases "c_conn c2") auto
qed

lemma drain_loop_addresses:
  assumes "drain_loop L s = Some b"
  shows "same_addresses (ds_c s) (ds_c (snd b))"
proof (rule drain_loop.raw_induct[OF _ assms])
  fix loop L s b
  assume IH: "\<And>L s b. loop L s = Some b \<Longrightarrow> same_addresses (ds_c s) (ds_c (snd b))"
    and b: "(case drain_step L s of Inl s1 \<Rightarrow> loop L s1 | Inr r \<Rightarrow> Some r) = Some b"
  show "same_addresses (ds_c s) (ds_c (snd b))"
  proof (cases "drain_step L s")
    case (Inl s1)
    then show ?thesis using drain_step_addresses[of s L] IH[of L s1 b] b by (auto intro: same_addresses_trans)
  next
    case (Inr x)
    then show ?thesis using drain_step_addresses[of s L] b by (cases x) auto
  qed
qed

lemma drain_close_packet_addresses: "same_addresses c (snd (drain_close_packet L n c))"
  using call_addresses by (auto simp: drain_close_packet_def Let_def split: prod.split sum.split)

lemma drainOutgoingDatagrams_addresses:
  assumes d: "Connection_drainOutgoingDatagrams L c = Some (r, c')"
  shows "same_addresses c c'"
proof (cases "c_conn c")
  case None
  with d show ?thesis by (auto simp: Connection_drainOutgoingDatagrams_def)
next
  case (Some n)
  show ?thesis
  proof (cases "c_close_requested c \<and> \<not> c_close_packet_sent c")
    case True
    with d Some drain_close_packet_addresses[of c L n] show ?thesis
      by (auto simp: Connection_drainOutgoingDatagrams_def)
  next
    case False
    from d obtain x s where l: "drain_loop L \<lparr>ds_c = c, ds_out = [], ds_emitted = 0, ds_force = False\<rparr> = Some (x, s)"
      and r: "(case x of Inl e \<Rightarrow> (Inl e, ds_c s)
        | Inr u \<Rightarrow> (Inr (ds_out s), php_quic_connection_sync_state L (ds_c s))) = (r, c')"
      unfolding Connection_drainOutgoingDatagrams_def Some option.case if_not_P[OF False]
      by (auto split: option.splits sum.splits)
    from drain_loop_addresses[OF l] r show ?thesis by (cases x) auto
  qed
qed

subsection \<open>Every call\<close>

lemma stream_addresses:
  "Stream_read (php_quic_stream_create h sid) len [h \<mapsto> c] = (chunk, objs) \<Longrightarrow> objs h = Some c' \<Longrightarrow> same_addresses c c'"
  "Stream_write L (php_quic_stream_create h sid) data [h \<mapsto> c] = (n, objs) \<Longrightarrow> objs h = Some c' \<Longrightarrow> same_addresses c c'"
  "Stream_end L (php_quic_stream_create h sid) final_data [h \<mapsto> c] = (u, objs) \<Longrightarrow> objs h = Some c' \<Longrightarrow> same_addresses c c'"
  "Stream_reset L (php_quic_stream_create h sid) code [h \<mapsto> c] = (u, objs) \<Longrightarrow> objs h = Some c' \<Longrightarrow> same_addresses c c'"
  by (auto simp: Stream_read_def Stream_write_def Stream_end_def Stream_reset_def resolve_single Let_def
      split: if_splits option.splits prod.splits)

lemma conn_step_addresses: "conn_step L gai c events c' \<Longrightarrow> same_addresses c c'"
proof (induction rule: conn_step.induct)
  case (cs_recv datagram c r c')
  then show ?case using recv_addresses[of c L gai datagram] by simp
next
  case (cs_timers c r c')
  then show ?case using handle_timers_addresses[of c L] by simp
next
  case (cs_timeout c t c')
  then show ?case using get_next_timeout_addresses[of c L] by (simp add: Connection_getNextTimeout_def)
next
  case (cs_expiry tv c t c')
  then show ?case using getNextExpiry_addresses[of c L tv] by simp
next
  case (cs_events c events c')
  then show ?case using drainEvents_addresses[of c] by simp
next
  case (cs_datagrams c r c')
  then show ?case by (rule drainOutgoingDatagrams_addresses)
next
  case (cs_open h c s c')
  then show ?case using open_local_stream_addresses by (metis Connection_openStream_def snd_conv)
next
  case (cs_open_uni h c s c')
  then show ?case using open_local_stream_addresses by (metis Connection_openUniStream_def snd_conv)
next
  case (cs_close code reason c c')
  then show ?case using close_addresses by metis
qed (auto dest: stream_addresses)

text \<open>
  The peer of a connection is fixed: whatever sequence of method calls is made on it, and
  whatever the library and the network do, its remote and local address objects stay those it
  was made with.
\<close>

theorem peer_fixed:
  assumes "conn_reach L gai c0 reported c"
  shows "c_remote_address_zv c = c_remote_address_zv c0 \<and> c_local_address_zv c = c_local_address_zv c0"
  using assms
proof (induction rule: conn_reach.induct)
  case (reach_step reported c events c')
  then show ?case using conn_step_addresses[OF reach_step(2)] by (simp add: same_addresses_def)
qed simp

theorem peer_fixed_witness:
  "c_remote_address_zv (snd (Connection_drainEvents sample_closed)) = Addr \<lparr>ad_host = ''192.0.2.1'', ad_port = 443\<rparr>"
  using peer_fixed[OF sample_run] by (simp add: sample_connection_def)

end
