(* ===== verification/Quic_Endpoint_Inv.thy ===== *)
theory Quic_Endpoint_Inv
  imports Quic_Peer
begin

text \<open>
  The invariant of an endpoint and its store of connection objects. A method that keeps a
  connection well formed and its addresses unchanged satisfies \<open>connection_method\<close>; the locale
  lifts it to the store and to the endpoint's loops, and the methods the endpoint calls are
  interpretations of it.
\<close>

subsection \<open>The store of connection objects\<close>

definition heap_ok :: "('c, 'r) php_heap \<Rightarrow> bool" where
  "heap_ok heap \<longleftrightarrow> objects_wf (hp_connections heap) \<and>
     (\<forall>h. hp_connections heap h \<noteq> None \<longrightarrow> h < hp_next heap)"

definition heap_keeps :: "('c, 'r) php_heap \<Rightarrow> ('c, 'r) php_heap \<Rightarrow> bool" where
  "heap_keeps heap heap' \<longleftrightarrow> hp_next heap \<le> hp_next heap' \<and>
     (\<forall>h c. hp_connections heap h = Some c \<longrightarrow>
       (\<exists>c'. hp_connections heap' h = Some c' \<and> same_addresses c c'))"

definition heap_step :: "('c, 'r) php_heap \<Rightarrow> ('c, 'r) php_heap \<Rightarrow> bool" where
  "heap_step heap heap' \<longleftrightarrow> (heap_ok heap \<longrightarrow> heap_ok heap') \<and> heap_keeps heap heap'"

lemma heap_keeps_refl [simp]: "heap_keeps heap heap"
  by (simp add: heap_keeps_def)

lemma heap_step_refl [simp]: "heap_step heap heap"
  by (simp add: heap_step_def)

lemma heap_step_trans:
  assumes "heap_step a b" "heap_step b c"
  shows "heap_step a c"
proof -
  have "\<exists>x'. hp_connections c h = Some x' \<and> same_addresses x x'" if "hp_connections a h = Some x" for h x
    using assms that unfolding heap_step_def heap_keeps_def by (meson same_addresses_trans)
  then show ?thesis using assms unfolding heap_step_def heap_keeps_def by (meson order_trans)
qed

lemma heap_step_put:
  assumes "hp_connections heap h = Some c" "same_addresses c c'" "conn_wf c \<Longrightarrow> conn_wf c'"
  shows "heap_step heap (heap\<lparr>hp_connections := (hp_connections heap)(h \<mapsto> c')\<rparr>)"
proof -
  have "heap_ok heap \<longrightarrow> conn_wf c" using assms(1) by (auto simp: heap_ok_def objects_wf_def)
  then show ?thesis using assms by (auto simp: heap_step_def heap_ok_def heap_keeps_def objects_wf_def)
qed

lemma heap_step_new:
  assumes "conn_wf c"
  shows "heap_step heap (heap\<lparr>hp_connections := (hp_connections heap)(hp_next heap \<mapsto> c),
    hp_next := Suc (hp_next heap), hp_world := w\<rparr>) \<or> \<not> heap_ok heap"
  using assms by (auto simp: heap_step_def heap_ok_def heap_keeps_def objects_wf_def less_Suc_eq)

lemma heap_step_frame [simp]:
  "heap_step heap (heap\<lparr>hp_world := w\<rparr>)"
  "heap_step heap (heap\<lparr>hp_server_configs := cfgs\<rparr>)"
  by (auto simp: heap_step_def heap_ok_def heap_keeps_def)

subsection \<open>Methods the endpoint calls\<close>

locale connection_method =
  fixes m :: "'x \<Rightarrow> 'c php_quic_connection \<Rightarrow> 'a outcome \<times> 'c php_quic_connection"
  assumes method_wf: "conn_wf c \<Longrightarrow> conn_wf (snd (m x c))"
    and method_addresses: "same_addresses c (snd (m x c))"
begin

lemma on_connection_step: "heap_step heap (snd (on_connection h (m x) heap))"
proof (cases "hp_connections heap h")
  case None
  then show ?thesis by (simp add: on_connection_def)
next
  case (Some c)
  then show ?thesis
    using heap_step_put[OF Some method_addresses[of c x] method_wf[of c x]]
    by (cases "m x c") (simp add: on_connection_def)
qed

lemma call_method_step:
  "php_quic_server_endpoint_call_method fp (on_connection h (m x)) pending heap = (res, pending1, heap1) \<Longrightarrow>
    heap_step heap heap1"
  using on_connection_step[of heap h x]
  by (auto simp: php_quic_server_endpoint_call_method_def split: option.splits prod.splits sum.splits)

lemma foreach_step:
  "endpoint_foreach fp (\<lambda>h. on_connection h (m (g h))) f hs acc pending heap = (finished, acc', pending', heap') \<Longrightarrow>
    heap_step heap heap'"
proof (induction hs arbitrary: acc pending heap)
  case (Cons h hs)
  obtain res p1 heap1 where c: "php_quic_server_endpoint_call_method fp (on_connection h (m (g h))) pending heap
      = (res, p1, heap1)" by (metis prod_cases3)
  from call_method_step[OF this] have s: "heap_step heap heap1" .
  from Cons.prems have "heap1 = heap' \<or> (\<exists>acc1. endpoint_foreach fp (\<lambda>h. on_connection h (m (g h))) f hs acc1 p1 heap1
      = (finished, acc', pending', heap'))"
    by (cases res) (auto simp: c)
  with s Cons.IH show ?case by (auto intro: heap_step_trans)
qed simp

end

interpretation recv_method: connection_method "\<lambda>datagram. Connection_recv L gai datagram"
  by unfold_locales (use recv_op recv_addresses in blast)+

interpretation timers_method: connection_method "\<lambda>_ :: unit. Connection_handleTimers L"
  by unfold_locales (use handle_timers_op handle_timers_addresses in
    \<open>auto simp: Connection_handleTimers_def Connection_onTimeout_def\<close>)

interpretation expiry_method: connection_method "\<lambda>tv c. map_prod Inr id (Connection_getNextExpiry L tv c)"
  by unfold_locales (use getNextExpiry_op getNextExpiry_addresses in auto)

interpretation timeout_method: connection_method "\<lambda>_ :: unit. \<lambda>c. map_prod Inr id (Connection_getNextTimeout L c)"
  by unfold_locales (use get_next_timeout_op get_next_timeout_addresses in \<open>auto simp: Connection_getNextTimeout_def\<close>)

interpretation events_method: connection_method "\<lambda>_ :: unit. \<lambda>c. map_prod Inr id (Connection_drainEvents c)"
  by unfold_locales (use drainEvents_op drainEvents_addresses in auto)

lemma drain_foreach_step:
  "endpoint_drain_foreach fp Y hs acc pending heap = Some (finished, acc', pending', heap') \<Longrightarrow> heap_step heap heap'"
proof (induction fp Y hs acc pending heap rule: endpoint_drain_foreach.induct)
  case (3 fp Y h hs acc heap)
  show ?case
  proof (cases "hp_connections heap h")
    case None
    with 3 show ?thesis by simp
  next
    case (Some c)
    from 3(4) Some obtain r c1 where d: "Connection_drainOutgoingDatagrams (y_ngtcp2 Y) c = Some (r, c1)"
      by (auto split: option.splits)
    let ?heap1 = "heap\<lparr>hp_connections := (hp_connections heap)(h \<mapsto> c1)\<rparr>"
    have "heap_step heap ?heap1"
      using heap_step_put[OF Some drainOutgoingDatagrams_addresses[OF d]] drainOutgoingDatagrams_good[OF _ d]
      by (auto simp: good_step_def)
    moreover have "heap_step ?heap1 heap'"
      using 3(2,3)[OF Some d refl refl] 3(4) Some d by (cases r) auto
    ultimately show ?thesis by (rule heap_step_trans)
  qed
qed (auto split: if_splits)

lemma accept_step:
  assumes "heap_ok heap" "server_endpoint_accept Y hr datagram config heap = (res, heap')"
  shows "heap_step heap heap' \<and>
    (case res of
       Inl e \<Rightarrow> hp_connections heap' = hp_connections heap \<and> hp_next heap' = hp_next heap
     | Inr h \<Rightarrow> h = hp_next heap \<and> hp_next heap' = Suc h \<and>
        (\<exists>c. hp_connections heap' = (hp_connections heap)(h \<mapsto> c) \<and> c_remote_address_zv c = dg_peer_address datagram))"
proof (cases "case config of None \<Rightarrow> None | Some h \<Rightarrow> hp_server_configs heap h")
  case None
  with assms show ?thesis by (auto simp: server_endpoint_accept_def)
next
  case (Some cfg)
  obtain r w where a: "ServerConnection_accept Y hr datagram cfg (hp_world heap) = (r, w)" by fastforce
  show ?thesis
  proof (cases r)
    case (Inl e)
    with assms Some a show ?thesis by (auto simp: server_endpoint_accept_def)
  next
    case (Inr c)
    from accept_returned[OF a[unfolded Inr]] assms Some a Inr heap_step_new[of c heap w] show ?thesis
      by (auto simp: server_endpoint_accept_def)
  qed
qed

subsection \<open>The table\<close>

lemma hash_del_filter: "zend_hash_del k t = filter (\<lambda>(j, v). j \<noteq> k) t"
  unfolding zend_hash_del_def AList.delete_eq by (rule arg_cong[where f = "\<lambda>P. filter P t"]) auto

lemma fold_hash_del: "fold zend_hash_del ks t = filter (\<lambda>(j, v). j \<notin> set ks) t"
  by (induction ks arbitrary: t) (auto simp: hash_del_filter case_prod_unfold intro!: filter_cong)

lemma cleanup_filter:
  assumes "distinct (hash_keys (ep_connections endpoint))"
  shows "php_quic_server_endpoint_cleanup_connections heap endpoint =
    endpoint\<lparr>ep_connections := filter (\<lambda>(k, h). \<not> handle_finished heap h) (ep_connections endpoint)\<rparr>"
proof -
  let ?t = "ep_connections endpoint"
  have u: "a = b" if "(k, a) \<in> set ?t" "(k, b) \<in> set ?t" for k a b
    by (rule eq_key_imp_eq_value[OF _ that]) (use assms in \<open>simp add: hash_keys_def\<close>)
  have "k \<in> set (map fst (filter (\<lambda>(k, h). handle_finished heap h) ?t)) \<longleftrightarrow> handle_finished heap h"
    if "(k, h) \<in> set ?t" for k h
  proof
    assume "k \<in> set (map fst (filter (\<lambda>(k, h). handle_finished heap h) ?t))"
    then obtain h' where "(k, h') \<in> set ?t" "handle_finished heap h'" by auto
    with u[OF that] show "handle_finished heap h" by blast
  next
    assume "handle_finished heap h"
    with that show "k \<in> set (map fst (filter (\<lambda>(k, h). handle_finished heap h) ?t))" by force
  qed
  then have "filter (\<lambda>(j, v). j \<notin> set (map fst (filter (\<lambda>(k, h). handle_finished heap h) ?t))) ?t =
      filter (\<lambda>(k, h). \<not> handle_finished heap h) ?t"
    by (intro filter_cong refl) (auto simp del: set_map)
  then show ?thesis
    by (simp only: php_quic_server_endpoint_cleanup_connections_def Let_def fold_hash_del)
qed

definition endpoint_wf :: "php_quic_server_endpoint \<Rightarrow> ('c, 'r) php_heap \<Rightarrow> bool" where
  "endpoint_wf endpoint heap \<longleftrightarrow>
     heap_ok heap \<and> distinct (hash_keys (ep_connections endpoint)) \<and>
     (\<forall>k h. (k, h) \<in> set (ep_connections endpoint) \<longrightarrow>
       (\<exists>c. hp_connections heap h = Some c \<and> address_key (c_remote_address_zv c) = Some k))"

lemma endpoint_wf_find:
  assumes "endpoint_wf endpoint heap" "zend_hash_find (ep_connections endpoint) k = Some h"
  obtains c where "hp_connections heap h = Some c" "address_key (c_remote_address_zv c) = Some k" "conn_wf c"
  using assms zend_hash_find_in_set[of "ep_connections endpoint" k h]
  unfolding endpoint_wf_def heap_ok_def objects_wf_def by blast

lemma endpoint_wf_handles: "endpoint_wf endpoint heap \<Longrightarrow> distinct (endpoint_handles endpoint)"
proof -
  assume wf: "endpoint_wf endpoint heap"
  have "inj_on snd (set (ep_connections endpoint))"
  proof (rule inj_onI)
    fix x y
    assume xy: "x \<in> set (ep_connections endpoint)" "y \<in> set (ep_connections endpoint)" "snd x = snd y"
    then obtain k j h where e: "x = (k, h)" "y = (j, h)" by (metis prod.collapse)
    with wf xy obtain c d where "hp_connections heap h = Some c" "address_key (c_remote_address_zv c) = Some k"
      "hp_connections heap h = Some d" "address_key (c_remote_address_zv d) = Some j"
      unfolding endpoint_wf_def by blast
    with e show "x = y" by simp
  qed
  moreover have "distinct (ep_connections endpoint)"
    using wf by (simp add: endpoint_wf_def hash_keys_def distinct_map)
  ultimately show ?thesis by (simp add: endpoint_handles_def distinct_map)
qed

lemma endpoint_wf_step:
  assumes "endpoint_wf endpoint heap" "heap_step heap heap'"
  shows "endpoint_wf endpoint heap'"
proof -
  have "\<exists>c. hp_connections heap' h = Some c \<and> address_key (c_remote_address_zv c) = Some k"
    if "(k, h) \<in> set (ep_connections endpoint)" for k h
  proof -
    from assms(1) that obtain c where "hp_connections heap h = Some c" "address_key (c_remote_address_zv c) = Some k"
      unfolding endpoint_wf_def by blast
    moreover from this assms(2) obtain c' where "hp_connections heap' h = Some c'" "same_addresses c c'"
      unfolding heap_step_def heap_keeps_def by blast
    ultimately show ?thesis by (auto simp: same_addresses_def)
  qed
  with assms show ?thesis by (simp add: endpoint_wf_def heap_step_def)
qed

lemma endpoint_wf_cleanup:
  assumes "endpoint_wf endpoint heap"
  shows "endpoint_wf (php_quic_server_endpoint_cleanup_connections heap endpoint) heap"
  using assms
  by (auto simp: endpoint_wf_def cleanup_filter hash_keys_def distinct_map_filter)

lemma cleanup_frame [simp]:
  "ep_accepted_queue (php_quic_server_endpoint_cleanup_connections heap endpoint) = ep_accepted_queue endpoint"
  by (simp add: php_quic_server_endpoint_cleanup_connections_def Let_def)

lemma cleanup_handles:
  "endpoint_wf endpoint heap \<Longrightarrow>
    endpoint_handles (php_quic_server_endpoint_cleanup_connections heap endpoint) =
    filter (\<lambda>h. \<not> handle_finished heap h) (endpoint_handles endpoint)"
  by (simp add: endpoint_wf_def cleanup_filter endpoint_handles_def filter_map o_def case_prod_unfold)

subsection \<open>Receiving\<close>

text \<open>A datagram from a known peer goes to the connection of that peer and to no other.\<close>

lemma recv_known:
  assumes "endpoint_wf endpoint heap" "php_quic_server_endpoint_connection_key datagram = Some key"
    and "zend_hash_find (ep_connections endpoint) key = Some h" "hp_connections heap h = Some c"
    and "Connection_recv (y_ngtcp2 Y) (y_getaddrinfo Y) datagram c = (r, c')"
  shows "ServerEndpoint_recv fp Y globals datagram endpoint heap =
    (r, php_quic_server_endpoint_cleanup_connections
          (heap\<lparr>hp_connections := (hp_connections heap)(h \<mapsto> c')\<rparr>) endpoint,
     heap\<lparr>hp_connections := (hp_connections heap)(h \<mapsto> c')\<rparr>)"
  using assms by (cases r) (simp_all add: ServerEndpoint_recv_def php_quic_server_endpoint_call_method_def
      on_connection_def unless_pending_def)

text \<open>A datagram from a new peer goes to the script's function \<^verbatim>\<open>accept\<close>, if there is one.\<close>

lemma recv_missing:
  assumes "php_quic_server_endpoint_connection_key datagram = Some key"
    and "zend_hash_find (ep_connections endpoint) key = None" and "globals ''accept'' = None"
  shows "ServerEndpoint_recv fp Y globals datagram endpoint heap =
    (Inl (if fp then Exception ''ServerEndpoint::recv: accept dispatch failed''
          else Chained ''ServerEndpoint::recv: ServerConnection::accept returned invalid value''
                 (Exception ''Invalid callback accept'')), endpoint, heap)"
  using assms by (simp add: ServerEndpoint_recv_def php_quic_server_endpoint_call_static_accept_def
      call_global_function_def zend_throw_def)

lemma recv_unknown:
  assumes "php_quic_server_endpoint_connection_key datagram = Some key"
    and "zend_hash_find (ep_connections endpoint) key = None"
    and "globals ''accept'' = Some f" and "f datagram (ep_config endpoint) heap = (res, heap1)"
  shows "ServerEndpoint_recv fp Y globals datagram endpoint heap =
    (case res of
       Inl e \<Rightarrow> (Inl (Chained ''ServerEndpoint::recv: ServerConnection::accept returned invalid value'' e), endpoint, heap1)
     | Inr User_other \<Rightarrow>
         (Inl (Exception ''ServerEndpoint::recv: ServerConnection::accept returned invalid value''), endpoint, heap1)
     | Inr (User_object h) \<Rightarrow> (Inr (), php_quic_server_endpoint_cleanup_connections heap1
         (endpoint\<lparr>ep_connections := zend_hash_update key h (ep_connections endpoint),
            ep_accepted_queue := ep_accepted_queue endpoint @ [h]\<rparr>), heap1))"
proof (cases res)
  case (Inr v)
  then show ?thesis using assms by (cases v) (simp_all add: ServerEndpoint_recv_def Let_def
      php_quic_server_endpoint_call_static_accept_def call_global_function_def
      php_quic_server_endpoint_call_method_def unless_pending_def zend_throw_def)
qed (use assms in \<open>simp_all add: ServerEndpoint_recv_def
      php_quic_server_endpoint_call_static_accept_def call_global_function_def
      php_quic_server_endpoint_call_method_def zend_throw_def\<close>)

lemma accepting_step:
  assumes f: "accepting_function f" and ok: "heap_ok heap" and r: "f datagram config heap = (res, heap')"
  shows "heap_step heap heap' \<and>
    (case res of
       Inr (User_object h) \<Rightarrow> h = hp_next heap \<and> hp_next heap' = Suc h \<and>
        (\<exists>c. hp_connections heap' = (hp_connections heap)(h \<mapsto> c) \<and> c_remote_address_zv c = dg_peer_address datagram)
     | _ \<Rightarrow> hp_connections heap' = hp_connections heap \<and> hp_next heap' = hp_next heap)"
proof (cases "\<exists>h. res = Inr (User_object h)")
  case True
  then obtain h Y hr where h: "res = Inr (User_object h)"
    "server_endpoint_accept Y hr datagram config heap = (Inr h, heap')"
    using f r unfolding accepting_function_def by fastforce
  from accept_step[OF ok h(2)] h(1) show ?thesis by auto
next
  case False
  then have "hp_connections heap' = hp_connections heap \<and> hp_next heap' = hp_next heap"
    using f r unfolding accepting_function_def by (fastforce split: sum.splits user_value.splits)
  moreover from this have "heap_step heap heap'" by (simp add: heap_step_def heap_ok_def heap_keeps_def)
  ultimately show ?thesis using False by (auto split: sum.splits user_value.splits)
qed

lemma hash_update_new: "zend_hash_find t k = None \<Longrightarrow> zend_hash_update k v t = t @ [(k, v)]"
  by (induction t) (auto simp: zend_hash_find_def zend_hash_update_def split: if_splits)

lemma endpoint_wf_new:
  assumes wf: "endpoint_wf endpoint heap" and n: "zend_hash_find (ep_connections endpoint) key = None"
    and c: "hp_connections heap h = Some c" "address_key (c_remote_address_zv c) = Some key"
  shows "endpoint_wf (endpoint\<lparr>ep_connections := zend_hash_update key h (ep_connections endpoint),
            ep_accepted_queue := q\<rparr>) heap"
proof -
  have "key \<notin> set (hash_keys (ep_connections endpoint))" using n hash.find_keys[of "ep_connections endpoint" key] by simp
  then show ?thesis using assms by (auto simp: endpoint_wf_def hash_update_new hash_keys_def)
qed

lemma recv_step:
  assumes wf: "endpoint_wf endpoint heap" and script: "accept_script globals"
    and r: "ServerEndpoint_recv fp Y globals datagram endpoint heap = (res, endpoint', heap')"
  shows "endpoint_wf endpoint' heap' \<and> heap_step heap heap' \<and>
    ((ep_accepted_queue endpoint' = ep_accepted_queue endpoint \<and>
       set (endpoint_handles endpoint') \<subseteq> set (endpoint_handles endpoint)) \<or>
     (ep_accepted_queue endpoint' = ep_accepted_queue endpoint @ [hp_next heap] \<and>
       hp_connections heap' (hp_next heap) \<noteq> None \<and>
       set (endpoint_handles endpoint') \<subseteq> insert (hp_next heap) (set (endpoint_handles endpoint))))"
proof (cases "php_quic_server_endpoint_connection_key datagram")
  case None
  with assms show ?thesis by (auto simp: ServerEndpoint_recv_def)
next
  case key: (Some key)
  show ?thesis
  proof (cases "zend_hash_find (ep_connections endpoint) key")
    case (Some h)
    obtain c where c: "hp_connections heap h = Some c" by (rule endpoint_wf_find[OF wf Some])
    obtain q c' where q: "Connection_recv (y_ngtcp2 Y) (y_getaddrinfo Y) datagram c = (q, c')" by fastforce
    let ?heap1 = "heap\<lparr>hp_connections := (hp_connections heap)(h \<mapsto> c')\<rparr>"
    have s: "heap_step heap ?heap1"
      using heap_step_put[OF c] recv_method.method_wf[of c "y_ngtcp2 Y" "y_getaddrinfo Y" datagram]
        recv_method.method_addresses[of c "y_ngtcp2 Y" "y_getaddrinfo Y" datagram] by (simp add: q)
    note wf1 = endpoint_wf_step[OF wf s]
    from recv_known[OF wf key Some c q, where fp = fp and globals = globals] r
    show ?thesis using s endpoint_wf_cleanup[OF wf1] cleanup_handles[OF wf1] by auto
  next
    case None
    show ?thesis
    proof (cases "globals ''accept''")
      case missing: None
      from recv_missing[OF key None, where globals = globals, OF missing] r wf show ?thesis by auto
    next
      case (Some f)
      obtain q heap1 where q: "f datagram (ep_config endpoint) heap = (q, heap1)" by fastforce
      have "heap_ok heap" "accepting_function f" using wf script Some
        by (simp_all add: endpoint_wf_def accept_script_def)
      note a = accepting_step[OF this(2,1) q]
      show ?thesis
      proof (cases "\<exists>h. q = Inr (User_object h)")
        case False
        with recv_unknown[OF key None, where globals = globals and f = f, OF Some q, of fp Y] r a endpoint_wf_step[OF wf]
        show ?thesis by (auto split: sum.splits user_value.splits)
      next
        case True
        then obtain h where Inr: "q = Inr (User_object h)" by blast
        with a obtain c where c: "hp_connections heap1 h = Some c" "c_remote_address_zv c = dg_peer_address datagram"
          and s: "heap_step heap heap1" and h: "h = hp_next heap" by auto
        let ?e = "endpoint\<lparr>ep_connections := zend_hash_update key h (ep_connections endpoint),
            ep_accepted_queue := ep_accepted_queue endpoint @ [h]\<rparr>"
        have wf1: "endpoint_wf ?e heap1"
          by (rule endpoint_wf_new[OF endpoint_wf_step[OF wf s] None c(1)])
             (use key c(2) in \<open>simp add: php_quic_server_endpoint_connection_key_def\<close>)
        from recv_unknown[OF key None, where globals = globals and f = f, OF Some q, of fp Y] r Inr
        have e: "endpoint' = php_quic_server_endpoint_cleanup_connections heap1 ?e" "heap' = heap1" by auto
        show ?thesis using endpoint_wf_cleanup[OF wf1] cleanup_handles[OF wf1] s c(1) h
          unfolding e by (auto simp: endpoint_handles_def hash_update_new[OF None])
      qed
    qed
  qed
qed

end
