(* ===== verification/Quic_Endpoint_Loops.thy ===== *)
theory Quic_Endpoint_Loops
  imports Quic_Endpoint_Inv
begin

text \<open>
  The endpoint's loops over its connections: what they compute when no connection throws, and
  that a connection that throws keeps the loop from reaching the ones after it.
\<close>

subsection \<open>Loops in which nothing throws\<close>

text \<open>The value and the new state of each connection, read from the store before the loop.\<close>

definition loop_value ::
  "(nat \<Rightarrow> 'c php_quic_connection \<Rightarrow> 'a \<times> 'c php_quic_connection) \<Rightarrow> 'c objects \<Rightarrow> nat \<Rightarrow> 'a" where
  "loop_value m objs h = fst (m h (the (objs h)))"

definition loop_objects ::
  "(nat \<Rightarrow> 'c php_quic_connection \<Rightarrow> 'a \<times> 'c php_quic_connection) \<Rightarrow> nat list \<Rightarrow> 'c objects \<Rightarrow> 'c objects" where
  "loop_objects m hs objs = (\<lambda>h. if h \<in> set hs then Some (snd (m h (the (objs h)))) else objs h)"

lemma loop_value_put: "h' \<noteq> h \<Longrightarrow> loop_value m (objs(h \<mapsto> c)) h' = loop_value m objs h'"
  by (simp add: loop_value_def)

lemma foreach_total:
  assumes "distinct hs" "\<forall>h \<in> set hs. hp_connections heap h \<noteq> None"
  shows "endpoint_foreach fp (\<lambda>h. on_connection h (\<lambda>c. map_prod Inr id (m h c))) f hs acc None heap =
    (True, fold (\<lambda>h. f (loop_value m (hp_connections heap) h)) hs acc, None,
     heap\<lparr>hp_connections := loop_objects m hs (hp_connections heap)\<rparr>)"
  using assms
proof (induction hs arbitrary: acc heap)
  case Nil
  then show ?case by (simp add: loop_objects_def)
next
  case (Cons h hs)
  then obtain c where c: "hp_connections heap h = Some c" by auto
  obtain v c1 where m: "m h c = (v, c1)" by fastforce
  let ?heap1 = "heap\<lparr>hp_connections := (hp_connections heap)(h \<mapsto> c1)\<rparr>"
  have call: "php_quic_server_endpoint_call_method fp (on_connection h (\<lambda>c. map_prod Inr id (m h c))) None heap =
      (Call_value v, None, ?heap1)"
    by (simp add: php_quic_server_endpoint_call_method_def on_connection_def c m)
  have ih: "endpoint_foreach fp (\<lambda>h. on_connection h (\<lambda>c. map_prod Inr id (m h c))) f hs (f v acc) None ?heap1 =
    (True, fold (\<lambda>h. f (loop_value m (hp_connections ?heap1) h)) hs (f v acc), None,
     ?heap1\<lparr>hp_connections := loop_objects m hs (hp_connections ?heap1)\<rparr>)"
    by (rule Cons.IH) (use Cons.prems in auto)
  have "fold (\<lambda>h. f (loop_value m (hp_connections ?heap1) h)) hs (f v acc) =
      fold (\<lambda>h. f (loop_value m (hp_connections heap) h)) (h # hs) acc"
  proof -
    have "fold (\<lambda>h. f (loop_value m (hp_connections ?heap1) h)) hs (f v acc) =
        fold (\<lambda>h. f (loop_value m (hp_connections heap) h)) hs (f v acc)"
    proof (rule fold_cong)
      fix x
      assume "x \<in> set hs"
      then have "x \<noteq> h" using Cons.prems by auto
      then show "f (loop_value m (hp_connections ?heap1) x) = f (loop_value m (hp_connections heap) x)"
        by (simp add: loop_value_put)
    qed simp_all
    then show ?thesis by (simp add: loop_value_def c m)
  qed
  moreover have "loop_objects m hs (hp_connections ?heap1) = loop_objects m (h # hs) (hp_connections heap)"
    using Cons.prems by (auto simp: loop_objects_def c m fun_eq_iff)
  ultimately show ?case unfolding endpoint_foreach.simps call prod.case call_result.case ih by simp
qed

lemma endpoint_wf_live: "endpoint_wf endpoint heap \<Longrightarrow> \<forall>h \<in> set (endpoint_handles endpoint). hp_connections heap h \<noteq> None"
  by (fastforce simp: endpoint_wf_def endpoint_handles_def)

subsection \<open>The earliest of several times\<close>

definition is_earliest :: "zend_long option \<Rightarrow> zend_long option set \<Rightarrow> bool" where
  "is_earliest res ts \<longleftrightarrow>
     (case res of
        None \<Rightarrow> \<forall>t. Some t \<notin> ts
      | Some t \<Rightarrow> Some t \<in> ts \<and> (\<forall>t'. Some t' \<in> ts \<longrightarrow> sint t \<le> sint t'))"

lemma update_min_earliest:
  "is_earliest (min_result acc) ts \<Longrightarrow> is_earliest (min_result (update_min v acc)) (insert v ts)"
  by (cases acc; cases v) (auto simp: is_earliest_def min_result_def update_min_def split: if_splits)

lemma fold_update_min:
  "is_earliest (min_result acc) ts \<Longrightarrow>
    is_earliest (min_result (fold (\<lambda>h. update_min (g h)) hs acc)) (g ` set hs \<union> ts)"
proof (induction hs arbitrary: acc ts)
  case (Cons h hs)
  have "is_earliest (min_result (fold (\<lambda>h. update_min (g h)) hs (update_min (g h) acc))) (g ` set hs \<union> insert (g h) ts)"
    by (rule Cons.IH[OF update_min_earliest[OF Cons.prems]])
  then show ?case by simp
qed simp

lemma earliest_of_all: "is_earliest (min_result (fold (\<lambda>h. update_min (g h)) hs (False, 0))) (g ` set hs)"
proof -
  have "is_earliest (min_result (False, 0)) {}" by (simp add: is_earliest_def min_result_def)
  from fold_update_min[OF this, of g hs] show ?thesis by simp
qed

subsection \<open>A connection that throws\<close>

text \<open>While an exception is pending the rest of the loop runs nothing.\<close>

lemma foreach_pending:
  "endpoint_foreach fp m f hs acc (Some e) heap = (finished, acc', pending', heap') \<Longrightarrow>
    heap' = heap \<and> acc' = acc \<and> pending' = Some e"
  by (induction hs) (auto simp: php_quic_server_endpoint_call_method_def split: if_splits)

lemma drain_foreach_pending:
  "endpoint_drain_foreach fp Y hs acc (Some e) heap = Some (finished, acc', pending', heap') \<Longrightarrow>
    heap' = heap \<and> acc' = acc \<and> pending' = Some e"
  by (induction hs) (auto split: if_splits)

subsection \<open>Draining datagrams\<close>

text \<open>When every connection's drain returns, the loop is the common one.\<close>

lemma drain_foreach_total:
  assumes "\<forall>h \<in> set hs. \<exists>c x. hp_connections heap h = Some c \<and> Connection_drainOutgoingDatagrams (y_ngtcp2 Y) c = Some x"
    and "distinct hs"
  shows "endpoint_drain_foreach fp Y hs acc None heap =
    Some (endpoint_foreach fp (\<lambda>h. on_connection h (\<lambda>c. the (Connection_drainOutgoingDatagrams (y_ngtcp2 Y) c)))
      (\<lambda>items acc. acc @ items) hs acc None heap)"
  using assms
proof (induction hs arbitrary: acc heap)
  case (Cons h hs)
  then obtain c r c1 where c: "hp_connections heap h = Some c"
    and d: "Connection_drainOutgoingDatagrams (y_ngtcp2 Y) c = Some (r, c1)" by fastforce
  let ?heap1 = "heap\<lparr>hp_connections := (hp_connections heap)(h \<mapsto> c1)\<rparr>"
  let ?m = "\<lambda>h. on_connection h (\<lambda>c. the (Connection_drainOutgoingDatagrams (y_ngtcp2 Y) c))"
  have p: "endpoint_drain_foreach fp Y hs a (Some e) hp =
      Some (endpoint_foreach fp ?m (\<lambda>items acc. acc @ items) hs a (Some e) hp)" for a e hp
    by (induction hs) (auto simp: php_quic_server_endpoint_call_method_def)
  have call: "php_quic_server_endpoint_call_method fp (?m h) None heap =
      (case r of Inl e \<Rightarrow> (Call_undef, Some e, ?heap1) | Inr v \<Rightarrow> (Call_value v, None, ?heap1))"
    by (simp add: php_quic_server_endpoint_call_method_def on_connection_def c d)
  show ?case
  proof (cases r)
    case (Inl e)
    then show ?thesis by (simp add: c d p call)
  next
    case (Inr items)
    have "endpoint_drain_foreach fp Y hs (acc @ items) None ?heap1 =
      Some (endpoint_foreach fp ?m (\<lambda>items acc. acc @ items) hs (acc @ items) None ?heap1)"
      by (rule Cons.IH) (use Cons.prems in auto)
    then show ?thesis by (simp add: c d Inr call)
  qed
qed simp

end
