(* ===== verification/Quic_Endpoint_Props.thy ===== *)
theory Quic_Endpoint_Props
  imports Quic_Endpoint_Loops
begin

text \<open>
  An endpoint, its connections and the script as a state machine, and the properties of the
  endpoint. A step is a call of any method of the endpoint, a call of any method of any connection
  object by the script, a direct \<^verbatim>\<open>ServerConnection::accept\<close>, or a change of configuration
  objects; each with any libraries and any results of the system calls. \<open>S\<close> says which
  functions the script may have defined when \<^verbatim>\<open>recv\<close> is called. The label of a step is what \<^verbatim>\<open>drainAcceptedConnections\<close> handed out.
\<close>

inductive endpoint_step ::
  "bool \<Rightarrow> (('c, 'r) function_table \<Rightarrow> bool) \<Rightarrow> php_quic_server_endpoint \<times> ('c, 'r) php_heap \<Rightarrow> nat list \<Rightarrow>
   php_quic_server_endpoint \<times> ('c, 'r) php_heap \<Rightarrow> bool" for fp S where
  es_construct: "endpoint_step fp S (ep, hp) [] (ServerEndpoint_construct cfg ep, hp)"
| es_recv: "S globals \<Longrightarrow> ServerEndpoint_recv fp Y globals datagram ep hp = (r, ep', hp') \<Longrightarrow>
    endpoint_step fp S (ep, hp) [] (ep', hp')"
| es_timers: "ServerEndpoint_handleTimers fp Y ep hp = (r, ep', hp') \<Longrightarrow> endpoint_step fp S (ep, hp) [] (ep', hp')"
| es_expiry: "ServerEndpoint_getNextExpiry fp Y tv ep hp = (t, hp') \<Longrightarrow> endpoint_step fp S (ep, hp) [] (ep, hp')"
| es_timeout: "ServerEndpoint_getNextTimeout fp Y ep hp = (t, hp') \<Longrightarrow> endpoint_step fp S (ep, hp) [] (ep, hp')"
| es_accepted: "ServerEndpoint_drainAcceptedConnections ep = (hs, ep') \<Longrightarrow> endpoint_step fp S (ep, hp) hs (ep', hp)"
| es_outgoing: "ServerEndpoint_drainOutgoingDatagrams fp Y ep hp = Some (out, ep', hp') \<Longrightarrow>
    endpoint_step fp S (ep, hp) [] (ep', hp')"
| es_events: "ServerEndpoint_drainEvents fp ep hp = (evs, ep', hp') \<Longrightarrow> endpoint_step fp S (ep, hp) [] (ep', hp')"
| es_script: "hp_connections hp h = Some c \<Longrightarrow> conn_step L gai c evs c' \<Longrightarrow>
    endpoint_step fp S (ep, hp) [] (ep, hp\<lparr>hp_connections := (hp_connections hp)(h \<mapsto> c')\<rparr>)"
| es_script_accept: "server_endpoint_accept Y hr datagram cfg hp = (res, hp') \<Longrightarrow> endpoint_step fp S (ep, hp) [] (ep, hp')"
| es_configs: "endpoint_step fp S (ep, hp) [] (ep, hp\<lparr>hp_server_configs := cfgs\<rparr>)"

inductive endpoint_reach ::
  "bool \<Rightarrow> (('c, 'r) function_table \<Rightarrow> bool) \<Rightarrow> php_quic_server_endpoint \<times> ('c, 'r) php_heap \<Rightarrow> nat list \<Rightarrow>
   php_quic_server_endpoint \<times> ('c, 'r) php_heap \<Rightarrow> bool" for fp S s0 where
  er_start: "endpoint_reach fp S s0 [] s0"
| er_step: "endpoint_reach fp S s0 given s \<Longrightarrow> endpoint_step fp S s hs s' \<Longrightarrow> endpoint_reach fp S s0 (given @ hs) s'"

subsection \<open>The invariant of a run\<close>

definition run_inv :: "nat list \<Rightarrow> php_quic_server_endpoint \<times> ('c, 'r) php_heap \<Rightarrow> bool" where
  "run_inv given s \<longleftrightarrow>
     (case s of (ep, hp) \<Rightarrow>
        endpoint_wf ep hp \<and> distinct (given @ ep_accepted_queue ep) \<and>
        set (endpoint_handles ep) \<subseteq> set (given @ ep_accepted_queue ep) \<and>
        (\<forall>h \<in> set (given @ ep_accepted_queue ep). hp_connections hp h \<noteq> None))"

lemma run_inv_heap:
  assumes "run_inv given (ep, hp)" "heap_step hp hp'" "endpoint_wf ep' hp'"
    "ep_accepted_queue ep' = ep_accepted_queue ep" "set (endpoint_handles ep') \<subseteq> set (endpoint_handles ep)"
  shows "run_inv given (ep', hp')"
proof -
  have "hp_connections hp' h \<noteq> None" if "hp_connections hp h \<noteq> None" for h
    using assms(2) that unfolding heap_step_def heap_keeps_def by (metis option.distinct(1) option.exhaust)
  then show ?thesis using assms unfolding run_inv_def prod.case by (metis subset_trans)
qed

lemma run_inv_frame:
  assumes "run_inv given (ep, hp)" "heap_step hp hp'"
  shows "run_inv given (ep, hp')"
    and "run_inv given (php_quic_server_endpoint_cleanup_connections hp' ep, hp')"
proof -
  have wf: "endpoint_wf ep hp'" using assms endpoint_wf_step by (auto simp: run_inv_def)
  show "run_inv given (ep, hp')" by (rule run_inv_heap[OF assms wf]) simp_all
  show "run_inv given (php_quic_server_endpoint_cleanup_connections hp' ep, hp')"
    by (rule run_inv_heap[OF assms endpoint_wf_cleanup[OF wf]]) (auto simp: cleanup_handles[OF wf])
qed

lemma handleTimers_inv:
  assumes "run_inv given (ep, hp)" "ServerEndpoint_handleTimers fp Y ep hp = (r, ep', hp')"
  shows "run_inv given (ep', hp')"
proof -
  obtain fin u p hp1 where f: "endpoint_foreach fp (\<lambda>h. on_connection h (Connection_handleTimers (y_ngtcp2 Y)))
      (\<lambda>_ acc. acc) (endpoint_handles ep) () None hp = (fin, u, p, hp1)" by (rule prod_cases4)
  from timers_method.foreach_step[OF f] run_inv_frame[OF assms(1)] assms(2) show ?thesis
    unfolding ServerEndpoint_handleTimers_def f by (auto split: if_splits)
qed

lemma getNextExpiry_inv:
  assumes "run_inv given (ep, hp)" "ServerEndpoint_getNextExpiry fp Y tv ep hp = (r, hp')"
  shows "run_inv given (ep, hp')"
proof -
  obtain fin u p hp1 where f: "endpoint_foreach fp
      (\<lambda>h. on_connection h (\<lambda>c. map_prod Inr id (Connection_getNextExpiry (y_ngtcp2 Y) (tv h) c)))
             update_min (endpoint_handles ep) (False, 0) None hp = (fin, u, p, hp1)" by (rule prod_cases4)
  have "hp' = hp1" using assms(2) unfolding ServerEndpoint_getNextExpiry_def f by (auto split: if_splits)
  with expiry_method.foreach_step[OF f] run_inv_frame(1)[OF assms(1)] show ?thesis by simp
qed

lemma getNextTimeout_inv:
  assumes "run_inv given (ep, hp)" "ServerEndpoint_getNextTimeout fp Y ep hp = (r, hp')"
  shows "run_inv given (ep, hp')"
proof -
  obtain fin u p hp1 where f: "endpoint_foreach fp
      (\<lambda>h. on_connection h (\<lambda>c. map_prod Inr id (Connection_getNextTimeout (y_ngtcp2 Y) c)))
             update_min (endpoint_handles ep) (False, 0) None hp = (fin, u, p, hp1)" by (rule prod_cases4)
  have "hp' = hp1" using assms(2) unfolding ServerEndpoint_getNextTimeout_def f by (auto split: if_splits)
  with timeout_method.foreach_step[OF f] run_inv_frame(1)[OF assms(1)] show ?thesis by simp
qed

lemma drainOutgoing_inv:
  assumes "run_inv given (ep, hp)" "ServerEndpoint_drainOutgoingDatagrams fp Y ep hp = Some (r, ep', hp')"
  shows "run_inv given (ep', hp')"
proof -
  from assms(2) obtain fin out p hp1 where
    f: "endpoint_drain_foreach fp Y (endpoint_handles ep) [] None hp = Some (fin, out, p, hp1)"
    by (auto simp: ServerEndpoint_drainOutgoingDatagrams_def split: option.splits)
  from drain_foreach_step[OF f] run_inv_frame[OF assms(1)] assms(2) show ?thesis
    by (auto simp: ServerEndpoint_drainOutgoingDatagrams_def f split: if_splits)
qed

lemma drainEvents_inv:
  assumes "run_inv given (ep, hp)" "ServerEndpoint_drainEvents fp ep hp = (r, ep', hp')"
  shows "run_inv given (ep', hp')"
proof -
  obtain fin u p hp1 where f: "endpoint_foreach fp (\<lambda>h. on_connection h (\<lambda>c. map_prod Inr id (Connection_drainEvents c)))
             (\<lambda>items acc. acc @ items) (endpoint_handles ep) [] None hp = (fin, u, p, hp1)" by (rule prod_cases4)
  from events_method.foreach_step[OF f] run_inv_frame[OF assms(1)] assms(2) show ?thesis
    unfolding ServerEndpoint_drainEvents_def f by (auto split: if_splits)
qed

lemma recv_inv:
  assumes i: "run_inv given (ep, hp)" and script: "accept_script globals"
    and r: "ServerEndpoint_recv fp Y globals datagram ep hp = (res, ep', hp')"
  shows "run_inv given (ep', hp')"
proof -
  have wf: "endpoint_wf ep hp" using i by (simp add: run_inv_def)
  note s = recv_step[OF wf script r]
  have new: "hp_next hp \<notin> set (given @ ep_accepted_queue ep)"
  proof
    assume "hp_next hp \<in> set (given @ ep_accepted_queue ep)"
    moreover have "\<forall>h \<in> set (given @ ep_accepted_queue ep). hp_connections hp h \<noteq> None"
      using i unfolding run_inv_def prod.case by blast
    ultimately have "hp_connections hp (hp_next hp) \<noteq> None" by blast
    with wf show False unfolding endpoint_wf_def heap_ok_def by blast
  qed
  have old: "hp_connections hp' h \<noteq> None" if "hp_connections hp h \<noteq> None" for h
    using s that unfolding heap_step_def heap_keeps_def by (metis option.distinct(1) option.exhaust)
  from s consider
      (same) "ep_accepted_queue ep' = ep_accepted_queue ep" "set (endpoint_handles ep') \<subseteq> set (endpoint_handles ep)"
    | (more) "ep_accepted_queue ep' = ep_accepted_queue ep @ [hp_next hp]" "hp_connections hp' (hp_next hp) \<noteq> None"
        "set (endpoint_handles ep') \<subseteq> insert (hp_next hp) (set (endpoint_handles ep))"
    by blast
  then show ?thesis
  proof cases
    case same
    with s run_inv_heap[OF i] show ?thesis by blast
  next
    case more
    have "set (endpoint_handles ep') \<subseteq> set (given @ ep_accepted_queue ep')"
      using more i by (auto simp: run_inv_def)
    moreover have "\<forall>h \<in> set (given @ ep_accepted_queue ep'). hp_connections hp' h \<noteq> None"
      using more(1,2) i old by (auto simp: run_inv_def)
    moreover have "distinct (given @ ep_accepted_queue ep')" using more(1) new i by (auto simp: run_inv_def)
    ultimately show ?thesis using s by (simp add: run_inv_def)
  qed
qed

lemma endpoint_step_inv:
  "endpoint_step fp accept_script s hs s' \<Longrightarrow> run_inv given s \<Longrightarrow> run_inv (given @ hs) s'"
proof (induction rule: endpoint_step.induct)
  case (es_construct ep hp cfg)
  then show ?case by (simp add: run_inv_def ServerEndpoint_construct_def endpoint_wf_def endpoint_handles_def)
next
  case (es_recv globals Y datagram ep hp r ep' hp')
  then show ?case using recv_inv[of given] by simp
next
  case (es_timers Y ep hp r ep' hp')
  then show ?case using handleTimers_inv[of given] by simp
next
  case (es_expiry Y tv ep hp t hp')
  then show ?case using getNextExpiry_inv[of given] by simp
next
  case (es_timeout Y ep hp t hp')
  then show ?case using getNextTimeout_inv[of given] by simp
next
  case (es_accepted ep hs ep' hp)
  then have e: "hs = ep_accepted_queue ep" "ep' = ep\<lparr>ep_accepted_queue := []\<rparr>"
    by (simp_all add: ServerEndpoint_drainAcceptedConnections_def)
  from es_accepted(2) show ?case unfolding e by (simp add: run_inv_def endpoint_wf_def endpoint_handles_def)
next
  case (es_outgoing Y ep hp out ep' hp')
  then show ?case using drainOutgoing_inv[of given] by simp
next
  case (es_events ep hp evs ep' hp')
  then show ?case using drainEvents_inv[of given] by simp
next
  case (es_script hp h c L gai evs c' ep)
  then have "heap_step hp (hp\<lparr>hp_connections := (hp_connections hp)(h \<mapsto> c')\<rparr>)"
    using heap_step_put[OF es_script(1) conn_step_addresses[OF es_script(2)]] conn_step_good[OF es_script(2)] by blast
  with es_script(3) run_inv_frame(1)[of given ep hp] show ?case by simp
next
  case (es_script_accept Y hr datagram cfg hp res hp' ep)
  then have "heap_ok hp" by (simp add: run_inv_def endpoint_wf_def)
  with es_script_accept accept_step[OF this es_script_accept(1)] run_inv_frame(1)[of given ep hp] show ?case by simp
next
  case (es_configs ep hp cfgs)
  then show ?case using run_inv_frame(1)[of given ep hp] by simp
qed

lemma endpoint_reach_inv:
  "endpoint_reach fp accept_script s0 given s \<Longrightarrow> run_inv [] s0 \<Longrightarrow> run_inv given s"
  by (induction rule: endpoint_reach.induct) (auto intro: endpoint_step_inv)

lemma new_endpoint_inv: "heap_ok hp \<Longrightarrow> run_inv [] (php_quic_server_endpoint_create_object, hp)"
  by (simp add: run_inv_def endpoint_wf_def php_quic_server_endpoint_create_object_def endpoint_handles_def hash_keys_def)

subsection \<open>Routing\<close>

text \<open>
  C11. The routing table stays true. After any sequence of calls on an endpoint, its connections
  and the configuration objects, by a script that defines no global function \<^verbatim>\<open>accept\<close> or one
  that returns what \<^verbatim>\<open>ServerConnection::accept\<close> gives for the datagram (\<open>accept_script\<close>), every
  connection in the table is a live well-formed object whose peer address gives exactly the key it
  is stored under; no key and no connection occurs twice.
\<close>

theorem endpoint_table_true:
  assumes "endpoint_reach fp accept_script (php_quic_server_endpoint_create_object, hp0) given (ep, hp)" and "heap_ok hp0"
  shows "distinct (hash_keys (ep_connections ep)) \<and> distinct (endpoint_handles ep) \<and>
    (\<forall>k h. (k, h) \<in> set (ep_connections ep) \<longrightarrow>
      (\<exists>c. hp_connections hp h = Some c \<and> conn_wf c \<and> address_key (c_remote_address_zv c) = Some k))"
proof -
  have wf: "endpoint_wf ep hp"
    using endpoint_reach_inv[OF assms(1) new_endpoint_inv[OF assms(2)]] by (simp add: run_inv_def)
  with endpoint_wf_handles[OF wf] show ?thesis
    unfolding endpoint_wf_def heap_ok_def objects_wf_def by blast
qed

text \<open>
  C21. Every accepted connection is handed to the script once. After any such sequence, the
  connections that \<^verbatim>\<open>drainAcceptedConnections\<close> has returned and those still queued are all
  different, each is a live object, and every connection the endpoint serves is among them.
\<close>

theorem accepted_once:
  assumes "endpoint_reach fp accept_script (php_quic_server_endpoint_create_object, hp0) given (ep, hp)" and "heap_ok hp0"
  shows "distinct (given @ ep_accepted_queue ep) \<and>
    (\<forall>h \<in> set (given @ ep_accepted_queue ep). hp_connections hp h \<noteq> None) \<and>
    set (endpoint_handles ep) \<subseteq> set (given @ ep_accepted_queue ep)"
  using endpoint_reach_inv[OF assms(1) new_endpoint_inv[OF assms(2)]] unfolding run_inv_def prod.case by blast

text \<open>
  C12. A datagram goes to the connection of its peer and to nothing else. When the table has a
  connection under the datagram's key, \<^verbatim>\<open>recv\<close> is that connection's \<^verbatim>\<open>recv\<close> (its peer has
  the datagram's host and port), no other object changes, and then exactly the finished
  connections leave the table. Otherwise the datagram goes to the script's global function
  \<^verbatim>\<open>accept\<close>. Without one, or when it throws or returns no object, \<^verbatim>\<open>recv\<close> throws and the
  endpoint does not change; when it returns the connection that \<^verbatim>\<open>ServerConnection::accept\<close> made,
  that new object is stored under the key, last, and queued for the script, and leaves the table at
  once only if it is already finished.
\<close>

theorem recv_routes:
  assumes wf: "endpoint_wf ep hp" and k: "php_quic_server_endpoint_connection_key datagram = Some key"
    and script: "accept_script globals"
  shows "case (zend_hash_find (ep_connections ep) key, ServerEndpoint_recv fp Y globals datagram ep hp) of
     (Some h, (r, ep', hp')) \<Rightarrow>
       (\<exists>c c'. hp_connections hp h = Some c \<and> address_key (c_remote_address_zv c) = Some key \<and>
          Connection_recv (y_ngtcp2 Y) (y_getaddrinfo Y) datagram c = (r, c') \<and>
          hp' = hp\<lparr>hp_connections := (hp_connections hp)(h \<mapsto> c')\<rparr>) \<and>
       ep' = ep\<lparr>ep_connections := filter (\<lambda>(k, h). \<not> handle_finished hp' h) (ep_connections ep)\<rparr>
   | (None, (r, ep', hp')) \<Rightarrow>
       (case globals ''accept'' of
          None \<Rightarrow> \<not> is_ok r \<and> ep' = ep \<and> hp' = hp
        | Some f \<Rightarrow>
            (case f datagram (ep_config ep) hp of
               (Inl e, hp1) \<Rightarrow> (\<exists>msg. r = Inl (Chained msg e)) \<and> ep' = ep \<and> hp' = hp1 \<and>
                  hp_connections hp1 = hp_connections hp
             | (Inr User_other, hp1) \<Rightarrow> \<not> is_ok r \<and> ep' = ep \<and> hp' = hp1 \<and>
                  hp_connections hp1 = hp_connections hp
             | (Inr (User_object h), hp1) \<Rightarrow> r = Inr () \<and> hp' = hp1 \<and>
                  hp_connections hp h = None \<and>
                  (\<exists>c. hp_connections hp1 = (hp_connections hp)(h \<mapsto> c) \<and>
                     address_key (c_remote_address_zv c) = Some key) \<and>
                  ep' = ep\<lparr>ep_connections := filter (\<lambda>(k, h). \<not> handle_finished hp' h) (ep_connections ep @ [(key, h)]),
                           ep_accepted_queue := ep_accepted_queue ep @ [h]\<rparr>))"
proof (cases "zend_hash_find (ep_connections ep) key")
  case (Some h)
  obtain c where c: "hp_connections hp h = Some c" "address_key (c_remote_address_zv c) = Some key"
    by (rule endpoint_wf_find[OF wf Some])
  obtain r c' where r: "Connection_recv (y_ngtcp2 Y) (y_getaddrinfo Y) datagram c = (r, c')" by fastforce
  have "distinct (hash_keys (ep_connections ep))" using wf by (simp add: endpoint_wf_def)
  from recv_known[OF wf k Some c(1) r, where fp = fp and globals = globals] c r cleanup_filter[OF this]
  show ?thesis by (simp add: Some)
next
  case None
  show ?thesis
  proof (cases "globals ''accept''")
    case missing: None
    from recv_missing[OF k None, where globals = globals, OF missing]
    show ?thesis by (simp add: None missing)
  next
    case (Some f)
    obtain q hp1 where q: "f datagram (ep_config ep) hp = (q, hp1)" by fastforce
    have ok: "heap_ok hp" "accepting_function f" using wf script Some by (simp_all add: endpoint_wf_def accept_script_def)
    note a = accepting_step[OF ok(2,1) q]
    note u = recv_unknown[OF k None, where globals = globals and f = f, OF Some q, of fp Y]
    show ?thesis
    proof (cases "\<exists>h. q = Inr (User_object h)")
      case False
      with u a show ?thesis by (cases q) (auto simp: None Some q split: user_value.splits)
    next
      case True
      then obtain h where Inr: "q = Inr (User_object h)" by blast
      have "distinct (hash_keys (ep_connections (ep\<lparr>ep_connections := zend_hash_update key h (ep_connections ep),
            ep_accepted_queue := ep_accepted_queue ep @ [h]\<rparr>)))"
        using wf by (simp add: endpoint_wf_def hash.ok_upd)
      from cleanup_filter[OF this, of hp1] u Inr
      have "ServerEndpoint_recv fp Y globals datagram ep hp = (Inr (),
        ep\<lparr>ep_connections := filter (\<lambda>(k, h). \<not> handle_finished hp1 h) (ep_connections ep @ [(key, h)]),
           ep_accepted_queue := ep_accepted_queue ep @ [h]\<rparr>, hp1)"
        by (simp add: hash_update_new[OF None])
      moreover have "hp_connections hp h = None" using a Inr ok by (auto simp: heap_ok_def)
      moreover have "\<exists>c. hp_connections hp1 = (hp_connections hp)(h \<mapsto> c) \<and>
          address_key (c_remote_address_zv c) = Some key"
        using a Inr k by (auto simp: php_quic_server_endpoint_connection_key_def)
      ultimately show ?thesis using Inr by (simp add: None Some q)
    qed
  qed
qed

subsection \<open>Without a function to accept\<close>

definition no_accept :: "('c, 'r) function_table \<Rightarrow> bool" where
  "no_accept globals \<longleftrightarrow> globals ''accept'' = None"

definition idle_endpoint :: "php_quic_server_endpoint \<Rightarrow> bool" where
  "idle_endpoint ep \<longleftrightarrow> ep_connections ep = [] \<and> ep_accepted_queue ep = []"

lemma idle_cleanup: "idle_endpoint ep \<Longrightarrow> php_quic_server_endpoint_cleanup_connections hp ep = ep"
  by (simp add: idle_endpoint_def php_quic_server_endpoint_cleanup_connections_def)

lemma idle_recv:
  assumes "idle_endpoint ep" and "no_accept globals"
  shows "\<exists>e. ServerEndpoint_recv fp Y globals datagram ep hp = (Inl e, ep, hp)"
proof (cases "php_quic_server_endpoint_connection_key datagram")
  case None
  then show ?thesis by (simp add: ServerEndpoint_recv_def)
next
  case (Some key)
  have "zend_hash_find (ep_connections ep) key = None" using assms(1) by (simp add: idle_endpoint_def zend_hash_find_def)
  from recv_missing[OF Some this, where globals = globals] assms(2) show ?thesis by (simp add: no_accept_def)
qed

lemma idle_step: "endpoint_step fp no_accept s hs s' \<Longrightarrow> idle_endpoint (fst s) \<Longrightarrow> idle_endpoint (fst s') \<and> hs = []"
proof (induction rule: endpoint_step.induct)
  case (es_recv globals Y datagram ep hp r ep' hp')
  then show ?case using idle_recv[of ep globals fp Y datagram hp] by auto
qed (auto simp: idle_cleanup idle_endpoint_def ServerEndpoint_construct_def ServerEndpoint_handleTimers_def
    ServerEndpoint_drainOutgoingDatagrams_def ServerEndpoint_drainEvents_def
    ServerEndpoint_drainAcceptedConnections_def endpoint_handles_def)

lemma idle_reach:
  "endpoint_reach fp no_accept s0 given s \<Longrightarrow> idle_endpoint (fst s0) \<Longrightarrow> idle_endpoint (fst s) \<and> given = []"
  by (induction rule: endpoint_reach.induct) (use idle_step in blast)+

text \<open>
  C1. An endpoint accepts nothing by itself. \<^verbatim>\<open>recv\<close> means to hand the first datagram of a
  peer to \<^verbatim>\<open>ServerConnection::accept\<close>, but calls a global function \<^verbatim>\<open>accept\<close>. In a script
  that defines none, over any sequence of calls the endpoint never has a connection, never hands one
  out, and every \<^verbatim>\<open>recv\<close> throws and changes nothing, whatever the datagram, the configuration
  and the engine's version.
\<close>

theorem endpoint_never_accepts:
  assumes "endpoint_reach fp no_accept (php_quic_server_endpoint_create_object, hp0) given (ep, hp)"
    and "no_accept globals"
  shows "given = [] \<and> ep_connections ep = [] \<and> ep_accepted_queue ep = [] \<and>
    (\<exists>e. ServerEndpoint_recv fp Y globals datagram ep hp = (Inl e, ep, hp))"
proof -
  have "idle_endpoint ep \<and> given = []"
    using idle_reach[OF assms(1)] by (simp add: idle_endpoint_def php_quic_server_endpoint_create_object_def)
  with idle_recv[OF _ assms(2)] show ?thesis by (auto simp: idle_endpoint_def)
qed

subsection \<open>Timers\<close>

text \<open>
  C23. The endpoint's deadline is the earliest of its connections': \<^verbatim>\<open>getNextExpiry\<close> and
  \<^verbatim>\<open>getNextTimeout\<close> never throw, and return the smallest (as signed numbers) of the values of
  the connections in the table that have one, and null exactly when none has.
\<close>

theorem endpoint_timers_earliest:
  assumes "endpoint_wf ep hp"
  shows "(\<exists>t hp'. ServerEndpoint_getNextExpiry fp Y tv ep hp = (Inr t, hp') \<and>
      is_earliest t ((\<lambda>h. fst (Connection_getNextExpiry (y_ngtcp2 Y) (tv h) (the (hp_connections hp h)))) ` set (endpoint_handles ep))) \<and>
    (\<exists>t hp'. ServerEndpoint_getNextTimeout fp Y ep hp = (Inr t, hp') \<and>
      is_earliest t ((\<lambda>h. fst (Connection_getNextTimeout (y_ngtcp2 Y) (the (hp_connections hp h)))) ` set (endpoint_handles ep)))"
proof -
  note live = endpoint_wf_handles[OF assms] endpoint_wf_live[OF assms]
  show ?thesis
    unfolding ServerEndpoint_getNextExpiry_def ServerEndpoint_getNextTimeout_def
      foreach_total[OF live, where m = "\<lambda>h. Connection_getNextExpiry (y_ngtcp2 Y) (tv h)"]
      foreach_total[OF live, where m = "\<lambda>h. Connection_getNextTimeout (y_ngtcp2 Y)"] loop_value_def
    using earliest_of_all by (auto simp: unless_pending_def)
qed

subsection \<open>Aggregation\<close>

lemma fold_append: "fold (\<lambda>h acc. acc @ g h) hs acc = acc @ concat (map g hs)"
  by (induction hs arbitrary: acc) auto

lemma drainEvents_value: "conn_wf c \<Longrightarrow> fst (Connection_drainEvents c) = event_objects c"
  using drain_event_queue_list[of "c_events c"]
  by (auto simp: Connection_drainEvents_def event_objects_def conn_wf_def split: prod.splits)

lemma endpoint_conn_wf:
  "endpoint_wf ep hp \<Longrightarrow> h \<in> set (endpoint_handles ep) \<Longrightarrow> conn_wf (the (hp_connections hp h))"
  using endpoint_wf_live[of ep hp] unfolding endpoint_wf_def heap_ok_def objects_wf_def by force

lemma drainEvents_result:
  assumes "endpoint_wf ep hp"
  shows "fst (ServerEndpoint_drainEvents fp ep hp) =
    Inr (concat (map (\<lambda>h. event_objects (the (hp_connections hp h))) (endpoint_handles ep)))"
proof -
  note live = endpoint_wf_handles[OF assms] endpoint_wf_live[OF assms]
  have e: "map (\<lambda>h. fst (Connection_drainEvents (the (hp_connections hp h)))) (endpoint_handles ep) =
      map (\<lambda>h. event_objects (the (hp_connections hp h))) (endpoint_handles ep)"
    using endpoint_conn_wf[OF assms] by (auto simp: drainEvents_value)
  show ?thesis
    unfolding ServerEndpoint_drainEvents_def foreach_total[OF live, where m = "\<lambda>h. Connection_drainEvents"]
      loop_value_def fold_append e by (simp add: unless_pending_def)
qed

text \<open>
  C24. \<^verbatim>\<open>drainEvents\<close> of an endpoint returns the pending events of every connection in its table,
  connection by connection in table order and in the order they were queued, leaves no event
  pending on any of them, and then drops exactly the finished connections.
\<close>

theorem endpoint_events_complete:
  assumes "endpoint_wf ep hp"
  shows "case ServerEndpoint_drainEvents fp ep hp of (r, ep', hp') \<Rightarrow>
    r = Inr (concat (map (\<lambda>h. event_objects (the (hp_connections hp h))) (endpoint_handles ep))) \<and>
    (\<forall>h \<in> set (endpoint_handles ep). event_objects (the (hp_connections hp' h)) = []) \<and>
    endpoint_handles ep' = filter (\<lambda>h. \<not> handle_finished hp' h) (endpoint_handles ep)"
proof -
  note live = endpoint_wf_handles[OF assms] endpoint_wf_live[OF assms]
  let ?hp' = "hp\<lparr>hp_connections := loop_objects (\<lambda>h. Connection_drainEvents) (endpoint_handles ep) (hp_connections hp)\<rparr>"
  have e: "ServerEndpoint_drainEvents fp ep hp =
      (fst (ServerEndpoint_drainEvents fp ep hp), php_quic_server_endpoint_cleanup_connections ?hp' ep, ?hp')"
    unfolding ServerEndpoint_drainEvents_def foreach_total[OF live, where m = "\<lambda>h. Connection_drainEvents"] by simp
  have "event_objects (snd (Connection_drainEvents (the (hp_connections hp h)))) = []"
    if "h \<in> set (endpoint_handles ep)" for h
    using endpoint_conn_wf[OF assms that] drain_event_queue_list[of "c_events (the (hp_connections hp h))"]
    by (auto simp: event_objects_def Connection_drainEvents_def conn_wf_def split: prod.splits)
  then have q: "\<forall>h \<in> set (endpoint_handles ep). event_objects (the (hp_connections ?hp' h)) = []"
    by (simp add: loop_objects_def)
  have f: "endpoint_handles (php_quic_server_endpoint_cleanup_connections ?hp' ep) =
      filter (\<lambda>h. \<not> handle_finished ?hp' h) (endpoint_handles ep)"
    using assms by (simp add: cleanup_filter endpoint_wf_def endpoint_handles_def filter_map o_def case_prod_unfold)
  show ?thesis
    by (subst e, unfold prod.case) (intro conjI q f drainEvents_result[OF assms])
qed

text \<open>What a drain loop collected when nothing threw.\<close>

lemma foreach_none:
  assumes "distinct hs" "\<forall>h \<in> set hs. hp_connections heap h \<noteq> None"
    and "endpoint_foreach fp (\<lambda>h. on_connection h (m h)) (\<lambda>items acc. acc @ items) hs acc None heap = (fin, out, None, heap')"
  shows "fin \<and> (\<forall>h \<in> set hs. is_ok (fst (m h (the (hp_connections heap h))))) \<and>
    out = acc @ concat (map (\<lambda>h. projr (fst (m h (the (hp_connections heap h))))) hs)"
  using assms
proof (induction hs arbitrary: acc heap)
  case (Cons h hs)
  then obtain c where c: "hp_connections heap h = Some c" by auto
  obtain r c1 where m: "m h c = (r, c1)" by fastforce
  let ?heap1 = "heap\<lparr>hp_connections := (hp_connections heap)(h \<mapsto> c1)\<rparr>"
  have call: "php_quic_server_endpoint_call_method fp (on_connection h (m h)) None heap =
      (case r of Inl e \<Rightarrow> (Call_undef, Some e, ?heap1) | Inr v \<Rightarrow> (Call_value v, None, ?heap1))"
    by (simp add: php_quic_server_endpoint_call_method_def on_connection_def c m)
  show ?case
  proof (cases r)
    case (Inl e)
    from Cons.prems(3) have "endpoint_foreach fp (\<lambda>h. on_connection h (m h)) (\<lambda>items acc. acc @ items) hs acc (Some e) ?heap1
        = (fin, out, None, heap')" by (simp add: call Inl)
    from foreach_pending[OF this] show ?thesis by simp
  next
    case (Inr v)
    have "endpoint_foreach fp (\<lambda>h. on_connection h (m h)) (\<lambda>items acc. acc @ items) hs (acc @ v) None ?heap1
        = (fin, out, None, heap')" using Cons.prems(3) by (simp add: call Inr)
    from Cons.IH[OF _ _ this] Cons.prems(1,2)
    have "fin \<and> (\<forall>h' \<in> set hs. is_ok (fst (m h' (the (hp_connections ?heap1 h'))))) \<and>
        out = (acc @ v) @ concat (map (\<lambda>h'. projr (fst (m h' (the (hp_connections ?heap1 h'))))) hs)" by auto
    moreover have "hp_connections ?heap1 h' = hp_connections heap h'" if "h' \<in> set hs" for h'
      using that Cons.prems(1) by auto
    ultimately show ?thesis by (simp add: c m Inr cong: map_cong)
  qed
qed simp

lemma concat_bound:
  "(\<And>x. x \<in> set xss \<Longrightarrow> length x \<le> n) \<Longrightarrow> length (concat xss) \<le> n * length xss"
  by (induction xss) (auto, fastforce)

text \<open>
  C22. \<^verbatim>\<open>drainOutgoingDatagrams\<close> of an endpoint returns, over a library that behaves as documented
  (\<open>writes_bounded\<close>). If it does not throw, its result is what each connection in the table
  drained, connection by connection in table order: at most 256 datagrams for each, every one
  with a non-empty payload of at most 1452 bytes.
\<close>

theorem endpoint_drain_returns:
  assumes wf: "endpoint_wf ep hp" and L: "writes_bounded (y_ngtcp2 Y) space"
  shows "\<exists>r ep' hp'. ServerEndpoint_drainOutgoingDatagrams fp Y ep hp = Some (r, ep', hp') \<and>
    (\<forall>items. r = Inr items \<longrightarrow>
       items = concat (map (\<lambda>h. projr (fst (the (Connection_drainOutgoingDatagrams (y_ngtcp2 Y) (the (hp_connections hp h))))))
                        (endpoint_handles ep)) \<and>
       length items \<le> 256 * length (endpoint_handles ep) \<and>
       (\<forall>d \<in> set items. dg_payload d \<noteq> '''' \<and> length (dg_payload d) \<le> 1452))"
proof -
  let ?m = "\<lambda>c. the (Connection_drainOutgoingDatagrams (y_ngtcp2 Y) c)"
  let ?c = "\<lambda>h. the (hp_connections hp h)"
  note live = endpoint_wf_handles[OF wf] endpoint_wf_live[OF wf]
  have ret: "\<exists>r c'. Connection_drainOutgoingDatagrams (y_ngtcp2 Y) (?c h) = Some (r, c') \<and>
      (\<forall>out. r = Inr out \<longrightarrow> length out \<le> 256 \<and> (\<forall>d \<in> set out. datagram_ok (?c h) d))"
    if "h \<in> set (endpoint_handles ep)" for h
    using drain_total[OF L endpoint_conn_wf[OF wf that]] by blast
  have "\<forall>h \<in> set (endpoint_handles ep). \<exists>c x. hp_connections hp h = Some c \<and>
      Connection_drainOutgoingDatagrams (y_ngtcp2 Y) c = Some x"
    using ret live(2) by (metis option.collapse)
  note tot = drain_foreach_total[OF this live(1), of fp "[]"]
  obtain fin out pending hp1 where f: "endpoint_foreach fp (\<lambda>h. on_connection h ?m) (\<lambda>items acc. acc @ items)
      (endpoint_handles ep) [] None hp = (fin, out, pending, hp1)" by (rule prod_cases4)
  show ?thesis
  proof (cases "fin \<and> pending = None")
    case True
    with foreach_none[OF live, of fp "\<lambda>h. ?m" "[]" fin out hp1] f
    have out: "\<forall>h \<in> set (endpoint_handles ep). is_ok (fst (?m (?c h)))"
      "out = concat (map (\<lambda>h. projr (fst (?m (?c h)))) (endpoint_handles ep))" by auto
    have each: "length (projr (fst (?m (?c h)))) \<le> 256 \<and> (\<forall>d \<in> set (projr (fst (?m (?c h)))). datagram_ok (?c h) d)"
      if "h \<in> set (endpoint_handles ep)" for h
      using ret[OF that] out(1) that by (fastforce simp: is_ok_iff)
    have "length out \<le> 256 * length (endpoint_handles ep)"
      unfolding out(2) using each concat_bound[of "map (\<lambda>h. projr (fst (?m (?c h)))) (endpoint_handles ep)" 256] by auto
    moreover have "\<forall>d \<in> set out. dg_payload d \<noteq> '''' \<and> length (dg_payload d) \<le> 1452"
      unfolding out(2) using each by (auto simp: datagram_ok_def)
    ultimately show ?thesis
      using True out(2) by (simp add: ServerEndpoint_drainOutgoingDatagrams_def tot f unless_pending_def)
  next
    case False
    then show ?thesis
      by (cases pending; cases fin) (simp_all add: ServerEndpoint_drainOutgoingDatagrams_def tot f unless_pending_def)
  qed
qed

subsection \<open>What the endpoint loses\<close>

text \<open>
  C36. A peer that closes its connection is noticed inside \<^verbatim>\<open>recv\<close>, and the same call drops
  the connection from the table: the event that announces it is queued on an object the endpoint
  no longer knows, so \<^verbatim>\<open>drainEvents\<close> of the endpoint will not return it.
\<close>

theorem closing_recv_drops_events:
  assumes wf: "endpoint_wf ep hp" and k: "php_quic_server_endpoint_connection_key datagram = Some key"
    and h: "zend_hash_find (ep_connections ep) key = Some h" "hp_connections hp h = Some c"
    and r: "Connection_recv (y_ngtcp2 Y) (y_getaddrinfo Y) datagram c = (r, c')"
    and closed: "\<not> c_closed c" "c_closed c'" "\<not> c_close_requested c'"
  shows "case ServerEndpoint_recv fp Y globals datagram ep hp of (res, ep', hp') \<Rightarrow>
    h \<notin> set (endpoint_handles ep') \<and>
    (\<exists>ev \<in> set (event_objects (the (hp_connections hp' h))). Event_getType ev = ucast PHP_QUIC_EVENT_CONNECTION_CLOSED)"
proof -
  let ?hp' = "hp\<lparr>hp_connections := (hp_connections hp)(h \<mapsto> c')\<rparr>"
  have cwf: "conn_wf c" using wf h by (auto simp: endpoint_wf_def heap_ok_def objects_wf_def)
  have "event_step c c'" using recv_good[OF cwf, of "y_ngtcp2 Y" "y_getaddrinfo Y" datagram] by (simp add: r good_step_def)
  then obtain new where new: "queue_list (c_events c') = queue_list (c_events c) @ new"
    "count_type PHP_QUIC_EVENT_CONNECTION_CLOSED new = 1"
    using closed by (auto simp: event_step_def raised_def)
  from new(2) have "filter (\<lambda>e. ev_type e = PHP_QUIC_EVENT_CONNECTION_CLOSED) new \<noteq> []"
    by (auto simp: count_type_def simp del: One_nat_def)
  then obtain e where "e \<in> set new" "ev_type e = PHP_QUIC_EVENT_CONNECTION_CLOSED" by (auto simp: filter_empty_conv)
  then have "php_quic_event_create_from_native e \<in> set (event_objects c')"
    "Event_getType (php_quic_event_create_from_native e) = ucast PHP_QUIC_EVENT_CONNECTION_CLOSED"
    by (simp_all add: event_objects_def new(1) getType_native)
  then have ev: "\<exists>ev \<in> set (event_objects c'). Event_getType ev = ucast PHP_QUIC_EVENT_CONNECTION_CLOSED" by blast
  have "handle_finished ?hp' h" using closed by (simp add: handle_finished_def connection_finished_def)
  moreover have "endpoint_handles (php_quic_server_endpoint_cleanup_connections ?hp' ep) =
      filter (\<lambda>h. \<not> handle_finished ?hp' h) (endpoint_handles ep)"
    using wf by (simp add: cleanup_filter endpoint_wf_def endpoint_handles_def filter_map o_def case_prod_unfold)
  ultimately show ?thesis using ev by (simp add: recv_known[OF wf k h r])
qed

text \<open>One connection whose timer call throws keeps every later connection's timer from running.\<close>

theorem throwing_timer_stops_others:
  assumes "ep_connections ep = (key, h) # rest" "hp_connections hp h = Some c"
    and "Connection_handleTimers (y_ngtcp2 Y) c = (Inl e, c')" "h \<notin> snd ` set rest"
  shows "case ServerEndpoint_handleTimers fp Y ep hp of (r, ep', hp') \<Rightarrow>
    r \<noteq> Inr () \<and> (\<forall>g \<in> snd ` set rest. hp_connections hp' g = hp_connections hp g)"
proof -
  let ?hp1 = "hp\<lparr>hp_connections := (hp_connections hp)(h \<mapsto> c')\<rparr>"
  let ?m = "\<lambda>h. on_connection h (Connection_handleTimers (y_ngtcp2 Y))"
  obtain fin u p hp2 where f: "endpoint_foreach fp ?m (\<lambda>_ acc. acc) (map snd rest) () (Some e) ?hp1 = (fin, u, p, hp2)"
    by (rule prod_cases4)
  from foreach_pending[OF f] have p: "hp2 = ?hp1" "p = Some e" by auto
  have call: "php_quic_server_endpoint_call_method fp (?m h) None hp = (Call_undef, Some e, ?hp1)"
    by (simp add: php_quic_server_endpoint_call_method_def on_connection_def assms)
  have "endpoint_foreach fp ?m (\<lambda>_ acc. acc) (endpoint_handles ep) () None hp = (fin, u, p, hp2)"
    unfolding endpoint_handles_def assms(1) list.map snd_conv endpoint_foreach.simps call prod.case call_result.case f ..
  then have "ServerEndpoint_handleTimers fp Y ep hp =
      (if \<not> fin then (Inl (zend_throw ''ServerEndpoint::handleTimers: timer dispatch failed'' p), ep, hp2)
       else (unless_pending p (), php_quic_server_endpoint_cleanup_connections hp2 ep, hp2))"
    unfolding ServerEndpoint_handleTimers_def by simp
  with assms(4) show ?thesis by (auto simp: p unless_pending_def)
qed

subsection \<open>A sample endpoint\<close>

text \<open>An endpoint that has just accepted its first connection, over the sample library.\<close>

definition sample_php_heap :: "(sample_conn, nat) php_heap" where
  "sample_php_heap =
     \<lparr>hp_connections = Map.empty, hp_server_configs = [0 \<mapsto> sample_server_config], hp_next = 0,
      hp_world = sample_world\<rparr>"

definition sample_script :: "(sample_conn, nat) function_table" where
  "sample_script = forwarding_script sample_system (\<lambda>i. of_nat i)"

definition sample_recv ::
  "unit outcome \<times> php_quic_server_endpoint \<times> (sample_conn, nat) php_heap" where
  "sample_recv = ServerEndpoint_recv True sample_system sample_script sample_initial
     (ServerEndpoint_construct 0 php_quic_server_endpoint_create_object) sample_php_heap"

definition sample_ep :: php_quic_server_endpoint where
  "sample_ep = fst (snd sample_recv)"

definition sample_hp :: "(sample_conn, nat) php_heap" where
  "sample_hp = snd (snd sample_recv)"

lemma sample_recv_eq:
  "ServerEndpoint_recv True sample_system sample_script sample_initial
     (ServerEndpoint_construct 0 php_quic_server_endpoint_create_object) sample_php_heap =
   (fst sample_recv, sample_ep, sample_hp)"
  unfolding sample_recv_def[symmetric] sample_ep_def sample_hp_def by (simp only: prod.collapse)

lemma sample_heap_ok: "heap_ok sample_php_heap"
  by (simp add: heap_ok_def sample_php_heap_def objects_wf_def)

lemma sample_accept_script: "accept_script sample_script"
  by (simp add: sample_script_def forwarding_accept_script)

lemma sample_reach:
  "endpoint_reach True accept_script (php_quic_server_endpoint_create_object, sample_php_heap) [] (sample_ep, sample_hp)"
proof -
  let ?R = "endpoint_reach True accept_script (php_quic_server_endpoint_create_object, sample_php_heap)"
  have "?R ([] @ []) (ServerEndpoint_construct 0 php_quic_server_endpoint_create_object, sample_php_heap)"
    by (rule er_step[OF er_start es_construct])
  from er_step[OF this es_recv[where S = accept_script, OF sample_accept_script sample_recv_eq]] show ?thesis by simp
qed

lemma sample_recv_wf: "endpoint_wf sample_ep sample_hp"
  using endpoint_reach_inv[OF sample_reach new_endpoint_inv[OF sample_heap_ok]] by (simp add: run_inv_def)

theorem endpoint_table_true_witness:
  "distinct (endpoint_handles sample_ep)"
  using endpoint_table_true[OF sample_reach sample_heap_ok] by blast

theorem accepted_once_witness:
  "distinct (ep_accepted_queue sample_ep)"
  using accepted_once[OF sample_reach sample_heap_ok] by simp

theorem recv_routes_witness:
  "\<exists>key ep' hp'. php_quic_server_endpoint_connection_key sample_initial = Some key \<and>
    ServerEndpoint_recv True sample_system sample_script sample_initial
      (ServerEndpoint_construct 0 php_quic_server_endpoint_create_object) sample_php_heap = (Inr (), ep', hp') \<and>
    ep_accepted_queue ep' = [0]"
proof -
  let ?ep = "ServerEndpoint_construct 0 php_quic_server_endpoint_create_object"
  have wf: "endpoint_wf ?ep sample_php_heap"
    using new_endpoint_inv[OF sample_heap_ok]
    by (simp add: run_inv_def endpoint_wf_def ServerEndpoint_construct_def)
  obtain key where k: "php_quic_server_endpoint_connection_key sample_initial = Some key"
    by (simp add: php_quic_server_endpoint_connection_key_def address_key_def sample_initial_def Datagram_construct_def)
  have e: "ep_connections ?ep = []" "ep_config ?ep = Some 0" "ep_accepted_queue ?ep = []"
    by (simp_all add: ServerEndpoint_construct_def php_quic_server_endpoint_create_object_def)
  obtain c w where "ServerConnection_accept sample_system (\<lambda>i. of_nat i) sample_initial sample_server_config sample_world = (Inr c, w)"
    using sample_accept by blast
  then obtain hp1 where a: "server_endpoint_accept sample_system (\<lambda>i. of_nat i) sample_initial (ep_config ?ep) sample_php_heap = (Inr 0, hp1)"
    by (simp add: server_endpoint_accept_def e sample_php_heap_def)
  have f: "forwarding_accept sample_system (\<lambda>i. of_nat i) sample_initial (ep_config ?ep) sample_php_heap =
      (Inr (User_object 0), hp1)" by (simp add: forwarding_accept_def a)
  obtain r ep' hp' where r: "ServerEndpoint_recv True sample_system sample_script sample_initial ?ep sample_php_heap = (r, ep', hp')"
    by (rule prod_cases3)
  have "sample_script ''accept'' = Some (forwarding_accept sample_system (\<lambda>i. of_nat i))"
    by (simp add: sample_script_def forwarding_script_def)
  with recv_routes[OF wf k sample_accept_script, where fp = True and Y = sample_system] show ?thesis
    using k by (simp add: e(1) f r e(3))
qed

text \<open>The same call in a script without the function: it throws and nothing is accepted.\<close>

theorem endpoint_never_accepts_witness:
  "\<exists>e. ServerEndpoint_recv True sample_system Map.empty sample_initial
      (ServerEndpoint_construct 0 php_quic_server_endpoint_create_object) sample_php_heap =
      (Inl e, ServerEndpoint_construct 0 php_quic_server_endpoint_create_object, sample_php_heap)"
proof -
  have "endpoint_reach True no_accept (php_quic_server_endpoint_create_object, sample_php_heap) ([] @ [])
      (ServerEndpoint_construct 0 php_quic_server_endpoint_create_object, sample_php_heap)"
    by (rule er_step[OF er_start es_construct])
  moreover have "no_accept Map.empty" by (simp add: no_accept_def)
  ultimately show ?thesis by (rule endpoint_never_accepts[THEN conjunct2, THEN conjunct2, THEN conjunct2])
qed

theorem endpoint_timers_earliest_witness:
  "\<exists>t hp'. ServerEndpoint_getNextTimeout True sample_system sample_ep sample_hp = (Inr t, hp')"
  using endpoint_timers_earliest[OF sample_recv_wf] by blast

theorem endpoint_events_complete_witness:
  "\<exists>evs. fst (ServerEndpoint_drainEvents True sample_ep sample_hp) = Inr evs"
  using endpoint_events_complete[OF sample_recv_wf, of True] by (auto split: prod.splits)

theorem endpoint_drain_returns_witness:
  "\<exists>r. ServerEndpoint_drainOutgoingDatagrams True sample_system sample_ep sample_hp = Some r"
proof -
  have "writes_bounded (y_ngtcp2 sample_system) (\<lambda>n. 0)" using sample_writes_bounded by simp
  from endpoint_drain_returns[OF sample_recv_wf this] show ?thesis by blast
qed

subsection \<open>A peer that closes\<close>

text \<open>The sample system with a library that reports the draining period, and a table of one.\<close>

definition closing_system :: "(sample_conn, nat) system" where
  "closing_system = sample_system\<lparr>y_ngtcp2 := sample_ngtcp2\<lparr>ngtcp2_conn_in_draining_period := (\<lambda>n. True)\<rparr>\<rparr>"

definition closing_ep :: php_quic_server_endpoint where
  "closing_ep = \<lparr>ep_config = None, ep_accepted_queue = [], ep_connections = [(''192.0.2.1|443'', 0)]\<rparr>"

definition closing_hp :: "(sample_conn, nat) php_heap" where
  "closing_hp = sample_php_heap\<lparr>hp_connections := [0 \<mapsto> sample_connection], hp_next := 1\<rparr>"

definition closing_datagram :: php_quic_datagram where
  "closing_datagram =
     Datagram_construct php_quic_datagram_create_object ''close'' \<lparr>ad_host = ''192.0.2.1'', ad_port = 443\<rparr> None None None"

lemma closing_key: "address_key (Addr \<lparr>ad_host = ''192.0.2.1'', ad_port = 443\<rparr>) = Some ''192.0.2.1|443''"
  by code_simp

lemma closing_wf: "endpoint_wf closing_ep closing_hp"
  using sample_connection_wf closing_key
  by (simp add: endpoint_wf_def heap_ok_def objects_wf_def closing_ep_def closing_hp_def hash_keys_def
      sample_connection_def)

lemma closing_recv:
  "let c' = snd (Connection_recv (y_ngtcp2 closing_system) (y_getaddrinfo closing_system) closing_datagram sample_connection)
   in c_closed c' \<and> \<not> c_close_requested c'"
  by code_simp

theorem closing_recv_drops_events_witness:
  "case ServerEndpoint_recv True closing_system Map.empty closing_datagram closing_ep closing_hp of (res, ep', hp') \<Rightarrow>
    (0::nat) \<notin> set (endpoint_handles ep')"
proof -
  obtain r c' where r: "Connection_recv (y_ngtcp2 closing_system) (y_getaddrinfo closing_system) closing_datagram
      sample_connection = (r, c')" by fastforce
  have k: "php_quic_server_endpoint_connection_key closing_datagram = Some ''192.0.2.1|443''"
    using closing_key
    by (simp add: php_quic_server_endpoint_connection_key_def closing_datagram_def Datagram_construct_def)
  have h: "zend_hash_find (ep_connections closing_ep) ''192.0.2.1|443'' = Some 0"
    "hp_connections closing_hp 0 = Some sample_connection"
    by (simp_all add: closing_ep_def closing_hp_def zend_hash_find_def)
  have "\<not> c_closed sample_connection" "c_closed c'" "\<not> c_close_requested c'"
    using closing_recv by (simp_all add: r)
  from closing_recv_drops_events[OF closing_wf k h r this, where fp = True and globals = Map.empty] show ?thesis by auto
qed

end
