(* ===== verification/Quic_Transfer.thy ===== *)
theory Quic_Transfer
  imports Quic_Drain_Data Quic_Machine_Props "HOL-Library.Sublist"
begin

text \<open>
  Byte accounting. Both directions of every stream are followed through any sequence of method
  calls on a connection: what the application wrote against what the library accepted, and what
  the library delivered against what the application read. \<open>library_faithful\<close> says how the
  calls of the library change these three histories: \<open>acc n sid\<close> are the bytes accepted on a
  stream, \<open>dlv n sid\<close> the bytes delivered on it, and \<open>shut n sid\<close> says that its write side
  is shut, after which nothing more is accepted.
\<close>

subsection \<open>The library's side\<close>

definition native_step ::
  "('c \<Rightarrow> i64 \<Rightarrow> zstring) \<Rightarrow> ('c \<Rightarrow> i64 \<Rightarrow> bool) \<Rightarrow> ('c \<Rightarrow> i64 \<Rightarrow> zstring) \<Rightarrow>
   'c \<Rightarrow> 'c ngtcp2_callback list \<Rightarrow> 'c \<Rightarrow> bool" where
  "native_step acc shut dlv n cbs n1 \<longleftrightarrow>
     (\<forall>sid. dlv n1 sid = dlv n sid @ delivered sid cbs \<and>
       (shut n sid \<longrightarrow> shut n1 sid \<and> acc n1 sid = acc n sid))"

definition library_faithful ::
  "'c ngtcp2 \<Rightarrow> ('c \<Rightarrow> i64 \<Rightarrow> zstring) \<Rightarrow> ('c \<Rightarrow> i64 \<Rightarrow> bool) \<Rightarrow> ('c \<Rightarrow> i64 \<Rightarrow> zstring) \<Rightarrow> bool" where
  "library_faithful L acc shut dlv \<longleftrightarrow>
     writes_counted L acc shut \<and>
     (\<forall>n now. case ngtcp2_conn_handle_expiry L n now of
        (rv, cbs, n1) \<Rightarrow> native_step acc shut dlv n cbs n1 \<and> acc n1 = acc n) \<and>
     (\<forall>n path data now. case ngtcp2_conn_read_pkt L n path data now of
        (rv, cbs, n1) \<Rightarrow> native_step acc shut dlv n cbs n1 \<and> acc n1 = acc n) \<and>
     (\<forall>n. case ngtcp2_conn_open_bidi_stream L n of
        (rv, sid, n1) \<Rightarrow> native_step acc shut dlv n [] n1 \<and> acc n1 = acc n) \<and>
     (\<forall>n. case ngtcp2_conn_open_uni_stream L n of
        (rv, sid, n1) \<Rightarrow> native_step acc shut dlv n [] n1 \<and> acc n1 = acc n) \<and>
     (\<forall>n flags sid e. case ngtcp2_conn_shutdown_stream L n flags sid e of
        (rv, n1) \<Rightarrow> native_step acc shut dlv n [] n1 \<and> acc n1 = acc n) \<and>
     (\<forall>n buflen err now. case ngtcp2_conn_write_connection_close L n buflen err now of
        (nwrite, cbs, n1) \<Rightarrow> native_step acc shut dlv n cbs n1) \<and>
     (\<forall>n buflen flags sid datav now. case ngtcp2_conn_writev_stream L n buflen flags sid datav now of
        (nwrite, w, cbs, n1) \<Rightarrow> native_step acc shut dlv n cbs n1)"

lemma library_faithful_calls:
  assumes L: "library_faithful L acc shut dlv"
  shows faithful_counted: "writes_counted L acc shut"
    and faithful_expiry: "ngtcp2_conn_handle_expiry L n now = (rv, cbs, n1) \<Longrightarrow>
      native_step acc shut dlv n cbs n1 \<and> acc n1 = acc n"
    and faithful_read: "ngtcp2_conn_read_pkt L n path data now = (rv, cbs, n1) \<Longrightarrow>
      native_step acc shut dlv n cbs n1 \<and> acc n1 = acc n"
    and faithful_bidi: "ngtcp2_conn_open_bidi_stream L n = (rv, oid, n1) \<Longrightarrow>
      native_step acc shut dlv n [] n1 \<and> acc n1 = acc n"
    and faithful_uni: "ngtcp2_conn_open_uni_stream L n = (rv, oid, n1) \<Longrightarrow>
      native_step acc shut dlv n [] n1 \<and> acc n1 = acc n"
    and faithful_shutdown: "ngtcp2_conn_shutdown_stream L n flags sid e = (rv2, n1) \<Longrightarrow>
      native_step acc shut dlv n [] n1 \<and> acc n1 = acc n"
    and faithful_close: "ngtcp2_conn_write_connection_close L n buflen err now = (nwrite, cbs, n1) \<Longrightarrow>
      native_step acc shut dlv n cbs n1"
    and faithful_writev: "ngtcp2_conn_writev_stream L n buflen flags sid datav now = (nwrite, w, cbs, n1) \<Longrightarrow>
      native_step acc shut dlv n cbs n1"
  using L unfolding library_faithful_def by (blast, (fastforce split: prod.splits)+)

subsection \<open>What a call moves\<close>

definition ledger ::
  "('c \<Rightarrow> i64 \<Rightarrow> zstring) \<Rightarrow> ('c \<Rightarrow> i64 \<Rightarrow> bool) \<Rightarrow> ('c \<Rightarrow> i64 \<Rightarrow> zstring) \<Rightarrow>
   'c php_quic_connection \<Rightarrow> 'c php_quic_connection \<Rightarrow> bool" where
  "ledger acc shut dlv c c' \<longleftrightarrow>
     (\<exists>n n'. c_conn c = Some n \<and> c_conn c' = Some n' \<and>
       (\<forall>sid. (\<exists>more. dlv n' sid = dlv n sid @ more \<and> rx_bytes c' sid = rx_bytes c sid @ more) \<and>
         (shut n sid \<longrightarrow> shut n' sid \<and> acc n' sid = acc n sid)))"

lemma ledger_refl: "c_conn c = Some n \<Longrightarrow> ledger acc shut dlv c c"
  by (simp add: ledger_def)

lemma ledger_trans:
  assumes "ledger acc shut dlv a b" "ledger acc shut dlv b c"
  shows "ledger acc shut dlv a c"
proof -
  from assms obtain n1 n2 n3 where n: "c_conn a = Some n1" "c_conn b = Some n2" "c_conn c = Some n3"
    and ab: "\<And>sid. (\<exists>more. dlv n2 sid = dlv n1 sid @ more \<and> rx_bytes b sid = rx_bytes a sid @ more) \<and>
         (shut n1 sid \<longrightarrow> shut n2 sid \<and> acc n2 sid = acc n1 sid)"
    and bc: "\<And>sid. (\<exists>more. dlv n3 sid = dlv n2 sid @ more \<and> rx_bytes c sid = rx_bytes b sid @ more) \<and>
         (shut n2 sid \<longrightarrow> shut n3 sid \<and> acc n3 sid = acc n2 sid)"
    unfolding ledger_def by (metis option.inject)
  have "(\<exists>more. dlv n3 sid = dlv n1 sid @ more \<and> rx_bytes c sid = rx_bytes a sid @ more) \<and>
         (shut n1 sid \<longrightarrow> shut n3 sid \<and> acc n3 sid = acc n1 sid)" for sid
    using ab[of sid] bc[of sid] by (metis append_assoc)
  with n show ?thesis unfolding ledger_def by blast
qed

text \<open>Bookkeeping that touches neither the library's state nor the receive buffers.\<close>

lemma ledger_quiet:
  "ledger acc shut dlv c d \<Longrightarrow> c_conn d' = c_conn d \<Longrightarrow> rx_bytes d' = rx_bytes d \<Longrightarrow> ledger acc shut dlv c d'"
  by (simp add: ledger_def)

lemma ledger_call:
  assumes "native_step acc shut dlv n cbs n1" "c_conn c = Some n"
  shows "ledger acc shut dlv c (run_callbacks L cbs (c\<lparr>c_reads := i, c_conn := Some n1\<rparr>))"
proof -
  have "c_conn (run_callbacks L cbs (c\<lparr>c_reads := i, c_conn := Some n1\<rparr>)) = Some n1" by simp
  moreover have "rx_bytes (run_callbacks L cbs (c\<lparr>c_reads := i, c_conn := Some n1\<rparr>)) sid =
      rx_bytes c sid @ delivered sid cbs" for sid
    by (simp add: run_callbacks_rx) (simp add: rx_bytes_def)
  ultimately show ?thesis using assms unfolding ledger_def native_step_def by blast
qed

lemma rx_bytes_frame [simp]:
  "rx_bytes (php_quic_connection_sync_state L c) = rx_bytes c"
  "rx_bytes (c\<lparr>c_conn := h\<rparr>) = rx_bytes c"
  "rx_bytes (c\<lparr>c_reads := i\<rparr>) = rx_bytes c"
  "rx_bytes (c\<lparr>c_last_error := e\<rparr>) = rx_bytes c"
  "rx_bytes (c\<lparr>c_close_packet_sent := b\<rparr>) = rx_bytes c"
  by (simp_all add: rx_bytes_def fun_eq_iff)

lemma rx_bytes_put_same:
  "zend_hash_find (c_streams c) k = Some entry \<Longrightarrow> se_rx_buffer e = se_rx_buffer entry \<Longrightarrow>
    rx_bytes (put_stream_entry c k e) = rx_bytes c"
  by (auto simp: fun_eq_iff) (simp add: rx_bytes_def)

lemma rx_bytes_tx_entry [simp]:
  "rx_bytes (php_quic_connection_update_tx_entry c r w fa pe) = rx_bytes c"
  "rx_bytes (php_quic_connection_discard_tx_entry c r) = rx_bytes c"
  by (auto simp: php_quic_connection_update_tx_entry_def php_quic_connection_discard_tx_entry_def
      Let_def tx_entry_discard_def rx_bytes_put_same split: option.split)

subsection \<open>The drain loop\<close>

lemma drain_write_ledger:
  assumes L: "library_faithful L acc shut dlv" and n: "c_conn (ds_c s) = Some n"
  shows "ledger acc shut dlv (ds_c s) (ds_c (step_state (drain_write L n pick s)))"
proof -
  let ?c = "ds_c s"
  obtain nwrite w cbs n1 where wr: "ngtcp2_conn_writev_stream L n 1452 (tx_flags L (tp_fin pick))
      (tp_stream_id pick) (tp_datav pick) (c_hrtime ?c (c_reads ?c)) = (nwrite, w, cbs, n1)"
    by (metis prod_cases4)
  define c2 where "c2 = run_callbacks L cbs (?c\<lparr>c_reads := Suc (c_reads ?c), c_conn := Some n1\<rparr>)"
  have c2: "ledger acc shut dlv ?c c2"
    unfolding c2_def by (rule ledger_call[OF faithful_writev[OF L wr] n])
  show ?thesis
    unfolding drain_write_def Let_def
    using wr by (auto simp: c2_def[symmetric] simp del: php_quic_connection_is_nonfatal_closing_error.simps
        intro!: ledger_quiet[OF c2] split: sum.split)
qed

lemma drain_open_pending_ledger:
  assumes L: "library_faithful L acc shut dlv" and n: "c_conn c = Some n"
    and o: "drain_open_pending L pick c = (r, c2)"
  shows "ledger acc shut dlv c c2"
proof (cases "\<exists>k entry. tp_entry pick = Some k \<and> zend_hash_find (c_streams c) k = Some entry \<and> se_pending_open entry")
  case True
  then obtain k entry where k: "tp_entry pick = Some k"
    "zend_hash_find (c_streams c) k = Some entry" "se_pending_open entry" by blast
  obtain rv oid n1 where op: "php_quic_connection_open_pending_stream L n (se_stream_id entry) = (rv, oid, n1)"
    by (metis prod_cases3)
  then have "native_step acc shut dlv n [] n1"
    using faithful_bidi[OF L] faithful_uni[OF L]
    by (auto simp: php_quic_connection_open_pending_stream_def split: if_splits)
  from ledger_call[OF this n, of L "c_reads c"] have l: "ledger acc shut dlv c (c\<lparr>c_conn := Some n1\<rparr>)" by simp
  have "rx_bytes (put_stream_entry (c\<lparr>c_conn := Some n1\<rparr>) k (entry\<lparr>se_pending_open := False\<rparr>)) = rx_bytes c"
    using k(2) rx_bytes_put_same[of "c\<lparr>c_conn := Some n1\<rparr>" k entry "entry\<lparr>se_pending_open := False\<rparr>"] by simp
  with ledger_quiet[OF l] o k n op l show ?thesis
    by (auto simp: drain_open_pending_def Let_def split: option.splits if_splits)
next
  case False
  with o n have "c2 = c" by (auto simp: drain_open_pending_def split: option.splits if_splits)
  with n show ?thesis by (simp add: ledger_refl)
qed

lemma pick_tx_stream_rx:
  assumes "conn_wf c" "php_quic_connection_pick_tx_stream c = (pick, c1)"
  shows "rx_bytes c1 = rx_bytes c \<and> c_conn c1 = c_conn c"
proof (cases "tp_entry pick")
  case None
  with pick_tx_stream_None[OF assms(2)] show ?thesis by simp
next
  case (Some k)
  from pick_tx_stream_Some[OF assms Some] obtain entry where
    "zend_hash_find (c_streams c) k = Some entry" "c1 = put_stream_entry c k entry" by blast
  then show ?thesis by (simp add: rx_bytes_put_same)
qed

lemma drain_step_ledger:
  assumes L: "library_faithful L acc shut dlv" and c: "conn_wf (ds_c s)" and n: "c_conn (ds_c s) = Some n"
  shows "ledger acc shut dlv (ds_c s) (ds_c (step_state (drain_step L s)))"
proof -
  obtain pick c1 where p: "(if ds_force s then (no_tx_pick, ds_c s)
    else php_quic_connection_pick_tx_stream (ds_c s)) = (pick, c1)" by fastforce
  have c1: "rx_bytes c1 = rx_bytes (ds_c s)" "c_conn c1 = Some n"
    using p n pick_tx_stream_rx[OF c] by (auto split: if_splits)
  obtain r c2 where o: "drain_open_pending L pick c1 = (r, c2)" by fastforce
  have "ledger acc shut dlv (ds_c s) c1" using ledger_quiet[OF ledger_refl[OF n]] c1 n by simp
  then have l2: "ledger acc shut dlv (ds_c s) c2"
    using drain_open_pending_ledger[OF L c1(2) o] by (rule ledger_trans)
  have "ledger acc shut dlv (ds_c s)
      (ds_c (step_state (drain_write L m pick2 (s\<lparr>ds_force := False, ds_c := c2\<rparr>))))"
    if "c_conn c2 = Some m" for m pick2
    using ledger_trans[OF l2 drain_write_ledger[OF L, of "s\<lparr>ds_force := False, ds_c := c2\<rparr>" m pick2, simplified]] that
    by simp
  with l2 show ?thesis
    unfolding drain_step_unfold[OF p o] by (cases r; cases "c_conn c2") auto
qed

subsection \<open>The methods\<close>

definition transfer_step ::
  "('c \<Rightarrow> i64 \<Rightarrow> zstring) \<Rightarrow> ('c \<Rightarrow> i64 \<Rightarrow> bool) \<Rightarrow> ('c \<Rightarrow> i64 \<Rightarrow> zstring) \<Rightarrow>
   'c php_quic_connection \<Rightarrow> 'c php_quic_connection \<Rightarrow> bool" where
  "transfer_step acc shut dlv c c' \<longleftrightarrow> ledger acc shut dlv c c' \<and> tx_ok acc shut c c'"

lemma transfer_step_trans:
  "transfer_step acc shut dlv a b \<Longrightarrow> transfer_step acc shut dlv b c \<Longrightarrow> transfer_step acc shut dlv a c"
  unfolding transfer_step_def tx_ok_def by (blast intro: ledger_trans tx_step_trans)

lemma transfer_refl: "c_conn c = Some n \<Longrightarrow> tx_fits c \<Longrightarrow> transfer_step acc shut dlv c c"
  by (simp add: transfer_step_def ledger_refl tx_ok_def tx_step_refl)

lemma transfer_quiet:
  assumes "transfer_step acc shut dlv c d" "c_conn d' = c_conn d" "rx_bytes d' = rx_bytes d" "tx_view d' = tx_view d"
  shows "transfer_step acc shut dlv c d'"
proof -
  have "ledger acc shut dlv c d" "tx_ok acc shut c d" using assms(1) by (simp_all add: transfer_step_def)
  moreover from this(2) have "tx_ok acc shut c d'"
    using assms(2,4) by (simp add: tx_ok_def tx_step_def tx_fits_def stream_unsent_view)
  ultimately show ?thesis unfolding transfer_step_def using assms(2,3) by (blast intro: ledger_quiet)
qed

text \<open>One call of the library that accepts no data.\<close>

lemma transfer_call:
  assumes "native_step acc shut dlv n cbs n1 \<and> acc n1 = acc n" and n: "c_conn c = Some n" and "tx_fits c"
  shows "transfer_step acc shut dlv c (run_callbacks L cbs (c\<lparr>c_reads := i, c_conn := Some n1\<rparr>))"
proof -
  let ?d = "run_callbacks L cbs (c\<lparr>c_reads := i, c_conn := Some n1\<rparr>)"
  have v: "tx_view ?d = tx_view c" by simp
  have "tx_step acc shut c ?d"
    by (rule tx_step_exact[OF n, of _ n1]) (use assms(1) in \<open>auto simp: native_step_def\<close>)
  moreover have "tx_fits ?d" using assms(3) v by (simp add: tx_fits_def)
  ultimately show ?thesis using ledger_call[OF conjunct1[OF assms(1)] n]
    by (simp add: transfer_step_def tx_ok_def)
qed

lemma transfer_conn:
  "native_step acc shut dlv n [] n1 \<and> acc n1 = acc n \<Longrightarrow> c_conn c = Some n \<Longrightarrow> tx_fits c \<Longrightarrow>
    transfer_step acc shut dlv c (c\<lparr>c_conn := Some n1\<rparr>)"
  using transfer_call[of acc shut dlv n "[]" n1 c undefined "c_reads c"] by simp

lemma transfer_frame [simp]:
  "transfer_step acc shut dlv c d \<Longrightarrow> transfer_step acc shut dlv c (php_quic_connection_sync_state L d)"
  "transfer_step acc shut dlv c d \<Longrightarrow> transfer_step acc shut dlv c (d\<lparr>c_last_error := e\<rparr>)"
  "transfer_step acc shut dlv c d \<Longrightarrow> transfer_step acc shut dlv c (d\<lparr>c_close_packet_sent := b\<rparr>)"
  by (rule transfer_quiet, assumption, simp_all)+

lemma handle_timers_transfer:
  assumes L: "library_faithful L acc shut dlv" and c: "c_conn c = Some n" "tx_fits c"
  shows "transfer_step acc shut dlv c (snd (php_quic_connection_handle_timers L c))"
  using transfer_call[OF faithful_expiry[OF L] c] transfer_refl[OF c] c(1)
  by (auto simp: php_quic_connection_handle_timers_def Let_def split: option.split prod.split)

lemma recv_transfer:
  assumes L: "library_faithful L acc shut dlv" and c: "c_conn c = Some n" "tx_fits c"
  shows "transfer_step acc shut dlv c (snd (Connection_recv L gai datagram c))"
  using transfer_call[OF faithful_read[OF L] c] transfer_refl[OF c] c(1)
  by (auto simp: Connection_recv_def Let_def split: option.split prod.split)

lemma get_next_timeout_transfer:
  assumes c: "c_conn c = Some n" "tx_fits c"
  shows "transfer_step acc shut dlv c (snd (php_quic_connection_get_next_timeout_ms L c))"
  by (rule transfer_quiet[OF transfer_refl[OF c]])
     (auto simp: php_quic_connection_get_next_timeout_ms_def php_quic_connection_get_next_expiry_def
        Let_def split: option.split)

lemma getNextExpiry_transfer:
  assumes c: "c_conn c = Some n" "tx_fits c"
  shows "transfer_step acc shut dlv c (snd (Connection_getNextExpiry L tv c))"
  using get_next_timeout_transfer[OF c, of acc shut dlv L]
  by (auto simp: Connection_getNextExpiry_def Let_def split: option.split prod.split)

lemma drainEvents_transfer:
  assumes c: "c_conn c = Some n" "tx_fits c"
  shows "transfer_step acc shut dlv c (snd (Connection_drainEvents c))"
  by (rule transfer_quiet[OF transfer_refl[OF c]])
     (auto simp: Connection_drainEvents_def rx_bytes_def tx_view_def fun_eq_iff split: prod.split)

lemma close_transfer:
  assumes c: "c_conn c = Some n" "tx_fits c"
  shows "transfer_step acc shut dlv c (Connection_close L code reason c)"
  by (rule transfer_quiet[OF transfer_refl[OF c]])
     (auto simp: Connection_close_def Let_def rx_bytes_def tx_view_def fun_eq_iff split: option.split)

lemma open_local_stream_transfer:
  assumes op: "\<And>rv oid n1. open_fn n = (rv, oid, n1) \<Longrightarrow> native_step acc shut dlv n [] n1 \<and> acc n1 = acc n"
    and c: "c_conn c = Some n" "tx_fits c"
  shows "transfer_step acc shut dlv c (snd (open_local_stream L bidi context open_fn this c))"
proof -
  obtain rv oid n1 where o: "open_fn n = (rv, oid, n1)" by (metis prod_cases3)
  note t = transfer_conn[OF op[OF o] c]
  have opened: "transfer_step acc shut dlv c (php_quic_connection_push_event (php_quic_connection_push_event
      (put_stream_entry c4 sid (entry\<lparr>se_pending_open := b, se_writable := True\<rparr>)) t1 s1 e1 p1 r1) t2 s2 e2 p2 r2)"
    if "php_quic_connection_open_stream_entry c3 sid = (entry, c4)" "c_conn c3 = Some n1"
      "c_streams c3 = c_streams c" for c3 c4 sid entry b t1 s1 e1 p1 r1 t2 s2 e2 p2 r2
  proof (rule transfer_quiet[OF t])
    have q: "rx_bytes c3 = rx_bytes c" "tx_view c3 = tx_view c"
      using that(3) by (simp_all add: rx_bytes_def tx_view_def fun_eq_iff)
    have "c_conn c4 = c_conn c3" using open_stream_entry_frame[of c3 sid] that(1) by simp
    then show "c_conn (php_quic_connection_push_event (php_quic_connection_push_event
      (put_stream_entry c4 sid (entry\<lparr>se_pending_open := b, se_writable := True\<rparr>)) t1 s1 e1 p1 r1) t2 s2 e2 p2 r2)
      = c_conn (c\<lparr>c_conn := Some n1\<rparr>)" using that(2) by simp
    show "rx_bytes (php_quic_connection_push_event (php_quic_connection_push_event
      (put_stream_entry c4 sid (entry\<lparr>se_pending_open := b, se_writable := True\<rparr>)) t1 s1 e1 p1 r1) t2 s2 e2 p2 r2)
      = rx_bytes (c\<lparr>c_conn := Some n1\<rparr>)"
      using open_stream_entry_rx[OF that(1)] open_stream_entry_rx_same[OF that(1)] q(1) by (simp add: fun_eq_iff)
    show "tx_view (php_quic_connection_push_event (php_quic_connection_push_event
      (put_stream_entry c4 sid (entry\<lparr>se_pending_open := b, se_writable := True\<rparr>)) t1 s1 e1 p1 r1) t2 s2 e2 p2 r2)
      = tx_view (c\<lparr>c_conn := Some n1\<rparr>)"
      using put_opened_view[OF that(1), of "entry\<lparr>se_pending_open := b, se_writable := True\<rparr>"] q(2) by simp
  qed
  have ensure: "c_conn (php_quic_connection_ensure_next_stream_id L d bidi) = c_conn d"
    "c_streams (php_quic_connection_ensure_next_stream_id L d bidi) = c_streams d" for d
    by (simp_all add: php_quic_connection_ensure_next_stream_id_def Let_def)
  show ?thesis
    using t transfer_refl[OF c] c(1) o opened ensure
    by (auto simp: open_local_stream_def Let_def split: prod.split)
qed

lemma Stream_reset_transfer:
  assumes L: "library_faithful L acc shut dlv" and c: "c_conn c = Some n" "tx_fits c"
    and r: "Stream_reset L (php_quic_stream_create h sid) code [h \<mapsto> c] = (u, objs)" "objs h = Some c'"
  shows "transfer_step acc shut dlv c c'"
proof (cases "zend_hash_find (c_streams c) sid")
  case None
  with r transfer_refl[OF c] show ?thesis by (auto simp: Stream_reset_def resolve_single)
next
  case (Some entry)
  define e where "e = entry\<lparr>se_reset := True, se_closed := True, se_readable := False,
    se_writable := False, se_fin_pending := False, se_pending_open := False\<rparr>"
  have put: "transfer_step acc shut dlv c (php_quic_connection_push_event (put_stream_entry c1 sid e)
      PHP_QUIC_EVENT_STREAM_RESET sid code False None)"
    if "transfer_step acc shut dlv c c1" "c_streams c1 = c_streams c" for c1
  proof (rule transfer_quiet[OF that(1)])
    show "rx_bytes (php_quic_connection_push_event (put_stream_entry c1 sid e)
      PHP_QUIC_EVENT_STREAM_RESET sid code False None) = rx_bytes c1"
      using rx_bytes_put_same[of c1 sid entry e] Some that(2) by (simp add: e_def)
    show "tx_view (php_quic_connection_push_event (put_stream_entry c1 sid e)
      PHP_QUIC_EVENT_STREAM_RESET sid code False None) = tx_view c1"
      using tx_view_put_same[of c1 sid entry e] Some that(2) by (simp add: e_def unsent_def)
  qed simp
  obtain rv n1 where sh: "ngtcp2_conn_shutdown_stream L n 0 sid code = (rv, n1)" by fastforce
  have t1: "transfer_step acc shut dlv c (c\<lparr>c_conn := Some n1\<rparr>)"
    by (rule transfer_conn[OF faithful_shutdown[OF L sh] c])
  from put[OF t1] put[OF transfer_refl[OF c]] t1 r Some sh c(1) show ?thesis
    by (auto simp: Stream_reset_def resolve_single stream_id_create Let_def e_def[symmetric]
        split: option.splits if_splits)
qed

lemma drain_transfer:
  assumes L: "writes_bounded L space" "library_faithful L acc shut dlv"
    and c: "conn_wf c" "c_conn c = Some n" "tx_fits c"
    and d: "Connection_drainOutgoingDatagrams L c = Some (r, c')"
  shows "transfer_step acc shut dlv c c'"
proof (cases "c_close_requested c \<and> \<not> c_close_packet_sent c")
  case True
  obtain nwrite cbs n1 where w: "ngtcp2_conn_write_connection_close L n 1452 (c_last_error c)
      (c_hrtime c (c_reads c)) = (nwrite, cbs, n1)" by (metis prod_cases3)
  have "acc n1 = acc n"
    using faithful_counted[OF L(2)] w unfolding writes_counted_def by (fastforce split: prod.splits)
  with faithful_close[OF L(2) w] have "native_step acc shut dlv n cbs n1 \<and> acc n1 = acc n" by simp
  from transfer_call[OF this c(2,3)] True d c(2) w show ?thesis
    by (auto simp: Connection_drainOutgoingDatagrams_def drain_close_packet_def Let_def split: sum.splits if_splits)
next
  case False
  let ?s = "\<lparr>ds_c = c, ds_out = [], ds_emitted = 0, ds_force = False\<rparr>"
  have step: "transfer_step acc shut dlv c (ds_c (step_state (drain_step L s)))"
    if t: "transfer_step acc shut dlv c (ds_c s)" and wf: "conn_wf (ds_c s)" for s :: "'a drain_state"
  proof -
    obtain m where m: "c_conn (ds_c s) = Some m" "tx_fits (ds_c s)"
      using t by (auto simp: transfer_step_def ledger_def tx_ok_def)
    have "transfer_step acc shut dlv (ds_c s) (ds_c (step_state (drain_step L s)))"
      using drain_step_ledger[OF L(2) wf m(1)] drain_step_data[OF faithful_counted[OF L(2)] wf m(2,1)]
      by (simp add: transfer_step_def)
    with t show ?thesis by (rule transfer_step_trans)
  qed
  have "\<exists>x s'. drain_loop L ?s = Some (x, s') \<and> conn_wf (ds_c s') \<and>
      conn_progress (ds_c ?s) (ds_c s') \<and> transfer_step acc shut dlv c (ds_c s')"
  proof (rule drain_loop_invariant[OF L(1), where P = "\<lambda>s. transfer_step acc shut dlv c (ds_c s)"])
    show "transfer_step acc shut dlv c (ds_c ?s)" using transfer_refl[OF c(2,3)] by simp
    show "transfer_step acc shut dlv c (ds_c s')"
      if "transfer_step acc shut dlv c (ds_c s)" "conn_wf (ds_c s)" "drain_step L s = Inl s'"
      for s s' :: "'a drain_state" using step[OF that(1,2)] that(3) by simp
    show "transfer_step acc shut dlv c (ds_c s')"
      if "transfer_step acc shut dlv c (ds_c s)" "conn_wf (ds_c s)" "drain_step L s = Inr (x, s')"
      for s x s' using step[OF that(1,2)] that(3) by simp
  qed (use c(1) in simp_all)
  then obtain x s' where l: "drain_loop L ?s = Some (x, s')" "transfer_step acc shut dlv c (ds_c s')" by blast
  have "(case x of Inl e \<Rightarrow> (Inl e, ds_c s')
      | Inr u \<Rightarrow> (Inr (ds_out s'), php_quic_connection_sync_state L (ds_c s'))) = (r, c')"
    using d unfolding Connection_drainOutgoingDatagrams_def c(2) option.case if_not_P[OF False] l(1)
    by (auto split: sum.splits)
  with l(2) show ?thesis by (cases x) auto
qed

subsection \<open>Any sequence of calls\<close>

text \<open>A call of a method that carries no stream data of the application.\<close>

inductive conn_call ::
  "'c ngtcp2 \<Rightarrow> getaddrinfo \<Rightarrow> 'c php_quic_connection \<Rightarrow> 'c php_quic_connection \<Rightarrow> bool" for L gai c where
  cc_recv: "conn_call L gai c (snd (Connection_recv L gai datagram c))"
| cc_timers: "conn_call L gai c (snd (php_quic_connection_handle_timers L c))"
| cc_timeout: "conn_call L gai c (snd (Connection_getNextTimeout L c))"
| cc_expiry: "conn_call L gai c (snd (Connection_getNextExpiry L tv c))"
| cc_events: "conn_call L gai c (snd (Connection_drainEvents c))"
| cc_datagrams: "Connection_drainOutgoingDatagrams L c = Some (r, c') \<Longrightarrow> conn_call L gai c c'"
| cc_open: "conn_call L gai c (snd (Connection_openStream L h c))"
| cc_open_uni: "conn_call L gai c (snd (Connection_openUniStream L h c))"
| cc_close: "conn_call L gai c (Connection_close L code reason c)"
| cc_reset: "Stream_reset L (php_quic_stream_create h sid) code [h \<mapsto> c] = (u, objs) \<Longrightarrow>
    objs h = Some c' \<Longrightarrow> conn_call L gai c c'"

text \<open>
  \<open>transfer_run L gai c0 W R c\<close>: a sequence of calls leads from \<open>c0\<close> to \<open>c\<close>, in which
  the application wrote the bytes \<open>W sid\<close> (by successful calls of \<^verbatim>\<open>write\<close> and
  \<^verbatim>\<open>end\<close>) and read the bytes \<open>R sid\<close>. A write that would make a buffer outgrow the
  address space is not a step.
\<close>

inductive transfer_run ::
  "'c ngtcp2 \<Rightarrow> getaddrinfo \<Rightarrow> 'c php_quic_connection \<Rightarrow> (i64 \<Rightarrow> zstring) \<Rightarrow> (i64 \<Rightarrow> zstring) \<Rightarrow>
   'c php_quic_connection \<Rightarrow> bool" for L gai c0 where
  tr_start: "transfer_run L gai c0 (\<lambda>_. '''') (\<lambda>_. '''') c0"
| tr_call: "transfer_run L gai c0 W R c \<Longrightarrow> conn_call L gai c c' \<Longrightarrow> transfer_run L gai c0 W R c'"
| tr_write: "transfer_run L gai c0 W R c \<Longrightarrow>
    Stream_write L (php_quic_stream_create h sid) data [h \<mapsto> c] = (r, objs) \<Longrightarrow> objs h = Some c' \<Longrightarrow>
    tx_fits c' \<Longrightarrow> transfer_run L gai c0 (W(sid := W sid @ (if is_ok r then data else ''''))) R c'"
| tr_end: "transfer_run L gai c0 W R c \<Longrightarrow>
    Stream_end L (php_quic_stream_create h sid) final_data [h \<mapsto> c] = (u, objs) \<Longrightarrow> objs h = Some c' \<Longrightarrow>
    tx_fits c' \<Longrightarrow>
    transfer_run L gai c0 (W(sid := W sid @ (if is_ok u then buffer_bytes final_data else ''''))) R c'"
| tr_read: "transfer_run L gai c0 W R c \<Longrightarrow>
    Stream_read (php_quic_stream_create h sid) len [h \<mapsto> c] = (chunk, objs) \<Longrightarrow> objs h = Some c' \<Longrightarrow>
    transfer_run L gai c0 W (R(sid := R sid @ (case chunk of Inl _ \<Rightarrow> '''' | Inr bytes \<Rightarrow> bytes))) c'"

lemma conn_call_step: "conn_call L gai c c' \<Longrightarrow> \<exists>events. conn_step L gai c events c'"
  by (induction rule: conn_call.induct) (metis surjective_pairing conn_step.intros)+

lemma conn_call_transfer:
  assumes L: "writes_bounded L space" "library_faithful L acc shut dlv"
    and c: "conn_wf c" "c_conn c = Some n" "tx_fits c" and call: "conn_call L gai c c'"
  shows "transfer_step acc shut dlv c c'"
  using call
proof (cases rule: conn_call.cases)
  case (cc_open h)
  then show ?thesis
    using open_local_stream_transfer[OF faithful_bidi[OF L(2)] c(2,3)] by (simp add: Connection_openStream_def)
next
  case (cc_open_uni h)
  then show ?thesis
    using open_local_stream_transfer[OF faithful_uni[OF L(2)] c(2,3)] by (simp add: Connection_openUniStream_def)
next
  case (cc_timeout)
  then show ?thesis using get_next_timeout_transfer[OF c(2,3)] by (simp add: Connection_getNextTimeout_def)
next
  case (cc_datagrams r)
  then show ?thesis using drain_transfer[OF L c] by blast
next
  case (cc_reset h sid code u objs)
  then show ?thesis using Stream_reset_transfer[OF L(2) c(2,3)] by blast
qed (simp_all add: recv_transfer[OF L(2) c(2,3)] handle_timers_transfer[OF L(2) c(2,3)]
      getNextExpiry_transfer[OF c(2,3)] drainEvents_transfer[OF c(2,3)] close_transfer[OF c(2,3)])

subsection \<open>The histories\<close>

definition transfer_inv ::
  "('c \<Rightarrow> i64 \<Rightarrow> zstring) \<Rightarrow> ('c \<Rightarrow> i64 \<Rightarrow> bool) \<Rightarrow> ('c \<Rightarrow> i64 \<Rightarrow> zstring) \<Rightarrow>
   (i64 \<Rightarrow> zstring) \<Rightarrow> (i64 \<Rightarrow> zstring) \<Rightarrow> 'c php_quic_connection \<Rightarrow> bool" where
  "transfer_inv acc shut dlv W R c \<longleftrightarrow> conn_wf c \<and> tx_fits c \<and>
     (\<exists>n. c_conn c = Some n \<and>
       (\<forall>sid. R sid @ rx_bytes c sid = dlv n sid \<and> prefix (acc n sid) (W sid) \<and>
         (\<not> shut n sid \<longrightarrow> acc n sid @ stream_unsent c sid = W sid)))"

lemma transfer_inv_step:
  assumes inv: "transfer_inv acc shut dlv W R c" and t: "transfer_step acc shut dlv c c'" and wf: "conn_wf c'"
  shows "transfer_inv acc shut dlv W R c'"
proof -
  from inv obtain n where n: "c_conn c = Some n" and
    i: "\<And>sid. R sid @ rx_bytes c sid = dlv n sid \<and> prefix (acc n sid) (W sid) \<and>
         (\<not> shut n sid \<longrightarrow> acc n sid @ stream_unsent c sid = W sid)"
    unfolding transfer_inv_def by blast
  from t n obtain n' where n': "c_conn c' = Some n'" "tx_fits c'" and
    l: "\<And>sid. (\<exists>more. dlv n' sid = dlv n sid @ more \<and> rx_bytes c' sid = rx_bytes c sid @ more) \<and>
         (shut n sid \<longrightarrow> shut n' sid \<and> acc n' sid = acc n sid)" and
    s: "\<And>sid. (\<exists>d. acc n' sid @ stream_unsent c' sid @ d = acc n sid @ stream_unsent c sid \<and>
         (\<not> shut n' sid \<longrightarrow> d = ''''))"
    unfolding transfer_step_def ledger_def tx_ok_def tx_step_def by auto
  have "R sid @ rx_bytes c' sid = dlv n' sid \<and> prefix (acc n' sid) (W sid) \<and>
         (\<not> shut n' sid \<longrightarrow> acc n' sid @ stream_unsent c' sid = W sid)" for sid
  proof (intro conjI)
    show "R sid @ rx_bytes c' sid = dlv n' sid" using i[of sid] l[of sid] by (metis append_assoc)
    show "prefix (acc n' sid) (W sid)"
    proof (cases "shut n sid")
      case True
      with i[of sid] l[of sid] show ?thesis by simp
    next
      case False
      then have "W sid = acc n sid @ stream_unsent c sid" using i[of sid] by simp
      with s[of sid] show ?thesis by (metis prefixI)
    qed
    show "\<not> shut n' sid \<longrightarrow> acc n' sid @ stream_unsent c' sid = W sid"
      using i[of sid] l[of sid] s[of sid] by (metis append_Nil2)
  qed
  with wf n' show ?thesis unfolding transfer_inv_def by blast
qed

text \<open>The application appends to what it wrote, and takes from what it can read.\<close>

lemma transfer_inv_append:
  assumes inv: "transfer_inv acc shut dlv W R c" and e: "zend_hash_find (c_streams c) sid = Some entry"
    and e': "se_rx_buffer e = se_rx_buffer entry" "unsent e = unsent entry @ data"
    and c': "conn_wf (put_stream_entry c sid e)" "tx_fits (put_stream_entry c sid e)"
  shows "transfer_inv acc shut dlv (W(sid := W sid @ data)) R (put_stream_entry c sid e)"
proof -
  have "stream_unsent (put_stream_entry c sid e) j = stream_unsent c j @ (if j = sid then data else '''')" for j
    using e e'(2) by (simp add: stream_unsent_def put_entry_find)
  moreover have "rx_bytes (put_stream_entry c sid e) = rx_bytes c" using rx_bytes_put_same[OF e e'(1)] .
  moreover have "c_conn (put_stream_entry c sid e) = c_conn c" by simp
  ultimately show ?thesis using inv c' unfolding transfer_inv_def by (auto intro: prefix_prefix)
qed

lemma transfer_inv_take:
  assumes inv: "transfer_inv acc shut dlv W R c" and e: "zend_hash_find (c_streams c) sid = Some entry"
    and e': "buffer_bytes (se_rx_buffer entry) = chunk @ buffer_bytes (se_rx_buffer e)"
      "se_tx_buffer e = se_tx_buffer entry" "se_tx_offset e = se_tx_offset entry"
    and c': "conn_wf (put_stream_entry c sid e)"
  shows "transfer_inv acc shut dlv W (R(sid := R sid @ chunk)) (put_stream_entry c sid e)"
proof -
  have v: "tx_view (put_stream_entry c sid e) = tx_view c"
    by (rule tx_view_put_same[OF e]) (simp_all add: unsent_def e')
  then have "tx_fits (put_stream_entry c sid e) = tx_fits c"
    "stream_unsent (put_stream_entry c sid e) = stream_unsent c"
    by (simp_all add: tx_fits_def stream_unsent_view fun_eq_iff)
  moreover have "(R(sid := R sid @ chunk)) j @ rx_bytes (put_stream_entry c sid e) j = R j @ rx_bytes c j" for j
    using e e'(1) by (simp add: rx_bytes_def put_entry_find)
  moreover have "c_conn (put_stream_entry c sid e) = c_conn c" by simp
  ultimately show ?thesis using inv c' unfolding transfer_inv_def by (simp del: fun_upd_apply)
qed

lemma write_transfer:
  assumes inv: "transfer_inv acc shut dlv W R c"
    and w: "Stream_write L (php_quic_stream_create h sid) data [h \<mapsto> c] = (r, objs)" "objs h = Some c'" "tx_fits c'"
  shows "transfer_inv acc shut dlv (W(sid := W sid @ (if is_ok r then data else ''''))) R c'"
proof (cases "is_ok r")
  case False
  with w have "c' = c" by (auto simp: Stream_write_def resolve_single Let_def split: option.splits if_splits)
  with inv False show ?thesis by simp
next
  case True
  have wf: "conn_wf c" using inv by (simp add: transfer_inv_def)
  from True w obtain entry where e: "zend_hash_find (c_streams c) sid = Some entry"
    by (auto simp: Stream_write_def resolve_single split: option.splits)
  let ?e = "entry\<lparr>se_tx_buffer := php_quic_buffer_append (se_tx_buffer entry) data (length data), se_writable := False\<rparr>"
  have c': "c' = put_stream_entry c sid ?e"
    using True w e by (auto simp: Stream_write_def resolve_single stream_id_create Let_def split: if_splits)
  have "conn_wf c'" using Stream_write_good[OF wf w(1,2)] by (simp add: good_step_def)
  with transfer_inv_append[OF inv e, of ?e data] unsent_append[where entry = entry and data = data and w = False] conn_wf_find[OF wf e] w(3) True
  show ?thesis by (simp add: c')
qed

lemma end_transfer:
  assumes inv: "transfer_inv acc shut dlv W R c"
    and w: "Stream_end L (php_quic_stream_create h sid) final_data [h \<mapsto> c] = (u, objs)" "objs h = Some c'" "tx_fits c'"
  shows "transfer_inv acc shut dlv (W(sid := W sid @ (if is_ok u then buffer_bytes final_data else ''''))) R c'"
proof (cases "is_ok u")
  case False
  with w have "c' = c" by (auto simp: Stream_end_def resolve_single Let_def split: option.splits if_splits)
  with inv False show ?thesis by simp
next
  case True
  have wf: "conn_wf c" using inv by (simp add: transfer_inv_def)
  from True w obtain entry where e: "zend_hash_find (c_streams c) sid = Some entry"
    by (auto simp: Stream_end_def resolve_single split: option.splits)
  let ?b = "case final_data of None \<Rightarrow> se_tx_buffer entry
    | Some d \<Rightarrow> php_quic_buffer_append (se_tx_buffer entry) d (length d)"
  let ?e = "entry\<lparr>se_tx_buffer := ?b, se_fin_pending := True, se_writable := False\<rparr>"
  have c': "c' = put_stream_entry c sid ?e"
    using True w e by (auto simp: Stream_end_def resolve_single stream_id_create Let_def split: if_splits option.splits)
  have u: "unsent ?e = unsent entry @ buffer_bytes final_data"
    using unsent_append[where entry = entry and data = "the final_data" and w = "se_writable entry"] conn_wf_find[OF wf e]
    by (cases final_data) (simp_all add: unsent_def)
  have "conn_wf c'" using Stream_end_good[OF wf w(1,2)] by (simp add: good_step_def)
  with transfer_inv_append[OF inv e _ u] w(3) True show ?thesis by (simp add: c')
qed

lemma read_transfer:
  assumes inv: "transfer_inv acc shut dlv W R c"
    and r: "Stream_read (php_quic_stream_create h sid) len [h \<mapsto> c] = (chunk, objs)" "objs h = Some c'"
  shows "transfer_inv acc shut dlv W (R(sid := R sid @ (case chunk of Inl _ \<Rightarrow> '''' | Inr bytes \<Rightarrow> bytes))) c'"
proof (cases "c' = c \<and> (case chunk of Inl _ \<Rightarrow> '''' | Inr bytes \<Rightarrow> bytes) = ''''")
  case True
  with inv show ?thesis by simp
next
  case False
  have wf: "conn_wf c" using inv by (simp add: transfer_inv_def)
  from False r obtain entry where e: "zend_hash_find (c_streams c) sid = Some entry"
    by (auto simp: Stream_read_def resolve_single split: option.splits if_splits)
  obtain ch rx where rd: "php_quic_buffer_read (se_rx_buffer entry) (unat len) = (ch, rx)" by fastforce
  let ?e = "entry\<lparr>se_rx_buffer := rx, se_readable := (0 < length (buffer_bytes rx))\<rparr>"
  have c': "c' = put_stream_entry c sid ?e" "chunk = Inr ch"
    using False r e rd by (auto simp: Stream_read_def resolve_single stream_id_create Let_def split: if_splits)
  have "buffer_bytes (se_rx_buffer entry) = ch @ buffer_bytes rx"
    using buffer.rd_conserves[of "se_rx_buffer entry" "unat len"] rd by simp
  moreover have "conn_wf c'" using Stream_read_good[OF wf r] by (simp add: good_step_def)
  ultimately show ?thesis using transfer_inv_take[OF inv e, of ch ?e] by (simp add: c')
qed

lemma transfer_run_inv:
  assumes L: "writes_bounded L space" "library_faithful L acc shut dlv"
    and run: "transfer_run L gai c0 W R c" and c0: "transfer_inv acc shut dlv (\<lambda>_. '''') (\<lambda>_. '''') c0"
  shows "transfer_inv acc shut dlv W R c"
  using run
proof (induction rule: transfer_run.induct)
  case tr_start
  show ?case by (rule c0)
next
  case (tr_call W R c c')
  then obtain n where c: "conn_wf c" "c_conn c = Some n" "tx_fits c" unfolding transfer_inv_def by blast
  from conn_call_step[OF tr_call.hyps(2)] obtain events where "conn_step L gai c events c'" by blast
  with conn_step_good[OF _ c(1)] have "conn_wf c'" by blast
  with transfer_inv_step[OF tr_call.IH conn_call_transfer[OF L c tr_call.hyps(2)]] show ?case .
next
  case (tr_write W R c h sid data r objs c')
  from write_transfer[OF tr_write.IH tr_write.hyps(2,3,4)] show ?case .
next
  case (tr_end W R c h sid final_data u objs c')
  from end_transfer[OF tr_end.IH tr_end.hyps(2,3,4)] show ?case .
next
  case (tr_read W R c h sid len chunk objs c')
  from read_transfer[OF tr_read.IH tr_read.hyps(2,3)] show ?case .
qed

subsection \<open>The properties\<close>

text \<open>Nothing written, accepted or read yet.\<close>

definition transfer_start ::
  "('c \<Rightarrow> i64 \<Rightarrow> zstring) \<Rightarrow> ('c \<Rightarrow> i64 \<Rightarrow> zstring) \<Rightarrow> 'c php_quic_connection \<Rightarrow> bool" where
  "transfer_start acc dlv c0 \<longleftrightarrow> conn_wf c0 \<and> tx_fits c0 \<and>
     (\<exists>n. c_conn c0 = Some n \<and>
       (\<forall>sid. rx_bytes c0 sid = dlv n sid \<and> acc n sid = '''' \<and> stream_unsent c0 sid = ''''))"

lemma transfer_start_inv: "transfer_start acc dlv c0 \<Longrightarrow> transfer_inv acc shut dlv (\<lambda>_. '''') (\<lambda>_. '''') c0"
  by (auto simp: transfer_start_def transfer_inv_def)

text \<open>
  C3. The bytes of every stream are kept exactly, in both directions, through any sequence of
  method calls. What the application read from a stream followed by what it can still read is
  what the library delivered. What the library accepted is always an initial part of what the
  application successfully wrote with \<^verbatim>\<open>write\<close> and \<^verbatim>\<open>end\<close>; and while the
  library has not shut the stream's write side, the rest of what was written is exactly what is
  still waiting to be sent.
\<close>

theorem transfer_exact:
  assumes "writes_bounded L space" "library_faithful L acc shut dlv"
    and "transfer_run L gai c0 W R c" "transfer_start acc dlv c0"
  shows "\<exists>n. c_conn c = Some n \<and>
    (\<forall>sid. R sid @ rx_bytes c sid = dlv n sid \<and> prefix (acc n sid) (W sid) \<and>
      (\<not> shut n sid \<longrightarrow> acc n sid @ stream_unsent c sid = W sid))"
  using transfer_run_inv[OF assms(1,2,3) transfer_start_inv[OF assms(4)]] by (simp add: transfer_inv_def)

subsection \<open>A sample exchange\<close>

lemma sample_faithful: "library_faithful sample_ngtcp2 sample_acc (\<lambda>n sid. False) sample_dlv"
  using sample_writes_counted
  by (auto simp: library_faithful_def native_step_def sample_writev_def sample_dlv_def sample_acc_def
      fun_eq_iff split: option.split)

text \<open>A connection whose script writes to stream 1 and drains.\<close>

definition sample_sender :: "sample_conn php_quic_connection" where
  "sample_sender = put_stream_entry sample_connection 1 (php_quic_stream_entry_alloc 1)"

definition sample_gai :: getaddrinfo where
  "sample_gai h s = Some [\<lparr>sa_family = AF_INET, sa_addr = [192, 0, 2, 1], sa_port = 443\<rparr>]"

lemma sample_sender_start: "transfer_start sample_acc sample_dlv sample_sender"
proof -
  have "conn_wf sample_sender"
    using put_entry_wf[OF sample_connection_wf entry_alloc_wf[of 1], of 1]
    by (simp add: sample_sender_def php_quic_stream_entry_alloc_def)
  moreover have "tx_view sample_sender sid = ('''', 0)" "rx_bytes sample_sender sid = ''''" for sid
    by (simp_all add: sample_sender_def tx_view_put unsent_def php_quic_stream_entry_alloc_def)
       (simp_all add: tx_view_def rx_bytes_def)
  ultimately show ?thesis
    by (simp add: transfer_start_def tx_fits_def stream_unsent_view sample_acc_def sample_dlv_def)
       (simp add: sample_sender_def)
qed

lemma sample_drain_eval:
  "map_option (\<lambda>(r, c). c_conn c)
     (Connection_drainOutgoingDatagrams sample_ngtcp2
       (the (snd (Stream_write sample_ngtcp2 (php_quic_stream_create 0 1) ''hello'' [0 \<mapsto> sample_sender]) 0))) =
   Some (Some (7, [Accepted 1 ''hello'']))"
  by code_simp


lemma sample_write:
  "\<exists>objs c. Stream_write sample_ngtcp2 (php_quic_stream_create 0 1) ''hello'' [0 \<mapsto> sample_sender] = (Inr 5, objs) \<and>
    objs 0 = Some c \<and> tx_fits c"
proof -
  let ?e = "(php_quic_stream_entry_alloc 1)\<lparr>se_tx_buffer := Some ''hello'', se_writable := False\<rparr>"
  have "zend_hash_find (c_streams sample_sender) 1 = Some (php_quic_stream_entry_alloc 1)"
    by (simp add: sample_sender_def put_entry_find)
  then have "Stream_write sample_ngtcp2 (php_quic_stream_create 0 1) ''hello'' [0 \<mapsto> sample_sender] =
      (Inr 5, [0 \<mapsto> put_stream_entry sample_sender 1 ?e])"
    by (simp add: Stream_write_def resolve_single php_quic_stream_is_remote_unidirectional_def
        stream_id_create entry_alloc_fields php_quic_buffer_append_def Let_def split: option.split)
  moreover have "tx_view (put_stream_entry sample_sender 1 ?e) sid = (if sid = 1 then (''hello'', 5) else ('''', 0))" for sid
    by (simp add: sample_sender_def tx_view_put unsent_def php_quic_stream_entry_alloc_def) (simp add: tx_view_def)
  then have "tx_fits (put_stream_entry sample_sender 1 ?e)" by (simp add: tx_fits_def)
  ultimately show ?thesis by simp
qed

lemma sample_sender_run:
  "\<exists>W a. transfer_run sample_ngtcp2 sample_gai sample_sender W (\<lambda>_. '''') a \<and> W 1 = ''hello'' \<and>
    c_conn a = Some (7, [Accepted 1 ''hello''])"
proof -
  obtain objs c where w: "Stream_write sample_ngtcp2 (php_quic_stream_create 0 1) ''hello'' [0 \<mapsto> sample_sender] = (Inr 5, objs)"
    "objs 0 = Some c" "tx_fits c" using sample_write by blast
  from sample_drain_eval w(1,2) obtain r a where d: "Connection_drainOutgoingDatagrams sample_ngtcp2 c = Some (r, a)"
    "c_conn a = Some (7, [Accepted 1 ''hello''])" by auto
  from tr_call[OF tr_write[OF tr_start w] cc_datagrams[OF d(1)], of sample_gai] d(2) show ?thesis
    by (intro exI conjI) (assumption, simp_all)
qed

theorem transfer_exact_witness:
  "\<exists>W a. transfer_run sample_ngtcp2 sample_gai sample_sender W (\<lambda>_. '''') a \<and> W 1 = ''hello'' \<and>
    stream_unsent a 1 = ''''"
proof -
  obtain W a where a: "transfer_run sample_ngtcp2 sample_gai sample_sender W (\<lambda>_. '''') a" "W 1 = ''hello''"
    "c_conn a = Some (7, [Accepted 1 ''hello''])" using sample_sender_run by blast
  have "sample_acc (7, [Accepted 1 ''hello'']) 1 @ stream_unsent a 1 = W 1"
    using transfer_exact[OF sample_writes_bounded sample_faithful a(1) sample_sender_start] a(3) by auto
  with a show ?thesis by (auto simp: sample_acc_def)
qed

end
