(* ===== verification/Quic_Session.thy ===== *)
theory Quic_Session
  imports Quic_Transfer Quic_Server_Connection
begin

text \<open>
  Whole sessions: connections as the constructor and \<^verbatim>\<open>accept\<close> make them satisfy what the
  byte accounting of \<open>Quic_Transfer\<close> starts from, so that it holds from the first datagram on.
\<close>

text \<open>A new native connection has accepted and delivered nothing.\<close>

definition library_starts ::
  "'c ngtcp2 \<Rightarrow> ('c \<Rightarrow> i64 \<Rightarrow> zstring) \<Rightarrow> ('c \<Rightarrow> i64 \<Rightarrow> zstring) \<Rightarrow> bool" where
  "library_starts L acc dlv \<longleftrightarrow>
     (\<forall>dcid scid path v ts params h sid.
        (case ngtcp2_conn_client_new L dcid scid path v ts params of (rv, n) \<Rightarrow>
           rv = None \<longrightarrow> acc (ngtcp2_conn_set_tls_native_handle L n h) sid = '''' \<and>
             dlv (ngtcp2_conn_set_tls_native_handle L n h) sid = '''') \<and>
        (case ngtcp2_conn_server_new L dcid scid path v ts params of (rv, n) \<Rightarrow>
           rv = None \<longrightarrow> acc (ngtcp2_conn_set_tls_native_handle L n h) sid = '''' \<and>
             dlv (ngtcp2_conn_set_tls_native_handle L n h) sid = ''''))"

lemma library_starts_new:
  assumes "library_starts L acc dlv"
  shows "ngtcp2_conn_client_new L dcid scid path v ts params = (None, n) \<Longrightarrow>
      acc (ngtcp2_conn_set_tls_native_handle L n h) sid = '''' \<and> dlv (ngtcp2_conn_set_tls_native_handle L n h) sid = ''''"
    and "ngtcp2_conn_server_new L dcid scid path v ts params = (None, n) \<Longrightarrow>
      acc (ngtcp2_conn_set_tls_native_handle L n h) sid = '''' \<and> dlv (ngtcp2_conn_set_tls_native_handle L n h) sid = ''''"
  using assms[unfolded library_starts_def, THEN spec[of _ dcid], THEN spec[of _ scid], THEN spec[of _ path],
      THEN spec[of _ v], THEN spec[of _ ts], THEN spec[of _ params], THEN spec[of _ h], THEN spec[of _ sid]] by auto

subsection \<open>The client\<close>

lemma init_native_new:
  assumes "php_quic_connection_init_native Y c w = (True, c', w')"
  obtains dcid scid path ts n where
    "ngtcp2_conn_client_new (y_ngtcp2 Y) dcid scid path (NGTCP2_PROTO_VER_V1 (y_ngtcp2 Y)) ts
       (client_transport_params (y_ngtcp2 Y)) = (None, n)"
    "c_conn c' = Some (ngtcp2_conn_set_tls_native_handle (y_ngtcp2 Y) n (c_session c))"
  using assms
  by (auto simp: php_quic_connection_init_native_def Let_def php_quic_timestamp_def
      split: prod.splits option.splits if_splits)

lemma construct_init:
  assumes "Connection_construct Y remote config c w = (Inr u, c', w')"
  obtains c4 w4 where "php_quic_connection_init_native Y c4 w4 = (True, c', w')"
  using assms by (force simp: Connection_construct_def Let_def split: option.splits prod.splits if_splits)

lemma constructed_start:
  assumes L: "library_starts (y_ngtcp2 Y) acc dlv"
    and k: "Connection_construct Y remote config (php_quic_connection_create_object (y_ngtcp2 Y) hr) w = (Inr u, c, w')"
  shows "transfer_start acc dlv c"
proof -
  let ?c0 = "php_quic_connection_create_object (y_ngtcp2 Y) hr"
  have c0: "c_conn ?c0 = None" "c_session ?c0 = None" "c_cred ?c0 = None" "c_streams ?c0 = []"
    by (simp_all add: php_quic_connection_create_object_def)
  have fr: "construct_frame ?c0 c"
    using construct_new_post[OF c0(1-3), of Y remote config w] unfolding k construct_post_def by simp
  have "fresh_connection ?c0"
    using create_object_wf by (simp add: fresh_connection_def php_quic_connection_create_object_def event_queue.items_init)
  then have wf: "conn_wf c" using construct_frame_fresh[OF fr] by (simp add: fresh_connection_def)
  have s: "c_streams c = []" using fr c0(4) by (simp add: construct_frame_def)
  obtain c4 w4 where "php_quic_connection_init_native Y c4 w4 = (True, c, w')" using construct_init[OF k] .
  then obtain dcid scid path ts n where
    n: "ngtcp2_conn_client_new (y_ngtcp2 Y) dcid scid path (NGTCP2_PROTO_VER_V1 (y_ngtcp2 Y)) ts
       (client_transport_params (y_ngtcp2 Y)) = (None, n)"
    "c_conn c = Some (ngtcp2_conn_set_tls_native_handle (y_ngtcp2 Y) n (c_session c4))" by (rule init_native_new)
  from library_starts_new(1)[OF L n(1)] n(2) wf s show ?thesis
    by (simp add: transfer_start_def tx_fits_def tx_view_def rx_bytes_def stream_unsent_def)
qed

subsection \<open>The server\<close>

lemma accept_native_reads:
  assumes "accept_native Y cert key alpn vc payload c0 w = (Inr c, w')"
    and "c_conn c0 = None" "c_session c0 = None" "c_cred c0 = None"
  shows "\<exists>dcid scid path v ts params n h now cbs n1 d i.
    ngtcp2_conn_server_new (y_ngtcp2 Y) dcid scid path v ts params = (None, n) \<and>
    ngtcp2_conn_read_pkt (y_ngtcp2 Y) (ngtcp2_conn_set_tls_native_handle (y_ngtcp2 Y) n h) path payload now = (None, cbs, n1) \<and>
    c_conn d = Some (ngtcp2_conn_set_tls_native_handle (y_ngtcp2 Y) n h) \<and> c_streams d = c_streams c0 \<and>
    c = run_callbacks (y_ngtcp2 Y) cbs (d\<lparr>c_reads := i, c_conn := Some n1\<rparr>)"
proof -
  define L where "L = y_ngtcp2 Y"
  obtain ok c1 heap where t: "php_quic_tls_gnutls_init_server (y_gnutls Y) (Some cert) (Some key) (Some alpn) c0 (w_tls w)
      = (ok, c1, heap)" by (metis prod_cases3)
  have "tls_init_ok c0 (w_tls w) (ok, c1, heap)"
    using tls_init_server_ok[OF assms(3,4), of "w_tls w" "y_gnutls Y" "Some cert" "Some key" "Some alpn"] by (simp only: t)
  then have "\<exists>x y. c1 = c0\<lparr>c_cred := x, c_session := y\<rparr>" by (auto simp: tls_init_ok_def)
  then have st: "c_streams c1 = c_streams c0" by auto
  obtain scid w2 where g: "php_quic_fill_random Y 18 (w\<lparr>w_tls := heap\<rparr>) = (scid, w2)" by fastforce
  obtain tk params w3 where p: "php_quic_server_set_stateless_reset_token Y (server_transport_params L) w2 = (tk, params, w3)"
    by (metis prod_cases3)
  have fail: "accept_fail e d v \<noteq> (Inr c, w')" for e d v by (simp add: accept_fail_def)
  from assms(1) have a: "ok" "scid \<noteq> None" "tk" "\<not> php_quic_test_force_server_new_failure Y"
    unfolding accept_native_def Let_def t prod.case L_def[symmetric] g
    by (auto simp: fail p php_quic_timestamp_def split: option.splits if_splits prod.splits)
  from a(2) obtain s where s: "scid = Some s" by blast
  let ?params = "params\<lparr>original_dcid := Some (vc_dcid vc)\<rparr>"
  let ?c2 = "c1\<lparr>c_reads := Suc (c_reads c1)\<rparr>"
  let ?path = "\<lparr>path_local = c_local_addr ?c2, path_remote = c_remote_addr ?c2\<rparr>"
  obtain rv n where n: "ngtcp2_conn_server_new L (vc_scid vc) s ?path (vc_version vc)
        (c_hrtime c1 (c_reads c1)) ?params = (rv, n)" by fastforce
  let ?n = "ngtcp2_conn_set_tls_native_handle L n (c_session ?c2)"
  let ?now = "c_hrtime c1 (Suc (c_reads c1))"
  obtain rv2 cbs n1 where r: "ngtcp2_conn_read_pkt L ?n ?path payload ?now = (rv2, cbs, n1)" by (metis prod_cases3)
  let ?d = "?c2\<lparr>c_conn := Some ?n\<rparr>"
  from assms(1) a have "rv = None \<and> rv2 = None \<and>
      c = run_callbacks L cbs (?d\<lparr>c_reads := Suc (Suc (c_reads c1)), c_conn := Some n1\<rparr>)"
    unfolding accept_native_def Let_def t prod.case L_def[symmetric] g s option.case
    using n r by (auto simp: fail p php_quic_timestamp_def split: if_splits)
  with n r st show ?thesis
    unfolding L_def[symmetric]
    by (intro exI[of _ "vc_scid vc"] exI[of _ s] exI[of _ ?path] exI[of _ "vc_version vc"]
        exI[of _ "c_hrtime c1 (c_reads c1)"] exI[of _ ?params] exI[of _ n] exI[of _ "c_session ?c2"]
        exI[of _ ?now] exI[of _ cbs] exI[of _ n1] exI[of _ ?d] exI[of _ "Suc (Suc (c_reads c1))"]) simp
qed

lemma accepted_start:
  assumes L: "library_starts (y_ngtcp2 Y) acc dlv" "library_faithful (y_ngtcp2 Y) acc shut dlv"
    and k: "ServerConnection_accept Y hr initial config w = (Inr c, w')"
  shows "transfer_start acc dlv c"
proof -
  have wf: "conn_wf c" using accept_returned[OF k] by simp
  from k obtain cert key alpn vc ra la eff where
    "accept_native Y cert key alpn vc (dg_payload initial) (accept_object Y hr initial eff ra la)
       (w\<lparr>w_strings := w_strings w + 3\<rparr>) = (Inr c, w')" by (rule accept_success)
  from accept_native_reads[OF this accept_object_new(1-3)] obtain dcid scid path v ts params n h now cbs n1 d i where
    new: "ngtcp2_conn_server_new (y_ngtcp2 Y) dcid scid path v ts params = (None, n)" and
    read: "ngtcp2_conn_read_pkt (y_ngtcp2 Y) (ngtcp2_conn_set_tls_native_handle (y_ngtcp2 Y) n h) path
      (dg_payload initial) now = (None, cbs, n1)" and
    d: "c_conn d = Some (ngtcp2_conn_set_tls_native_handle (y_ngtcp2 Y) n h)"
      "c_streams d = c_streams (accept_object Y hr initial eff ra la)" and
    c: "c = run_callbacks (y_ngtcp2 Y) cbs (d\<lparr>c_reads := i, c_conn := Some n1\<rparr>)" by blast
  have s: "c_streams d = []" by (simp add: d(2) accept_object_def php_quic_connection_create_object_def)
  then have q: "tx_view d sid = ('''', 0)" "rx_bytes d sid = ''''" for sid
    by (simp_all add: tx_view_def rx_bytes_def)
  have n1: "c_conn c = Some n1" by (simp add: c)
  have "tx_view c = tx_view d" by (simp add: c)
  then have "tx_fits c" "stream_unsent c sid = ''''" for sid
    by (simp_all add: tx_fits_def stream_unsent_view q)
  moreover have "rx_bytes c sid = delivered sid cbs" for sid
    using q(2)[of sid] by (simp add: c run_callbacks_rx)
  moreover have "acc n1 sid = '''' \<and> dlv n1 sid = delivered sid cbs" for sid
    using faithful_read[OF L(2) read] library_starts_new(2)[OF L(1) new, of h sid] by (simp add: native_step_def)
  ultimately show ?thesis using wf n1 by (simp add: transfer_start_def)
qed

subsection \<open>The session\<close>

text \<open>A connection as a script gets it.\<close>

definition script_connection ::
  "('c, 'r) system \<Rightarrow> 'c php_quic_connection \<Rightarrow> bool" where
  "script_connection Y c \<longleftrightarrow>
     (\<exists>remote config hr w u w'.
        Connection_construct Y remote config (php_quic_connection_create_object (y_ngtcp2 Y) hr) w = (Inr u, c, w')) \<or>
     (\<exists>hr initial config w w'. ServerConnection_accept Y hr initial config w = (Inr c, w'))"

lemma script_connection_start:
  assumes "script_connection Y c" "library_starts (y_ngtcp2 Y) acc dlv" "library_faithful (y_ngtcp2 Y) acc shut dlv"
  shows "transfer_start acc dlv c"
  using assms(1) constructed_start[OF assms(2)] accepted_start[OF assms(2,3)] unfolding script_connection_def by blast

text \<open>
  C2. The byte accounting starts with the connection. Take a client connection that the
  constructor made, or a server connection that \<^verbatim>\<open>ServerConnection::accept\<close> returned, which
  has already processed the first datagram and the stream data in it. After any sequence of method
  calls the bytes the script read from a stream, followed by those it can still read, are all the
  bytes the library has ever delivered on it; the bytes the library has accepted are an initial part
  of those the script wrote, and, while the write side is open, the rest still waits. The
  hypotheses are that a new native connection has accepted and delivered nothing
  (\<open>library_starts\<close>) and what each library call does to the two counts.
\<close>

theorem session_bytes_exact:
  assumes "script_connection Y c0" "transfer_run (y_ngtcp2 Y) gai c0 W R c"
    and "writes_bounded (y_ngtcp2 Y) space" "library_faithful (y_ngtcp2 Y) acc shut dlv"
      "library_starts (y_ngtcp2 Y) acc dlv"
  shows "\<exists>n. c_conn c = Some n \<and>
    (\<forall>sid. R sid @ rx_bytes c sid = dlv n sid \<and> prefix (acc n sid) (W sid) \<and>
      (\<not> shut n sid \<longrightarrow> acc n sid @ stream_unsent c sid = W sid))"
  using transfer_run_inv[OF assms(3,4,2) transfer_start_inv[OF script_connection_start[OF assms(1,5,4)]]]
  by (simp add: transfer_inv_def)

subsection \<open>A sample session\<close>

lemma sample_new [simp]:
  "ngtcp2_conn_client_new sample_ngtcp2 dcid scid path v ts params = (None, (8, []))"
  "ngtcp2_conn_server_new sample_ngtcp2 dcid scid path v ts params = (None, (8, []))"
  "ngtcp2_conn_set_tls_native_handle sample_ngtcp2 n h = n"
  by (simp_all add: sample_ngtcp2_def)

lemma sample_starts: "library_starts sample_ngtcp2 sample_acc sample_dlv"
  by (simp add: library_starts_def sample_acc_def sample_dlv_def)

lemma sample_payload: "dg_payload sample_initial = ''initial packet''"
  by (simp add: sample_initial_def Datagram_construct_def)

lemma sample_server:
  "\<exists>b0 w1. ServerConnection_accept sample_system (\<lambda>i. of_nat i) sample_initial sample_server_config
      sample_world = (Inr b0, w1) \<and> c_conn b0 = Some (8, [Delivered 1 (dg_payload sample_initial)])"
proof -
  obtain b0 w1 where s: "ServerConnection_accept sample_system (\<lambda>i. of_nat i) sample_initial sample_server_config
      sample_world = (Inr b0, w1)" using sample_accept by blast
  from s obtain cert key alpn vc ra la eff where
    n: "accept_native sample_system cert key alpn vc (dg_payload sample_initial)
       (accept_object sample_system (\<lambda>i. of_nat i) sample_initial eff ra la)
       (sample_world\<lparr>w_strings := w_strings sample_world + 3\<rparr>) = (Inr b0, w1)" by (rule accept_success)
  from accept_native_reads[OF n accept_object_new(1-3)] have "c_conn b0 = Some (8, [Delivered 1 (dg_payload sample_initial)])"
    by (elim exE conjE) (simp, force)
  with s show ?thesis by blast
qed

text \<open>
  A server connection whose first datagram carried stream data. The script reads seven bytes of
  it; the others can still be read.
\<close>

lemma rx_entry:
  assumes "rx_bytes c sid = b" "b \<noteq> ''''"
  shows "\<exists>entry. zend_hash_find (c_streams c) sid = Some entry \<and> se_rx_buffer entry = Some b"
proof (cases "zend_hash_find (c_streams c) sid")
  case None
  with assms show ?thesis by (simp add: rx_bytes_def)
next
  case (Some entry)
  with assms show ?thesis by (cases "se_rx_buffer entry") (simp_all add: rx_bytes_def)
qed

lemma read_first:
  assumes "zend_hash_find (c_streams c) sid = Some entry" "se_rx_buffer entry = Some b" "length b > 7"
  obtains objs c' where "Stream_read (php_quic_stream_create h sid) 7 [h \<mapsto> c] = (Inr (take 7 b), objs)" "objs h = Some c'"
proof -
  obtain ch rx where r: "php_quic_buffer_read (Some b) 7 = (ch, rx)" by fastforce
  have ch: "ch = take 7 b" using buffer.rd_chunk[of "Some b" 7] r by simp
  have "b \<noteq> []" using assms(3) by auto
  with r ch assms that show thesis by (auto simp: Stream_read_def resolve_single stream_id_create Let_def)
qed

theorem session_bytes_exact_witness:
  "\<exists>b0 w1 R b. ServerConnection_accept sample_system (\<lambda>i. of_nat i) sample_initial sample_server_config
      sample_world = (Inr b0, w1) \<and>
    transfer_run sample_ngtcp2 sample_gai b0 (\<lambda>_. '''') R b \<and>
    R 1 = ''initial'' \<and> R 1 @ rx_bytes b 1 = ''initial packet''"
proof -
  obtain b0 w1 where s: "ServerConnection_accept sample_system (\<lambda>i. of_nat i) sample_initial sample_server_config
      sample_world = (Inr b0, w1)" "c_conn b0 = Some (8, [Delivered 1 ''initial packet''])"
    using sample_server by (auto simp: sample_payload)
  have sc: "script_connection sample_system b0" using s(1) unfolding script_connection_def by blast
  have "transfer_start sample_acc sample_dlv b0"
    using script_connection_start[OF sc] sample_starts sample_faithful by simp
  then have "rx_bytes b0 1 = ''initial packet''" using s(2) by (simp add: transfer_start_def sample_dlv_def)
  from rx_entry[OF this] obtain entry where e: "zend_hash_find (c_streams b0) 1 = Some entry"
    "se_rx_buffer entry = Some ''initial packet''" by auto
  obtain objs b where r: "Stream_read (php_quic_stream_create 0 1) 7 [0 \<mapsto> b0] = (Inr ''initial'', objs)" "objs 0 = Some b"
    by (rule read_first[OF e, of 0]) simp_all
  have run: "transfer_run sample_ngtcp2 sample_gai b0 (\<lambda>_. '''') ((\<lambda>_. '''')(1 := ''initial'')) b"
    using tr_read[OF tr_start r] by simp
  have "c_conn b = Some (8, [Delivered 1 ''initial packet''])"
    using r s(2) by (auto simp: Stream_read_def resolve_single stream_id_create Let_def split: option.splits if_splits prod.splits)
  with session_bytes_exact[OF sc, of sample_gai "\<lambda>_. ''''" "(\<lambda>_. '''')(1 := ''initial'')" b "\<lambda>n. 0" sample_acc
      "\<lambda>n sid. False" sample_dlv] run sample_starts sample_faithful sample_writes_bounded
  have "((\<lambda>_. '''')(1 := ''initial'')) (1::i64) @ rx_bytes b 1 = sample_dlv (8, [Delivered 1 ''initial packet'']) 1"
    by (simp del: fun_upd_apply)
  then have "((\<lambda>_. '''')(1 := ''initial'')) (1::i64) @ rx_bytes b 1 = ''initial packet''"
    by (simp add: sample_dlv_def)
  with s(1) run show ?thesis by (intro exI conjI) (assumption, assumption, simp_all)
qed

end
