(* ===== verification/Quic_Drain_Live.thy ===== *)
theory Quic_Drain_Live
  imports Quic_Drain_Props
begin

text \<open>
  Why \<^verbatim>\<open>drainOutgoingDatagrams\<close> stops: all 256 datagrams of one call are produced, no
  stream has anything to send, or the library refused. No assumption is made that it accepts.
\<close>

subsection \<open>Refusals\<close>

text \<open>
  Writes after which the loop gives up. \<open>write_stops\<close>: the library wrote no packet, or reports
  that the connection is closing. A stream it cannot take data from (\<open>stream_blocked\<close>: flow control,
  or no stream id is available) does not stop the loop; the packet is tried once more without
  stream data. \<open>stalled L n\<close>: the native state \<open>n\<close> was left by a write that stops, of data or a
  FIN of a stream, or of the try without data after a stream was blocked.
\<close>

definition write_stops :: "'c ngtcp2 \<Rightarrow> 'c \<Rightarrow> bool \<Rightarrow> i64 \<Rightarrow> zstring option \<Rightarrow> 'c \<Rightarrow> bool" where
  "write_stops L m fin sid datav n \<longleftrightarrow>
     (\<exists>now nwrite w cbs. ngtcp2_conn_writev_stream L m 1452 (tx_flags L fin) sid datav now = (nwrite, w, cbs, n) \<and>
        (case nwrite of
           Inl e \<Rightarrow> php_quic_connection_is_nonfatal_closing_error e \<or> (sid = -1 \<and> e = NGTCP2_ERR_STREAM_DATA_BLOCKED)
         | Inr buf \<Rightarrow> buf = ''''))"

lemma write_stopsI:
  "ngtcp2_conn_writev_stream L m 1452 (tx_flags L fin) sid datav now = (nwrite, w, cbs, n) \<Longrightarrow>
     (case nwrite of
        Inl e \<Rightarrow> php_quic_connection_is_nonfatal_closing_error e \<or> (sid = -1 \<and> e = NGTCP2_ERR_STREAM_DATA_BLOCKED)
      | Inr buf \<Rightarrow> buf = '''') \<Longrightarrow> write_stops L m fin sid datav n"
  unfolding write_stops_def by blast

definition stream_blocked :: "'c ngtcp2 \<Rightarrow> 'c \<Rightarrow> 'c \<Rightarrow> bool" where
  "stream_blocked L m n \<longleftrightarrow>
     (\<exists>fin sid datav now w cbs. (datav \<noteq> None \<or> fin) \<and>
        ngtcp2_conn_writev_stream L m 1452 (tx_flags L fin) sid datav now =
          (Inl NGTCP2_ERR_STREAM_DATA_BLOCKED, w, cbs, n)) \<or>
     (\<exists>sid oid. php_quic_connection_open_pending_stream L m sid = (Some NGTCP2_ERR_STREAM_ID_BLOCKED, oid, n))"

definition stalled :: "'c ngtcp2 \<Rightarrow> 'c \<Rightarrow> bool" where
  "stalled L n \<longleftrightarrow>
     (\<exists>m fin sid datav. (datav \<noteq> None \<or> fin) \<and> write_stops L m fin sid datav n) \<or>
     (\<exists>m0 m. stream_blocked L m0 m \<and> write_stops L m False (-1) None n)"

lemma pick_tx_entry_None:
  "pick_tx_entry t = None \<Longrightarrow> \<forall>(k, entry) \<in> set t. entry_wf entry \<Longrightarrow> \<forall>(k, entry) \<in> set t. \<not> tx_wanted entry"
  by (induction t) (auto simp: pick_tx_entry_Cons simp del: pick_tx_entry.simps(2) split: if_splits)

lemma pick_nothing_wanted:
  assumes "conn_wf c" "php_quic_connection_pick_tx_stream c = (pick, c1)" "tp_entry pick = None"
  shows "tx_wanted_set c = {}"
proof -
  have "pick_tx_entry (c_streams c) = None"
    using assms(2,3) by (auto simp: php_quic_connection_pick_tx_stream_def split: option.splits)
  moreover have "\<forall>(k, entry) \<in> set (c_streams c). entry_wf entry"
    by (rule streams_wf_entries) (use assms(1) in \<open>simp add: conn_wf_def\<close>)
  ultimately have nw: "\<forall>(k, entry) \<in> set (c_streams c). \<not> tx_wanted entry" by (rule pick_tx_entry_None)
  show ?thesis using nw by (auto simp: tx_wanted_set_def dest!: zend_hash_find_in_set)
qed

subsection \<open>One iteration\<close>

definition live_inv :: "'c ngtcp2 \<Rightarrow> 'c drain_state \<Rightarrow> bool" where
  "live_inv L s \<longleftrightarrow> length (ds_out s) = ds_emitted s \<and>
     (\<exists>n. c_conn (ds_c s) = Some n \<and> (ds_force s \<longrightarrow> (\<exists>m. stream_blocked L m n)))"

definition live_end :: "'c ngtcp2 \<Rightarrow> unit outcome \<Rightarrow> 'c drain_state \<Rightarrow> bool" where
  "live_end L r s \<longleftrightarrow> \<not> is_ok r \<or> length (ds_out s) = 256 \<or> tx_wanted_set (ds_c s) = {} \<or>
     (\<exists>n. c_conn (ds_c s) = Some n \<and> stalled L n)"

text \<open>What is offered: data or a FIN of a stream, or nothing, for a reason.\<close>

definition offered :: "'c ngtcp2 \<Rightarrow> 'c \<Rightarrow> tx_pick \<Rightarrow> 'c php_quic_connection \<Rightarrow> bool" where
  "offered L n pick c \<longleftrightarrow>
     (if tp_entry pick = None then pick = no_tx_pick \<and> (tx_wanted_set c = {} \<or> (\<exists>m. stream_blocked L m n))
      else tp_datav pick \<noteq> None \<or> tp_fin pick)"

lemma live_write:
  assumes e: "ds_emitted s < 256" and s: "length (ds_out s) = ds_emitted s" "\<not> ds_force s"
    and offer: "offered L n pick (ds_c s)"
  shows "case drain_write L n pick s of Inl s' \<Rightarrow> live_inv L s' | Inr (r, s') \<Rightarrow> live_end L r s'"
proof -
  obtain nwrite w cbs n1 where wr: "ngtcp2_conn_writev_stream L n 1452 (tx_flags L (tp_fin pick))
      (tp_stream_id pick) (tp_datav pick) (c_hrtime (ds_c s) (c_reads (ds_c s))) = (nwrite, w, cbs, n1)"
    by (metis prod_cases4)
  define c2 where "c2 = run_callbacks L cbs ((ds_c s)\<lparr>c_reads := Suc (c_reads (ds_c s)), c_conn := Some n1\<rparr>)"
  have c2: "c_conn c2 = Some n1" "tx_wanted_set c2 \<subseteq> tx_wanted_set (ds_c s)"
    using run_callbacks_wanted[of L cbs "(ds_c s)\<lparr>c_reads := Suc (c_reads (ds_c s)), c_conn := Some n1\<rparr>"]
    by (simp_all add: c2_def)
  have none: "php_quic_connection_update_tx_entry c2 None w fa pe = c2" for fa pe
    by (simp add: php_quic_connection_update_tx_entry_def)
  show ?thesis
  proof (cases "drain_write L n pick s")
    case (Inl s')
    from Inl wr c2_def have "live_inv L s'"
    proof (cases rule: drain_write_continue)
      case (blocked k)
      with offer have "tp_datav pick \<noteq> None \<or> tp_fin pick" by (simp add: offered_def)
      with wr blocked(1) have "stream_blocked L n n1" unfolding stream_blocked_def by blast
      with blocked(3) s c2(1) show ?thesis by (auto simp: live_inv_def)
    qed (use s c2(1) in \<open>simp_all add: live_inv_def\<close>)
    with Inl show ?thesis by simp
  next
    case (Inr x)
    obtain r s' where x: "x = (r, s')" by fastforce
    have stops: "tx_wanted_set c2 = {} \<and> tp_entry pick = None \<or> stalled L n1"
      if "case nwrite of
           Inl e \<Rightarrow> php_quic_connection_is_nonfatal_closing_error e \<or> (tp_entry pick = None \<and> e = NGTCP2_ERR_STREAM_DATA_BLOCKED)
         | Inr buf \<Rightarrow> buf = ''''"
    proof (cases "tp_entry pick")
      case None
      with offer have p: "pick = no_tx_pick" "tx_wanted_set (ds_c s) = {} \<or> (\<exists>m. stream_blocked L m n)"
        by (simp_all add: offered_def)
      have "write_stops L n False (-1) None n1"
        by (rule write_stopsI) (use that wr None p(1) in \<open>auto simp: no_tx_pick_def split: sum.splits\<close>)
      with p(2) c2(2) None show ?thesis unfolding stalled_def by blast
    next
      case (Some k)
      with offer have o: "tp_datav pick \<noteq> None \<or> tp_fin pick" by (simp add: offered_def)
      have "write_stops L n (tp_fin pick) (tp_stream_id pick) (tp_datav pick) n1"
        by (rule write_stopsI[OF wr]) (use that Some in \<open>auto split: sum.splits\<close>)
      with o show ?thesis unfolding stalled_def by blast
    qed
    have "live_end L r s'"
    proof (cases nwrite)
      case (Inl err)
      with Inr x wr show ?thesis using stops c2(1) none unfolding drain_write_def Let_def
        by (auto simp: c2_def[symmetric] live_end_def
            simp del: php_quic_connection_is_nonfatal_closing_error.simps split: if_splits)
    next
      case buf: (Inr buf)
      with Inr x wr s e stops c2(1) none show ?thesis unfolding drain_write_def Let_def
        by (auto simp: c2_def[symmetric] live_end_def split: if_splits)
    qed
    with Inr x show ?thesis by simp
  qed
qed

text \<open>A stream that waits for its id is opened first.\<close>

lemma live_open_pending:
  assumes n: "c_conn c = Some n" and offer: "offered L n pick c"
    and o: "drain_open_pending L pick c = (r, c2)"
  shows "\<exists>n2. c_conn c2 = Some n2 \<and> (\<forall>pick2. r = Inr pick2 \<longrightarrow> offered L n2 pick2 c2)"
proof (cases "\<exists>k entry. tp_entry pick = Some k \<and> zend_hash_find (c_streams c) k = Some entry \<and> se_pending_open entry")
  case True
  then obtain k entry where k: "tp_entry pick = Some k" "zend_hash_find (c_streams c) k = Some entry"
    "se_pending_open entry" by blast
  obtain rv oid n1 where p: "php_quic_connection_open_pending_stream L n (se_stream_id entry) = (rv, oid, n1)"
    by (metis prod_cases3)
  have blocked: "offered L n1 no_tx_pick c2" if "rv = Some NGTCP2_ERR_STREAM_ID_BLOCKED"
    using p that unfolding offered_def no_tx_pick_def stream_blocked_def by auto
  have same: "offered L m pick d" for m d using offer k(1) by (simp add: offered_def)
  show ?thesis using o k n p blocked same
    by (auto simp: drain_open_pending_def Let_def split: option.splits if_splits)
next
  case False
  then have "drain_open_pending L pick c = (Inr pick, c)"
    by (auto simp: drain_open_pending_def split: option.split)
  with o n offer show ?thesis by auto
qed

lemma live_step:
  assumes c: "conn_wf (ds_c s)" and e: "ds_emitted s < 256" and s: "live_inv L s"
  shows "case drain_step L s of Inl s' \<Rightarrow> live_inv L s' | Inr (r, s') \<Rightarrow> live_end L r s'"
proof -
  obtain pick c1 where p: "(if ds_force s then (no_tx_pick, ds_c s)
      else php_quic_connection_pick_tx_stream (ds_c s)) = (pick, c1)" by fastforce
  obtain n where n: "c_conn (ds_c s) = Some n" "ds_force s \<Longrightarrow> \<exists>m. stream_blocked L m n"
    using s by (auto simp: live_inv_def)
  have c1: "c_conn c1 = Some n \<and> offered L n pick c1"
  proof (cases "ds_force s")
    case True
    with p n show ?thesis by (auto simp: offered_def no_tx_pick_def)
  next
    case False
    with p have pk: "php_quic_connection_pick_tx_stream (ds_c s) = (pick, c1)" by simp
    show ?thesis
    proof (cases "tp_entry pick")
      case None
      with pick_tx_stream_None[OF pk None] pick_nothing_wanted[OF c pk None] n show ?thesis
        by (simp add: offered_def)
    next
      case (Some k)
      from pick_tx_stream_Some[OF c pk Some] show ?thesis
        by (rule) (use Some n in \<open>auto simp: offered_def\<close>)
    qed
  qed
  obtain r c2 where o: "drain_open_pending L pick c1 = (r, c2)" by fastforce
  obtain n2 where n2: "c_conn c2 = Some n2" "\<And>pick2. r = Inr pick2 \<Longrightarrow> offered L n2 pick2 c2"
    using live_open_pending[OF _ _ o] c1 by blast
  note st = drain_step_unfold[OF p o]
  show ?thesis
  proof (cases r)
    case (Inl err)
    then show ?thesis unfolding st by (simp add: live_end_def)
  next
    case (Inr pick2)
    have "case drain_write L n2 pick2 (s\<lparr>ds_force := False, ds_c := c2\<rparr>) of
        Inl s' \<Rightarrow> live_inv L s' | Inr (r, s') \<Rightarrow> live_end L r s'"
      by (rule live_write) (use e s n2(2)[OF Inr] in \<open>simp_all add: live_inv_def\<close>)
    then show ?thesis unfolding st using Inr n2(1) by simp
  qed
qed

text \<open>
  C6. The drain does not stop early. Let a call of \<^verbatim>\<open>drainOutgoingDatagrams\<close> on a
  well-formed connection with an open native connection return normally, without a close that has
  been requested. Then it produced the full 256 datagrams, or no open stream has unsent bytes or an
  unsent FIN left, or the library refused: the last write it was asked for produced no packet or
  reported that the connection is closing, and that write offered a stream's data or FIN, or was
  the try without stream data that follows when the library had reported a stream blocked. Of the
  library only \<open>writes_bounded\<close> is assumed, which the loop needs to end at all.
\<close>

theorem drain_progress:
  assumes L: "writes_bounded L space"
    and c: "conn_wf c" "c_conn c = Some n" "\<not> (c_close_requested c \<and> \<not> c_close_packet_sent c)"
  shows "\<exists>r c'. Connection_drainOutgoingDatagrams L c = Some (r, c') \<and>
    (\<forall>out. r = Inr out \<longrightarrow> length out = 256 \<or>
       (\<forall>sid entry. zend_hash_find (c_streams c') sid = Some entry \<and> \<not> se_closed entry \<and> \<not> se_reset entry \<longrightarrow>
          unsent entry = '''' \<and> \<not> se_fin_pending entry) \<or>
       (\<exists>n'. c_conn c' = Some n' \<and> stalled L n'))"
proof -
  let ?s = "\<lparr>ds_c = c, ds_out = [], ds_emitted = 0, ds_force = False\<rparr>"
  have "\<exists>r s'. drain_loop L ?s = Some (r, s') \<and> conn_wf (ds_c s') \<and>
      conn_progress (ds_c ?s) (ds_c s') \<and> live_end L r s'"
  proof (rule drain_loop_invariant[OF L, where P = "live_inv L"])
    show "conn_wf (ds_c ?s)" "ds_emitted ?s < 256" "live_inv L ?s" using c by (simp_all add: live_inv_def)
    show "live_inv L s'" if "live_inv L s" "conn_wf (ds_c s)" "ds_emitted s < 256" "drain_step L s = Inl s'"
      for s s' :: "'a drain_state" using live_step[OF that(2,3,1)] that(4) by simp
    show "live_end L r s'" if "live_inv L s" "conn_wf (ds_c s)" "ds_emitted s < 256" "drain_step L s = Inr (r, s')"
      for s r and s' :: "'a drain_state" using live_step[OF that(2,3,1)] that(4) by simp
  qed
  then obtain r s' where l: "drain_loop L ?s = Some (r, s')" "live_end L r s'" by blast
  have d: "Connection_drainOutgoingDatagrams L c = Some
      (case r of Inl e \<Rightarrow> (Inl e, ds_c s')
       | Inr u \<Rightarrow> (Inr (ds_out s'), php_quic_connection_sync_state L (ds_c s')))"
    using c(2,3) l(1) by (auto simp: Connection_drainOutgoingDatagrams_def split: sum.split)
  have idle: "\<forall>sid entry. zend_hash_find (c_streams c') sid = Some entry \<and> \<not> se_closed entry \<and> \<not> se_reset entry \<longrightarrow>
        unsent entry = '''' \<and> \<not> se_fin_pending entry" if "tx_wanted_set c' = {}" for c' :: "'a php_quic_connection"
    using that by (auto simp: tx_wanted_set_def tx_wanted_def unsent_Nil_iff not_less)
  show ?thesis
  proof (cases r)
    case (Inl err)
    with d show ?thesis by simp
  next
    case (Inr u)
    with l(2) consider "length (ds_out s') = 256"
      | "tx_wanted_set (php_quic_connection_sync_state L (ds_c s')) = {}"
      | n' where "c_conn (ds_c s') = Some n'" "stalled L n'"
      by (auto simp: live_end_def)
    then show ?thesis using idle[of "php_quic_connection_sync_state L (ds_c s')"] d Inr by cases (simp, force, simp)
  qed
qed

text \<open>A connection with five bytes to send on a stream.\<close>

definition waiting_connection :: "sample_conn php_quic_connection" where
  "waiting_connection =
     put_stream_entry sample_connection 0 ((php_quic_stream_entry_alloc 0)\<lparr>se_tx_buffer := Some ''hello''\<rparr>)"

theorem drain_progress_witness:
  "stream_unsent waiting_connection 0 = ''hello'' \<and>
   (\<exists>r c'. Connection_drainOutgoingDatagrams sample_ngtcp2 waiting_connection = Some (r, c') \<and>
    (\<forall>out. r = Inr out \<longrightarrow> length out = 256 \<or>
       (\<forall>sid entry. zend_hash_find (c_streams c') sid = Some entry \<and> \<not> se_closed entry \<and> \<not> se_reset entry \<longrightarrow>
          unsent entry = '''' \<and> \<not> se_fin_pending entry) \<or>
       (\<exists>n'. c_conn c' = Some n' \<and> stalled sample_ngtcp2 n')))"
proof
  show "stream_unsent waiting_connection 0 = ''hello''"
    by (simp add: stream_unsent_def waiting_connection_def put_entry_find unsent_def php_quic_stream_entry_alloc_def)
  have "conn_wf waiting_connection" unfolding waiting_connection_def
    by (intro put_entry_wf sample_connection_wf) (simp_all add: entry_wf_def php_quic_stream_entry_alloc_def)
  moreover have "c_conn waiting_connection = Some (8, [])"
    "\<not> (c_close_requested waiting_connection \<and> \<not> c_close_packet_sent waiting_connection)"
    by (simp_all add: waiting_connection_def)
  ultimately show "\<exists>r c'. Connection_drainOutgoingDatagrams sample_ngtcp2 waiting_connection = Some (r, c') \<and>
    (\<forall>out. r = Inr out \<longrightarrow> length out = 256 \<or>
       (\<forall>sid entry. zend_hash_find (c_streams c') sid = Some entry \<and> \<not> se_closed entry \<and> \<not> se_reset entry \<longrightarrow>
          unsent entry = '''' \<and> \<not> se_fin_pending entry) \<or>
       (\<exists>n'. c_conn c' = Some n' \<and> stalled sample_ngtcp2 n'))"
    by (rule drain_progress[OF sample_writes_bounded])
qed

end
