(* ===== verification/Quic_Zend.thy ===== *)
theory Quic_Zend
  imports Quic_Prelude
begin

text \<open>
  The interface of the PHP engine that the extension declares itself through: argument tables
  (\<^verbatim>\<open>arginfo\<close>), parameter parsing (\<^verbatim>\<open>ZEND_PARSE_PARAMETERS\<close> and the
  \<^verbatim>\<open>Z_PARAM\<close> macros), function tables, class registration with inheritance,
  object handlers. The macros are the definitions of the same names.

  A value of a scalar type that an argument does not have exactly is converted by the engine
  when the caller is in weak mode. Those rules are the engine's: they are the parameter
  \<open>weak\<close>, which gives the converted value or refuses; in strict mode it always refuses.
\<close>

subsection \<open>Values and types\<close>

text \<open>A \<^verbatim>\<open>double\<close> is its bit pattern; of an object only its class matters here.\<close>

datatype php_value =
    P_null | P_bool bool | P_long zend_long | P_double u64 | P_string zstring
  | P_array "php_value list" | P_object string

datatype scalar_type = IS_LONG | IS_STRING | IS_BOOL

datatype php_type = Scalar_type scalar_type | IS_ARRAY | IS_OBJECT string

type_synonym weak_mode = "scalar_type \<Rightarrow> php_value \<Rightarrow> php_value option"

definition strict_types :: weak_mode where
  "strict_types t v = None"

fun scalar_matches :: "scalar_type \<Rightarrow> php_value \<Rightarrow> bool" where
  "scalar_matches IS_LONG (P_long _) = True"
| "scalar_matches IS_STRING (P_string _) = True"
| "scalar_matches IS_BOOL (P_bool _) = True"
| "scalar_matches _ _ = False"

subsection \<open>Argument tables\<close>

record zend_arg_info =
  arg_name :: string
  arg_type :: php_type
  arg_allow_null :: bool
  arg_default :: "string option"

record zend_return_info =
  ret_type :: php_type
  ret_allow_null :: bool

record zend_arginfo =
  required_num_args :: nat
  return_info :: "zend_return_info option"
  arg_infos :: "zend_arg_info list"

text \<open>
  The macros that open a table (without and with a return type) and those of its rows. The flags
  for passing and returning by reference are 0 in all uses and are left out.
\<close>

definition ARG_INFO_EX :: "nat \<Rightarrow> zend_arg_info list \<Rightarrow> zend_arginfo" where
  "ARG_INFO_EX required args =
     \<lparr>required_num_args = required, return_info = None, arg_infos = args\<rparr>"

definition ARG_WITH_RETURN_TYPE_INFO_EX ::
  "nat \<Rightarrow> php_type \<Rightarrow> bool \<Rightarrow> zend_arg_info list \<Rightarrow> zend_arginfo" where
  "ARG_WITH_RETURN_TYPE_INFO_EX required t allow_null args =
     \<lparr>required_num_args = required,
      return_info = Some \<lparr>ret_type = t, ret_allow_null = allow_null\<rparr>, arg_infos = args\<rparr>"

definition ARG_WITH_RETURN_OBJ_INFO_EX ::
  "nat \<Rightarrow> string \<Rightarrow> bool \<Rightarrow> zend_arg_info list \<Rightarrow> zend_arginfo" where
  "ARG_WITH_RETURN_OBJ_INFO_EX required c allow_null args =
     ARG_WITH_RETURN_TYPE_INFO_EX required (IS_OBJECT c) allow_null args"

definition ARG_TYPE_INFO :: "string \<Rightarrow> scalar_type \<Rightarrow> bool \<Rightarrow> zend_arg_info" where
  "ARG_TYPE_INFO n t allow_null =
     \<lparr>arg_name = n, arg_type = Scalar_type t, arg_allow_null = allow_null, arg_default = None\<rparr>"

definition ARG_TYPE_INFO_WITH_DEFAULT_VALUE ::
  "string \<Rightarrow> scalar_type \<Rightarrow> bool \<Rightarrow> string \<Rightarrow> zend_arg_info" where
  "ARG_TYPE_INFO_WITH_DEFAULT_VALUE n t allow_null d =
     \<lparr>arg_name = n, arg_type = Scalar_type t, arg_allow_null = allow_null, arg_default = Some d\<rparr>"

definition ARG_OBJ_INFO :: "string \<Rightarrow> string \<Rightarrow> bool \<Rightarrow> zend_arg_info" where
  "ARG_OBJ_INFO n c allow_null =
     \<lparr>arg_name = n, arg_type = IS_OBJECT c, arg_allow_null = allow_null, arg_default = None\<rparr>"

definition ARG_OBJ_INFO_WITH_DEFAULT_VALUE ::
  "string \<Rightarrow> string \<Rightarrow> bool \<Rightarrow> string \<Rightarrow> zend_arg_info" where
  "ARG_OBJ_INFO_WITH_DEFAULT_VALUE n c allow_null d =
     \<lparr>arg_name = n, arg_type = IS_OBJECT c, arg_allow_null = allow_null, arg_default = Some d\<rparr>"

lemmas arginfo_macros =
  ARG_INFO_EX_def ARG_WITH_RETURN_TYPE_INFO_EX_def ARG_WITH_RETURN_OBJ_INFO_EX_def
  ARG_TYPE_INFO_def ARG_TYPE_INFO_WITH_DEFAULT_VALUE_def ARG_OBJ_INFO_def
  ARG_OBJ_INFO_WITH_DEFAULT_VALUE_def

subsection \<open>Parameter parsing\<close>

text \<open>
  The rows of a \<^verbatim>\<open>ZEND_PARSE_PARAMETERS\<close> block, over the class entry variables
  \<open>'ce\<close> they name, and what a method body does with its arguments: a block with the smallest and
  largest count, \<^verbatim>\<open>ZEND_PARSE_PARAMETERS_NONE\<close>, or nothing at all.
\<close>

datatype 'ce z_param =
    Z_PARAM_OPTIONAL
  | Z_PARAM_STR | Z_PARAM_STR_OR_NULL
  | Z_PARAM_LONG | Z_PARAM_LONG_OR_NULL
  | Z_PARAM_BOOL
  | Z_PARAM_OBJECT_OF_CLASS 'ce | Z_PARAM_OBJECT_OF_CLASS_OR_NULL 'ce

datatype 'ce zpp =
    ZEND_PARSE_PARAMETERS nat nat "'ce z_param list"
  | ZEND_PARSE_PARAMETERS_NONE
  | No_parsing

datatype zpp_result =
    Zpp_ok "php_value list"
  | Zpp_wrong_count
  | Zpp_wrong_arg nat
  | Zpp_overrun

definition fetch_scalar :: "weak_mode \<Rightarrow> scalar_type \<Rightarrow> php_value \<Rightarrow> php_value option" where
  "fetch_scalar weak t v = (if scalar_matches t v then Some v else weak t v)"

definition fetch_or_null :: "(php_value \<Rightarrow> php_value option) \<Rightarrow> php_value \<Rightarrow> php_value option" where
  "fetch_or_null fetch v = (if v = P_null then Some P_null else fetch v)"

text \<open>\<open>isa c d\<close> stands for the engine's \<^verbatim>\<open>instanceof_function\<close> on class names.\<close>

definition fetch_object :: "(string \<Rightarrow> string \<Rightarrow> bool) \<Rightarrow> string option \<Rightarrow> php_value \<Rightarrow> php_value option"
  where
  "fetch_object isa ce v =
     (case (v, ce) of (P_object c, Some d) \<Rightarrow> if isa c d then Some v else None | _ \<Rightarrow> None)"

fun z_fetch ::
  "weak_mode \<Rightarrow> (string \<Rightarrow> string \<Rightarrow> bool) \<Rightarrow> ('ce \<Rightarrow> string option) \<Rightarrow> 'ce z_param \<Rightarrow> php_value \<Rightarrow>
   php_value option" where
  "z_fetch weak isa ces Z_PARAM_STR v = fetch_scalar weak IS_STRING v"
| "z_fetch weak isa ces Z_PARAM_STR_OR_NULL v = fetch_or_null (fetch_scalar weak IS_STRING) v"
| "z_fetch weak isa ces Z_PARAM_LONG v = fetch_scalar weak IS_LONG v"
| "z_fetch weak isa ces Z_PARAM_LONG_OR_NULL v = fetch_or_null (fetch_scalar weak IS_LONG) v"
| "z_fetch weak isa ces Z_PARAM_BOOL v = fetch_scalar weak IS_BOOL v"
| "z_fetch weak isa ces (Z_PARAM_OBJECT_OF_CLASS ce) v = fetch_object isa (ces ce) v"
| "z_fetch weak isa ces (Z_PARAM_OBJECT_OF_CLASS_OR_NULL ce) v =
     fetch_or_null (fetch_object isa (ces ce)) v"
| "z_fetch weak isa ces Z_PARAM_OPTIONAL v = None"

text \<open>
  The rows run in order over the arguments passed. After \<^verbatim>\<open>Z_PARAM_OPTIONAL\<close> a row with
  no argument left ends the block; before it, it would read past the arguments
  (\<open>Zpp_overrun\<close>). A refused argument is reported with its number.
\<close>

fun zpp_rows ::
  "weak_mode \<Rightarrow> (string \<Rightarrow> string \<Rightarrow> bool) \<Rightarrow> ('ce \<Rightarrow> string option) \<Rightarrow> bool \<Rightarrow> nat \<Rightarrow> 'ce z_param list \<Rightarrow>
   php_value list \<Rightarrow> php_value list \<Rightarrow> zpp_result" where
  "zpp_rows weak isa ces optional i [] args acc = Zpp_ok (rev acc)"
| "zpp_rows weak isa ces optional i (Z_PARAM_OPTIONAL # ps) args acc =
     zpp_rows weak isa ces True i ps args acc"
| "zpp_rows weak isa ces optional i (p # ps) [] acc =
     (if optional then Zpp_ok (rev acc) else Zpp_overrun)"
| "zpp_rows weak isa ces optional i (p # ps) (v # args) acc =
     (case z_fetch weak isa ces p v of
        None \<Rightarrow> Zpp_wrong_arg (Suc i)
      | Some x \<Rightarrow> zpp_rows weak isa ces optional (Suc i) ps args (x # acc))"

fun zend_parse ::
  "weak_mode \<Rightarrow> (string \<Rightarrow> string \<Rightarrow> bool) \<Rightarrow> ('ce \<Rightarrow> string option) \<Rightarrow> 'ce zpp \<Rightarrow> php_value list \<Rightarrow>
   zpp_result" where
  "zend_parse weak isa ces (ZEND_PARSE_PARAMETERS mn mx ps) args =
     (if length args < mn \<or> mx < length args then Zpp_wrong_count
      else zpp_rows weak isa ces False 0 ps args [])"
| "zend_parse weak isa ces ZEND_PARSE_PARAMETERS_NONE args =
     (if args = [] then Zpp_ok [] else Zpp_wrong_count)"
| "zend_parse weak isa ces No_parsing args = Zpp_ok []"

subsection \<open>Calls against their argument table\<close>

text \<open>
  The rule by which the engine decides, from the table alone, whether a call of a built-in
  method has to fail (\<^verbatim>\<open>zend_internal_call_should_throw\<close>): too few or too many
  arguments, or an argument that does not have its declared type. A debug build of the engine
  stops when the method does not then throw.
\<close>

definition arg_accepts ::
  "weak_mode \<Rightarrow> (string \<Rightarrow> string \<Rightarrow> bool) \<Rightarrow> zend_arg_info \<Rightarrow> php_value \<Rightarrow> bool" where
  "arg_accepts weak isa a v \<longleftrightarrow>
     (arg_allow_null a \<and> v = P_null) \<or>
     (case arg_type a of
        Scalar_type t \<Rightarrow> scalar_matches t v \<or> weak t v \<noteq> None
      | IS_ARRAY \<Rightarrow> (case v of P_array _ \<Rightarrow> True | _ \<Rightarrow> False)
      | IS_OBJECT d \<Rightarrow> (case v of P_object c \<Rightarrow> isa c d | _ \<Rightarrow> False))"

definition call_should_throw ::
  "weak_mode \<Rightarrow> (string \<Rightarrow> string \<Rightarrow> bool) \<Rightarrow> zend_arginfo \<Rightarrow> php_value list \<Rightarrow> bool" where
  "call_should_throw weak isa info args \<longleftrightarrow>
     length args < required_num_args info \<or>
     length (arg_infos info) < length args \<or>
     (\<exists>(a, v) \<in> set (zip (arg_infos info) args). \<not> arg_accepts weak isa a v)"

text \<open>
  When a row of a parsing block agrees with a row of an argument table, and when a block agrees
  with a table: as many rows, pairwise in agreement, as many arguments required, and the optional
  rows exactly those after the required ones.
\<close>

fun row_agrees :: "('ce \<Rightarrow> string option) \<Rightarrow> zend_arg_info \<Rightarrow> 'ce z_param \<Rightarrow> bool" where
  "row_agrees ces a Z_PARAM_STR = (arg_type a = Scalar_type IS_STRING \<and> \<not> arg_allow_null a)"
| "row_agrees ces a Z_PARAM_STR_OR_NULL = (arg_type a = Scalar_type IS_STRING \<and> arg_allow_null a)"
| "row_agrees ces a Z_PARAM_LONG = (arg_type a = Scalar_type IS_LONG \<and> \<not> arg_allow_null a)"
| "row_agrees ces a Z_PARAM_LONG_OR_NULL = (arg_type a = Scalar_type IS_LONG \<and> arg_allow_null a)"
| "row_agrees ces a Z_PARAM_BOOL = (arg_type a = Scalar_type IS_BOOL \<and> \<not> arg_allow_null a)"
| "row_agrees ces a (Z_PARAM_OBJECT_OF_CLASS ce) =
     (\<not> arg_allow_null a \<and>
      (case ces ce of None \<Rightarrow> False | Some c \<Rightarrow> arg_type a = IS_OBJECT c))"
| "row_agrees ces a (Z_PARAM_OBJECT_OF_CLASS_OR_NULL ce) =
     (arg_allow_null a \<and>
      (case ces ce of None \<Rightarrow> False | Some c \<Rightarrow> arg_type a = IS_OBJECT c))"
| "row_agrees ces a Z_PARAM_OPTIONAL = False"

fun rows_agree :: "('ce \<Rightarrow> string option) \<Rightarrow> nat \<Rightarrow> zend_arg_info list \<Rightarrow> 'ce z_param list \<Rightarrow> bool" where
  "rows_agree ces required [] ps = (ps = [] \<and> required = 0)"
| "rows_agree ces (Suc required) (a # as) (p # ps) =
     (row_agrees ces a p \<and> rows_agree ces required as ps)"
| "rows_agree ces 0 (a # as) (Z_PARAM_OPTIONAL # ps) = list_all2 (row_agrees ces) (a # as) ps"
| "rows_agree ces _ (_ # _) _ = False"

fun block_agrees :: "('ce \<Rightarrow> string option) \<Rightarrow> zend_arginfo \<Rightarrow> 'ce zpp \<Rightarrow> bool" where
  "block_agrees ces info (ZEND_PARSE_PARAMETERS mn mx ps) =
     (mn = required_num_args info \<and> mx = length (arg_infos info) \<and>
      rows_agree ces (required_num_args info) (arg_infos info) ps)"
| "block_agrees ces info ZEND_PARSE_PARAMETERS_NONE =
     (required_num_args info = 0 \<and> arg_infos info = [])"
| "block_agrees ces info No_parsing = (required_num_args info = 0 \<and> arg_infos info = [])"

subsection \<open>A block that agrees with its table accepts the same calls\<close>

lemma row_agrees_fetch:
  assumes "row_agrees ces a p"
  shows "z_fetch weak isa ces p v \<noteq> None \<longleftrightarrow> arg_accepts weak isa a v"
  using assms
  by (cases p; cases v)
    (auto simp: fetch_scalar_def fetch_or_null_def fetch_object_def arg_accepts_def
          split: if_splits option.splits)

lemma row_agrees_not_optional: "row_agrees ces a p \<Longrightarrow> p \<noteq> Z_PARAM_OPTIONAL"
  by (cases p) auto

lemma row_agrees_step:
  assumes "row_agrees ces a p"
  shows "zpp_rows weak isa ces opt i (p # ps) (v # args) acc =
     (if arg_accepts weak isa a v
      then zpp_rows weak isa ces opt (Suc i) ps args (the (z_fetch weak isa ces p v) # acc)
      else Zpp_wrong_arg (Suc i))"
  using row_agrees_fetch [OF assms, of weak isa v] row_agrees_not_optional [OF assms]
  by (cases p) (auto split: option.splits)

lemma row_agrees_end:
  assumes "row_agrees ces a p"
  shows "zpp_rows weak isa ces opt i (p # ps) [] acc = (if opt then Zpp_ok (rev acc) else Zpp_overrun)"
  using row_agrees_not_optional [OF assms] by (cases p) auto

definition parse_matches :: "zpp_result \<Rightarrow> bool \<Rightarrow> bool" where
  "parse_matches r ok \<longleftrightarrow> r \<noteq> Zpp_overrun \<and> ((\<exists>xs. r = Zpp_ok xs) \<longleftrightarrow> ok)"

lemma parse_matches_simps [simp]:
  "parse_matches (Zpp_ok xs) ok = ok"
  "parse_matches (Zpp_wrong_arg n) ok = (\<not> ok)"
  "parse_matches Zpp_wrong_count ok = (\<not> ok)"
  by (auto simp: parse_matches_def)

lemma optional_rows_match:
  assumes "list_all2 (row_agrees ces) as ps" and "length args \<le> length as"
  shows "parse_matches (zpp_rows weak isa ces True i ps args acc)
           (list_all (\<lambda>(a, v). arg_accepts weak isa a v) (zip as args))"
  using assms
proof (induction as ps arbitrary: i args acc rule: list_all2_induct)
  case Nil
  then show ?case by simp
next
  case (Cons a as p ps)
  show ?case
  proof (cases args)
    case Nil
    then show ?thesis using Cons.hyps by (simp add: row_agrees_end)
  next
    case (Cons v vs)
    then show ?thesis using Cons.hyps Cons.IH [of vs] Cons.prems by (simp add: row_agrees_step)
  qed
qed

lemma required_rows_match:
  assumes "rows_agree ces required as ps" and "required \<le> length args" and "length args \<le> length as"
  shows "parse_matches (zpp_rows weak isa ces False i ps args acc)
           (list_all (\<lambda>(a, v). arg_accepts weak isa a v) (zip as args))"
  using assms
proof (induction ces required as ps arbitrary: i args acc rule: rows_agree.induct)
  case (2 ces required a as p ps)
  then obtain v vs where "args = v # vs" by (cases args) auto
  moreover have "row_agrees ces a p" and "rows_agree ces required as ps"
    using "2.prems" by simp_all
  ultimately show ?case using "2.IH" "2.prems" by (simp add: row_agrees_step)
next
  case (3 ces a as ps)
  then show ?case using optional_rows_match [where as = "a # as"] by simp
qed simp_all

lemma list_all_zip_not_ex:
  "list_all (\<lambda>(a, v). P a v) (zip as vs) \<longleftrightarrow> \<not> (\<exists>(a, v) \<in> set (zip as vs). \<not> P a v)"
  by (auto simp: list_all_iff)

lemma block_agrees_parse:
  assumes "block_agrees ces info z" and "z \<noteq> No_parsing"
  shows "parse_matches (zend_parse weak isa ces z args) (\<not> call_should_throw weak isa info args)"
proof (cases z)
  case (ZEND_PARSE_PARAMETERS mn mx ps)
  then show ?thesis
    using assms required_rows_match [of ces mn "arg_infos info" ps args weak isa 0 "[]"]
    by (auto simp: call_should_throw_def list_all_zip_not_ex)
next
  case ZEND_PARSE_PARAMETERS_NONE
  then show ?thesis using assms by (auto simp: call_should_throw_def)
qed (use assms in simp)

subsection \<open>Classes\<close>

text \<open>
  A row of a method table: \<^verbatim>\<open>PHP_ME(prefix, name, arginfo, flags)\<close>. The handler is the C
  function \<^verbatim>\<open>zim_prefix_name\<close> that \<^verbatim>\<open>PHP_METHOD(prefix, name)\<close> defines.
\<close>

datatype access_flag = ZEND_ACC_PUBLIC | ZEND_ACC_STATIC | ZEND_ACC_FINAL

record zend_function_entry =
  fe_name :: string
  fe_handler :: "string \<times> string"
  fe_arginfo :: zend_arginfo
  fe_flags :: "access_flag list"

definition PHP_ME ::
  "string \<Rightarrow> string \<Rightarrow> zend_arginfo \<Rightarrow> access_flag list \<Rightarrow> zend_function_entry" where
  "PHP_ME c n info flags =
     \<lparr>fe_name = n, fe_handler = (c, n), fe_arginfo = info, fe_flags = flags\<rparr>"

text \<open>
  A registered class: its parent, the methods it declares and inherits, the
  \<^verbatim>\<open>create_object\<close> function (named by the C structure \<open>'s\<close> it allocates, \<open>None\<close> for the
  engine's own), whether it is abstract, and its constants. Class and method names are compared
  without case by the engine; no two names here differ by case only.
\<close>

record 's zend_class =
  ce_name :: string
  ce_parent :: "string option"
  ce_functions :: "zend_function_entry list"
  ce_create_object :: "'s option"
  ce_abstract :: bool
  ce_constants :: "(string \<times> zend_long) list"

definition INIT_NS_CLASS_ENTRY :: "string \<Rightarrow> string \<Rightarrow> zend_function_entry list \<Rightarrow> 's zend_class" where
  "INIT_NS_CLASS_ENTRY ns n functions =
     \<lparr>ce_name = ns @ CHR 0x5C # n, ce_parent = None, ce_functions = functions,
      ce_create_object = None, ce_abstract = False, ce_constants = []\<rparr>"

text \<open>
  \<^verbatim>\<open>zend_do_inheritance\<close>: the child gets the parent's \<^verbatim>\<open>create_object\<close>, the methods
  it does not declare itself, and the constants.
\<close>

definition zend_do_inheritance :: "'s zend_class \<Rightarrow> 's zend_class \<Rightarrow> 's zend_class" where
  "zend_do_inheritance ce parent =
     ce\<lparr>ce_parent := Some (ce_name parent),
        ce_functions := ce_functions ce @
          [f \<leftarrow> ce_functions parent. fe_name f \<notin> fe_name ` set (ce_functions ce)],
        ce_create_object := ce_create_object parent,
        ce_constants := ce_constants ce @ ce_constants parent\<rparr>"

text \<open>The class table, newest class first, and lookups in it.\<close>

definition find_class :: "'s zend_class list \<Rightarrow> string \<Rightarrow> 's zend_class option" where
  "find_class table c = List.find (\<lambda>ce. ce_name ce = c) table"

fun instanceof :: "'s zend_class list \<Rightarrow> string \<Rightarrow> string \<Rightarrow> bool" where
  "instanceof [] c d = (c = d)"
| "instanceof (ce # table) c d =
     (if c = d then True
      else if ce_name ce = c
           then (case ce_parent ce of None \<Rightarrow> False | Some p \<Rightarrow> instanceof table p d)
      else instanceof table c d)"

definition update_class :: "'s zend_class list \<Rightarrow> string \<Rightarrow> ('s zend_class \<Rightarrow> 's zend_class) \<Rightarrow>
    's zend_class list" where
  "update_class table c f = List.map (\<lambda>ce. if ce_name ce = c then f ce else ce) table"

text \<open>
  The handlers of an object: the offset of the \<^verbatim>\<open>zend_object\<close> inside its structure (\<open>None\<close>
  for 0, no structure around it), what frees it (\<open>None\<close> for the engine's own function), and
  whether \<^verbatim>\<open>clone\<close> is still the engine's \<^verbatim>\<open>zend_objects_clone_obj\<close>, which
  allocates a bare \<^verbatim>\<open>zend_object\<close> whatever the class.
\<close>

record 's zend_object_handlers =
  oh_offset :: "'s option"
  oh_free_obj :: "'s option"
  oh_clone_std :: bool

definition std_object_handlers :: "'s zend_object_handlers" where
  "std_object_handlers = \<lparr>oh_offset = None, oh_free_obj = None, oh_clone_std = True\<rparr>"

end
