(* ===== verification/Quic_Arginfo.thy ===== *)
theory Quic_Arginfo
  imports Quic_Zend
begin

text \<open>
  The declared interface of the extension's classes: the argument tables and method tables of
  \<^verbatim>\<open>src/address.c\<close>, \<^verbatim>\<open>src/datagram.c\<close>, \<^verbatim>\<open>src/event.c\<close>,
  \<^verbatim>\<open>src/connection.c\<close>, \<^verbatim>\<open>src/server_connection.c\<close>,
  \<^verbatim>\<open>src/server_endpoint.c\<close> and \<^verbatim>\<open>src/stream.c\<close>, and beside them what the
  methods parse. What the methods do is modelled in the theories of their components.
\<close>

text \<open>The class entry variables of the extension.\<close>

datatype class_var =
    php_quic_address_ce | php_quic_datagram_ce
  | php_quic_event_ce | php_quic_connection_event_ce | php_quic_stream_event_ce
  | php_quic_terminal_stream_event_ce | php_quic_handshake_completed_ce
  | php_quic_connection_closed_ce | php_quic_connection_draining_ce | php_quic_stream_opened_ce
  | php_quic_stream_readable_ce | php_quic_stream_writable_ce | php_quic_stream_closed_ce
  | php_quic_stream_reset_ce
  | php_quic_client_config_ce | php_quic_connection_ce
  | php_quic_server_config_ce | php_quic_server_connection_ce
  | php_quic_server_endpoint_ce | php_quic_stream_ce

text \<open>Names in the namespace \<^verbatim>\<open>Varion\Ngtcp2\<close> and in that of the events.\<close>

definition ngtcp2_ns :: string where
  "ngtcp2_ns = ''Varion'' @ CHR 0x5C # ''Ngtcp2''"

definition events_ns :: string where
  "events_ns = ''Varion'' @ CHR 0x5C # ''Nghttp2'' @ CHR 0x5C # ''Events''"

definition ngtcp2_class :: "string \<Rightarrow> string" where
  "ngtcp2_class n = ngtcp2_ns @ CHR 0x5C # n"

subsection \<open>\<^verbatim>\<open>src/address.c\<close>\<close>

definition arginfo_address_construct :: zend_arginfo where
  "arginfo_address_construct =
     ARG_INFO_EX 2 [
     ARG_TYPE_INFO ''host'' IS_STRING False,
     ARG_TYPE_INFO ''port'' IS_LONG False]"

definition arginfo_address_get_host :: zend_arginfo where
  "arginfo_address_get_host =
     ARG_WITH_RETURN_TYPE_INFO_EX 0 (Scalar_type IS_STRING) False []"

definition arginfo_address_get_port :: zend_arginfo where
  "arginfo_address_get_port =
     ARG_WITH_RETURN_TYPE_INFO_EX 0 (Scalar_type IS_LONG) False []"

definition arginfo_address_from_string :: zend_arginfo where
  "arginfo_address_from_string =
     ARG_WITH_RETURN_OBJ_INFO_EX 1 (ngtcp2_class ''Address'') False [
     ARG_TYPE_INFO ''endpoint'' IS_STRING False]"

definition php_quic_address_methods :: "zend_function_entry list" where
  "php_quic_address_methods =
    [PHP_ME ''Ngtcp2_Address'' ''__construct'' arginfo_address_construct
       [ZEND_ACC_PUBLIC],
     PHP_ME ''Ngtcp2_Address'' ''fromString'' arginfo_address_from_string
       [ZEND_ACC_PUBLIC, ZEND_ACC_STATIC],
     PHP_ME ''Ngtcp2_Address'' ''getHost'' arginfo_address_get_host
       [ZEND_ACC_PUBLIC],
     PHP_ME ''Ngtcp2_Address'' ''getPort'' arginfo_address_get_port
       [ZEND_ACC_PUBLIC]]"

subsection \<open>\<^verbatim>\<open>src/datagram.c\<close>\<close>

definition arginfo_datagram_construct :: zend_arginfo where
  "arginfo_datagram_construct =
     ARG_INFO_EX 2 [
     ARG_TYPE_INFO ''payload'' IS_STRING False,
     ARG_OBJ_INFO ''peerAddress'' (ngtcp2_class ''Address'') False,
     ARG_OBJ_INFO_WITH_DEFAULT_VALUE ''localAddress'' (ngtcp2_class ''Address'') True ''null'',
     ARG_TYPE_INFO_WITH_DEFAULT_VALUE ''ecn'' IS_LONG True ''null'',
     ARG_TYPE_INFO_WITH_DEFAULT_VALUE ''receivedAt'' IS_LONG True ''null'']"

definition arginfo_datagram_get_payload :: zend_arginfo where
  "arginfo_datagram_get_payload =
     ARG_WITH_RETURN_TYPE_INFO_EX 0 (Scalar_type IS_STRING) False []"

definition arginfo_datagram_get_peer :: zend_arginfo where
  "arginfo_datagram_get_peer =
     ARG_WITH_RETURN_OBJ_INFO_EX 0 (ngtcp2_class ''Address'') False []"

definition arginfo_datagram_get_local :: zend_arginfo where
  "arginfo_datagram_get_local =
     ARG_WITH_RETURN_OBJ_INFO_EX 0 (ngtcp2_class ''Address'') True []"

definition arginfo_datagram_get_ecn :: zend_arginfo where
  "arginfo_datagram_get_ecn =
     ARG_WITH_RETURN_TYPE_INFO_EX 0 (Scalar_type IS_LONG) True []"

definition arginfo_datagram_get_received_at :: zend_arginfo where
  "arginfo_datagram_get_received_at =
     ARG_WITH_RETURN_TYPE_INFO_EX 0 (Scalar_type IS_LONG) True []"

definition php_quic_datagram_methods :: "zend_function_entry list" where
  "php_quic_datagram_methods =
    [PHP_ME ''Ngtcp2_Datagram'' ''__construct'' arginfo_datagram_construct
       [ZEND_ACC_PUBLIC],
     PHP_ME ''Ngtcp2_Datagram'' ''getPayload'' arginfo_datagram_get_payload
       [ZEND_ACC_PUBLIC],
     PHP_ME ''Ngtcp2_Datagram'' ''getPeerAddress'' arginfo_datagram_get_peer
       [ZEND_ACC_PUBLIC],
     PHP_ME ''Ngtcp2_Datagram'' ''getLocalAddress'' arginfo_datagram_get_local
       [ZEND_ACC_PUBLIC],
     PHP_ME ''Ngtcp2_Datagram'' ''getEcn'' arginfo_datagram_get_ecn
       [ZEND_ACC_PUBLIC],
     PHP_ME ''Ngtcp2_Datagram'' ''getReceivedAt'' arginfo_datagram_get_received_at
       [ZEND_ACC_PUBLIC]]"

subsection \<open>\<^verbatim>\<open>src/event.c\<close>\<close>

definition arginfo_event_construct :: zend_arginfo where
  "arginfo_event_construct =
     ARG_INFO_EX 1 [
     ARG_TYPE_INFO ''type'' IS_LONG False,
     ARG_TYPE_INFO_WITH_DEFAULT_VALUE ''streamId'' IS_LONG False ''-1'',
     ARG_TYPE_INFO_WITH_DEFAULT_VALUE ''errorCode'' IS_LONG False ''0'',
     ARG_TYPE_INFO_WITH_DEFAULT_VALUE ''byPeer'' IS_BOOL False ''false'',
     ARG_TYPE_INFO_WITH_DEFAULT_VALUE ''reason'' IS_STRING False [CHR 0x22, CHR 0x22]]"

definition arginfo_event_get_type :: zend_arginfo where
  "arginfo_event_get_type =
     ARG_WITH_RETURN_TYPE_INFO_EX 0 (Scalar_type IS_LONG) False []"

definition arginfo_event_get_stream_id :: zend_arginfo where
  "arginfo_event_get_stream_id =
     ARG_WITH_RETURN_TYPE_INFO_EX 0 (Scalar_type IS_LONG) False []"

definition arginfo_event_get_error_code :: zend_arginfo where
  "arginfo_event_get_error_code =
     ARG_WITH_RETURN_TYPE_INFO_EX 0 (Scalar_type IS_LONG) False []"

definition arginfo_event_is_by_peer :: zend_arginfo where
  "arginfo_event_is_by_peer =
     ARG_WITH_RETURN_TYPE_INFO_EX 0 (Scalar_type IS_BOOL) False []"

definition arginfo_event_get_reason :: zend_arginfo where
  "arginfo_event_get_reason =
     ARG_WITH_RETURN_TYPE_INFO_EX 0 (Scalar_type IS_STRING) False []"

definition arginfo_event_get_timestamp :: zend_arginfo where
  "arginfo_event_get_timestamp =
     ARG_WITH_RETURN_TYPE_INFO_EX 0 (Scalar_type IS_LONG) False []"

definition php_quic_event_methods :: "zend_function_entry list" where
  "php_quic_event_methods =
    [PHP_ME ''Ngtcp2_Event'' ''__construct'' arginfo_event_construct
       [ZEND_ACC_PUBLIC],
     PHP_ME ''Ngtcp2_Event'' ''getType'' arginfo_event_get_type
       [ZEND_ACC_PUBLIC],
     PHP_ME ''Ngtcp2_Event'' ''getStreamId'' arginfo_event_get_stream_id
       [ZEND_ACC_PUBLIC],
     PHP_ME ''Ngtcp2_Event'' ''getErrorCode'' arginfo_event_get_error_code
       [ZEND_ACC_PUBLIC],
     PHP_ME ''Ngtcp2_Event'' ''isByPeer'' arginfo_event_is_by_peer
       [ZEND_ACC_PUBLIC],
     PHP_ME ''Ngtcp2_Event'' ''getReason'' arginfo_event_get_reason
       [ZEND_ACC_PUBLIC],
     PHP_ME ''Ngtcp2_Event'' ''getTimestamp'' arginfo_event_get_timestamp
       [ZEND_ACC_PUBLIC]]"

subsection \<open>\<^verbatim>\<open>src/connection.c\<close>\<close>

definition arginfo_client_config_construct :: zend_arginfo where
  "arginfo_client_config_construct =
     ARG_INFO_EX 0 [
     ARG_OBJ_INFO_WITH_DEFAULT_VALUE ''localAddress'' (ngtcp2_class ''Address'') True ''null'',
     ARG_TYPE_INFO_WITH_DEFAULT_VALUE ''serverName'' IS_STRING True ''null'',
     ARG_TYPE_INFO_WITH_DEFAULT_VALUE ''alpn'' IS_STRING True ''null'']"

definition arginfo_client_config_with_local_address :: zend_arginfo where
  "arginfo_client_config_with_local_address =
     ARG_WITH_RETURN_OBJ_INFO_EX 1 (ngtcp2_class ''ClientConfig'') False [
     ARG_OBJ_INFO_WITH_DEFAULT_VALUE ''localAddress'' (ngtcp2_class ''Address'') True ''null'']"

definition arginfo_client_config_with_server_name :: zend_arginfo where
  "arginfo_client_config_with_server_name =
     ARG_WITH_RETURN_OBJ_INFO_EX 1 (ngtcp2_class ''ClientConfig'') False [
     ARG_TYPE_INFO ''serverName'' IS_STRING True]"

definition arginfo_client_config_with_alpn :: zend_arginfo where
  "arginfo_client_config_with_alpn =
     ARG_WITH_RETURN_OBJ_INFO_EX 1 (ngtcp2_class ''ClientConfig'') False [
     ARG_TYPE_INFO ''alpn'' IS_STRING True]"

definition arginfo_client_config_get_local_address :: zend_arginfo where
  "arginfo_client_config_get_local_address =
     ARG_WITH_RETURN_OBJ_INFO_EX 0 (ngtcp2_class ''Address'') True []"

definition arginfo_client_config_get_server_name :: zend_arginfo where
  "arginfo_client_config_get_server_name =
     ARG_WITH_RETURN_TYPE_INFO_EX 0 (Scalar_type IS_STRING) True []"

definition arginfo_client_config_get_alpn :: zend_arginfo where
  "arginfo_client_config_get_alpn =
     ARG_WITH_RETURN_TYPE_INFO_EX 0 (Scalar_type IS_STRING) True []"

definition arginfo_connection_construct :: zend_arginfo where
  "arginfo_connection_construct =
     ARG_INFO_EX 1 [
     ARG_OBJ_INFO ''remoteAddress'' (ngtcp2_class ''Address'') False,
     ARG_OBJ_INFO_WITH_DEFAULT_VALUE ''config'' (ngtcp2_class ''ClientConfig'') True ''null'']"

definition arginfo_connection_recv :: zend_arginfo where
  "arginfo_connection_recv =
     ARG_INFO_EX 1 [
     ARG_OBJ_INFO ''datagram'' (ngtcp2_class ''Datagram'') False]"

definition arginfo_connection_no_args :: zend_arginfo where
  "arginfo_connection_no_args =
     ARG_INFO_EX 0 []"

definition arginfo_connection_get_next_timeout :: zend_arginfo where
  "arginfo_connection_get_next_timeout =
     ARG_WITH_RETURN_TYPE_INFO_EX 0 (Scalar_type IS_LONG) True []"

definition arginfo_connection_get_next_expiry :: zend_arginfo where
  "arginfo_connection_get_next_expiry =
     ARG_WITH_RETURN_TYPE_INFO_EX 0 (Scalar_type IS_LONG) True []"

definition arginfo_connection_drain_events :: zend_arginfo where
  "arginfo_connection_drain_events =
     ARG_WITH_RETURN_TYPE_INFO_EX 0 IS_ARRAY False []"

definition arginfo_connection_drain_outgoing_datagrams :: zend_arginfo where
  "arginfo_connection_drain_outgoing_datagrams =
     ARG_WITH_RETURN_TYPE_INFO_EX 0 IS_ARRAY False []"

definition arginfo_connection_open_stream :: zend_arginfo where
  "arginfo_connection_open_stream =
     ARG_WITH_RETURN_OBJ_INFO_EX 0 (ngtcp2_class ''Stream'') False []"

definition arginfo_connection_open_uni_stream :: zend_arginfo where
  "arginfo_connection_open_uni_stream =
     ARG_WITH_RETURN_OBJ_INFO_EX 0 (ngtcp2_class ''Stream'') False []"

definition arginfo_connection_get_stream :: zend_arginfo where
  "arginfo_connection_get_stream =
     ARG_WITH_RETURN_OBJ_INFO_EX 1 (ngtcp2_class ''Stream'') True [
     ARG_TYPE_INFO ''streamId'' IS_LONG False]"

definition arginfo_connection_close :: zend_arginfo where
  "arginfo_connection_close =
     ARG_INFO_EX 0 [
     ARG_TYPE_INFO_WITH_DEFAULT_VALUE ''errorCode'' IS_LONG False ''0'',
     ARG_TYPE_INFO_WITH_DEFAULT_VALUE ''reason'' IS_STRING False [CHR 0x22, CHR 0x22]]"

definition arginfo_connection_is_established :: zend_arginfo where
  "arginfo_connection_is_established =
     ARG_WITH_RETURN_TYPE_INFO_EX 0 (Scalar_type IS_BOOL) False []"

definition arginfo_connection_is_closed :: zend_arginfo where
  "arginfo_connection_is_closed =
     ARG_WITH_RETURN_TYPE_INFO_EX 0 (Scalar_type IS_BOOL) False []"

definition arginfo_connection_is_draining :: zend_arginfo where
  "arginfo_connection_is_draining =
     ARG_WITH_RETURN_TYPE_INFO_EX 0 (Scalar_type IS_BOOL) False []"

definition php_quic_client_config_methods :: "zend_function_entry list" where
  "php_quic_client_config_methods =
    [PHP_ME ''Ngtcp2_ClientConfig'' ''__construct'' arginfo_client_config_construct
       [ZEND_ACC_PUBLIC],
     PHP_ME ''Ngtcp2_ClientConfig'' ''withLocalAddress'' arginfo_client_config_with_local_address
       [ZEND_ACC_PUBLIC],
     PHP_ME ''Ngtcp2_ClientConfig'' ''withServerName'' arginfo_client_config_with_server_name
       [ZEND_ACC_PUBLIC],
     PHP_ME ''Ngtcp2_ClientConfig'' ''withAlpn'' arginfo_client_config_with_alpn
       [ZEND_ACC_PUBLIC],
     PHP_ME ''Ngtcp2_ClientConfig'' ''getLocalAddress'' arginfo_client_config_get_local_address
       [ZEND_ACC_PUBLIC],
     PHP_ME ''Ngtcp2_ClientConfig'' ''getServerName'' arginfo_client_config_get_server_name
       [ZEND_ACC_PUBLIC],
     PHP_ME ''Ngtcp2_ClientConfig'' ''getAlpn'' arginfo_client_config_get_alpn
       [ZEND_ACC_PUBLIC]]"

definition php_quic_connection_methods :: "zend_function_entry list" where
  "php_quic_connection_methods =
    [PHP_ME ''Ngtcp2_Connection'' ''__construct'' arginfo_connection_construct
       [ZEND_ACC_PUBLIC],
     PHP_ME ''Ngtcp2_Connection'' ''recv'' arginfo_connection_recv
       [ZEND_ACC_PUBLIC],
     PHP_ME ''Ngtcp2_Connection'' ''onTimeout'' arginfo_connection_no_args
       [ZEND_ACC_PUBLIC],
     PHP_ME ''Ngtcp2_Connection'' ''handleTimers'' arginfo_connection_no_args
       [ZEND_ACC_PUBLIC],
     PHP_ME ''Ngtcp2_Connection'' ''tick'' arginfo_connection_no_args
       [ZEND_ACC_PUBLIC],
     PHP_ME ''Ngtcp2_Connection'' ''getNextTimeout'' arginfo_connection_get_next_timeout
       [ZEND_ACC_PUBLIC],
     PHP_ME ''Ngtcp2_Connection'' ''getNextExpiry'' arginfo_connection_get_next_expiry
       [ZEND_ACC_PUBLIC],
     PHP_ME ''Ngtcp2_Connection'' ''getTimeoutAt'' arginfo_connection_get_next_expiry
       [ZEND_ACC_PUBLIC],
     PHP_ME ''Ngtcp2_Connection'' ''drainEvents'' arginfo_connection_drain_events
       [ZEND_ACC_PUBLIC],
     PHP_ME ''Ngtcp2_Connection'' ''drainOutgoingDatagrams''
       arginfo_connection_drain_outgoing_datagrams [ZEND_ACC_PUBLIC],
     PHP_ME ''Ngtcp2_Connection'' ''openStream'' arginfo_connection_open_stream
       [ZEND_ACC_PUBLIC],
     PHP_ME ''Ngtcp2_Connection'' ''openUniStream'' arginfo_connection_open_uni_stream
       [ZEND_ACC_PUBLIC],
     PHP_ME ''Ngtcp2_Connection'' ''getStream'' arginfo_connection_get_stream
       [ZEND_ACC_PUBLIC],
     PHP_ME ''Ngtcp2_Connection'' ''close'' arginfo_connection_close
       [ZEND_ACC_PUBLIC],
     PHP_ME ''Ngtcp2_Connection'' ''isEstablished'' arginfo_connection_is_established
       [ZEND_ACC_PUBLIC],
     PHP_ME ''Ngtcp2_Connection'' ''isClosed'' arginfo_connection_is_closed
       [ZEND_ACC_PUBLIC],
     PHP_ME ''Ngtcp2_Connection'' ''isDraining'' arginfo_connection_is_draining
       [ZEND_ACC_PUBLIC]]"

subsection \<open>\<^verbatim>\<open>src/server_connection.c\<close>\<close>

definition arginfo_server_connection_construct :: zend_arginfo where
  "arginfo_server_connection_construct =
     ARG_INFO_EX 0 []"

definition arginfo_server_config_construct :: zend_arginfo where
  "arginfo_server_config_construct =
     ARG_INFO_EX 0 [
     ARG_OBJ_INFO_WITH_DEFAULT_VALUE ''localAddress'' (ngtcp2_class ''Address'') True ''null'',
     ARG_TYPE_INFO_WITH_DEFAULT_VALUE ''certFile'' IS_STRING True ''null'',
     ARG_TYPE_INFO_WITH_DEFAULT_VALUE ''keyFile'' IS_STRING True ''null'',
     ARG_TYPE_INFO_WITH_DEFAULT_VALUE ''alpn'' IS_STRING True ''null'']"

definition arginfo_server_config_with_local_address :: zend_arginfo where
  "arginfo_server_config_with_local_address =
     ARG_WITH_RETURN_OBJ_INFO_EX 1 (ngtcp2_class ''ServerConfig'') False [
     ARG_OBJ_INFO_WITH_DEFAULT_VALUE ''localAddress'' (ngtcp2_class ''Address'') True ''null'']"

definition arginfo_server_config_with_certificate :: zend_arginfo where
  "arginfo_server_config_with_certificate =
     ARG_WITH_RETURN_OBJ_INFO_EX 2 (ngtcp2_class ''ServerConfig'') False [
     ARG_TYPE_INFO ''certFile'' IS_STRING False,
     ARG_TYPE_INFO ''keyFile'' IS_STRING False]"

definition arginfo_server_config_with_alpn :: zend_arginfo where
  "arginfo_server_config_with_alpn =
     ARG_WITH_RETURN_OBJ_INFO_EX 1 (ngtcp2_class ''ServerConfig'') False [
     ARG_TYPE_INFO ''alpn'' IS_STRING True]"

definition arginfo_server_config_get_local_address :: zend_arginfo where
  "arginfo_server_config_get_local_address =
     ARG_WITH_RETURN_OBJ_INFO_EX 0 (ngtcp2_class ''Address'') True []"

definition arginfo_server_config_get_cert_file :: zend_arginfo where
  "arginfo_server_config_get_cert_file =
     ARG_WITH_RETURN_TYPE_INFO_EX 0 (Scalar_type IS_STRING) True []"

definition arginfo_server_config_get_key_file :: zend_arginfo where
  "arginfo_server_config_get_key_file =
     ARG_WITH_RETURN_TYPE_INFO_EX 0 (Scalar_type IS_STRING) True []"

definition arginfo_server_config_get_alpn :: zend_arginfo where
  "arginfo_server_config_get_alpn =
     ARG_WITH_RETURN_TYPE_INFO_EX 0 (Scalar_type IS_STRING) True []"

definition arginfo_server_connection_accept :: zend_arginfo where
  "arginfo_server_connection_accept =
     ARG_WITH_RETURN_OBJ_INFO_EX 2 (ngtcp2_class ''ServerConnection'') False [
     ARG_OBJ_INFO ''initial'' (ngtcp2_class ''Datagram'') False,
     ARG_OBJ_INFO ''config'' (ngtcp2_class ''ServerConfig'') False]"

definition php_quic_server_config_methods :: "zend_function_entry list" where
  "php_quic_server_config_methods =
    [PHP_ME ''Ngtcp2_ServerConfig'' ''__construct'' arginfo_server_config_construct
       [ZEND_ACC_PUBLIC],
     PHP_ME ''Ngtcp2_ServerConfig'' ''withLocalAddress'' arginfo_server_config_with_local_address
       [ZEND_ACC_PUBLIC],
     PHP_ME ''Ngtcp2_ServerConfig'' ''withCertificate'' arginfo_server_config_with_certificate
       [ZEND_ACC_PUBLIC],
     PHP_ME ''Ngtcp2_ServerConfig'' ''withAlpn'' arginfo_server_config_with_alpn
       [ZEND_ACC_PUBLIC],
     PHP_ME ''Ngtcp2_ServerConfig'' ''getLocalAddress'' arginfo_server_config_get_local_address
       [ZEND_ACC_PUBLIC],
     PHP_ME ''Ngtcp2_ServerConfig'' ''getCertFile'' arginfo_server_config_get_cert_file
       [ZEND_ACC_PUBLIC],
     PHP_ME ''Ngtcp2_ServerConfig'' ''getKeyFile'' arginfo_server_config_get_key_file
       [ZEND_ACC_PUBLIC],
     PHP_ME ''Ngtcp2_ServerConfig'' ''getAlpn'' arginfo_server_config_get_alpn
       [ZEND_ACC_PUBLIC]]"

definition php_quic_server_connection_methods :: "zend_function_entry list" where
  "php_quic_server_connection_methods =
    [PHP_ME ''Ngtcp2_ServerConnection'' ''__construct'' arginfo_server_connection_construct
       [ZEND_ACC_PUBLIC, ZEND_ACC_FINAL],
     PHP_ME ''Ngtcp2_ServerConnection'' ''accept'' arginfo_server_connection_accept
       [ZEND_ACC_PUBLIC, ZEND_ACC_STATIC]]"

subsection \<open>\<^verbatim>\<open>src/server_endpoint.c\<close>\<close>

definition arginfo_server_endpoint_construct :: zend_arginfo where
  "arginfo_server_endpoint_construct =
     ARG_INFO_EX 1 [
     ARG_OBJ_INFO ''config'' (ngtcp2_class ''ServerConfig'') False]"

definition arginfo_server_endpoint_recv :: zend_arginfo where
  "arginfo_server_endpoint_recv =
     ARG_INFO_EX 1 [
     ARG_OBJ_INFO ''datagram'' (ngtcp2_class ''Datagram'') False]"

definition arginfo_server_endpoint_no_args :: zend_arginfo where
  "arginfo_server_endpoint_no_args =
     ARG_INFO_EX 0 []"

definition arginfo_server_endpoint_get_next_expiry :: zend_arginfo where
  "arginfo_server_endpoint_get_next_expiry =
     ARG_WITH_RETURN_TYPE_INFO_EX 0 (Scalar_type IS_LONG) True []"

definition arginfo_server_endpoint_drain_array :: zend_arginfo where
  "arginfo_server_endpoint_drain_array =
     ARG_WITH_RETURN_TYPE_INFO_EX 0 IS_ARRAY False []"

definition arginfo_server_endpoint_get_connection_count :: zend_arginfo where
  "arginfo_server_endpoint_get_connection_count =
     ARG_WITH_RETURN_TYPE_INFO_EX 0 (Scalar_type IS_LONG) False []"

definition php_quic_server_endpoint_methods :: "zend_function_entry list" where
  "php_quic_server_endpoint_methods =
    [PHP_ME ''Ngtcp2_ServerEndpoint'' ''__construct'' arginfo_server_endpoint_construct
       [ZEND_ACC_PUBLIC],
     PHP_ME ''Ngtcp2_ServerEndpoint'' ''recv'' arginfo_server_endpoint_recv
       [ZEND_ACC_PUBLIC],
     PHP_ME ''Ngtcp2_ServerEndpoint'' ''handleTimers'' arginfo_server_endpoint_no_args
       [ZEND_ACC_PUBLIC],
     PHP_ME ''Ngtcp2_ServerEndpoint'' ''onTimeout'' arginfo_server_endpoint_no_args
       [ZEND_ACC_PUBLIC],
     PHP_ME ''Ngtcp2_ServerEndpoint'' ''tick'' arginfo_server_endpoint_no_args
       [ZEND_ACC_PUBLIC],
     PHP_ME ''Ngtcp2_ServerEndpoint'' ''getNextExpiry'' arginfo_server_endpoint_get_next_expiry
       [ZEND_ACC_PUBLIC],
     PHP_ME ''Ngtcp2_ServerEndpoint'' ''getTimeoutAt'' arginfo_server_endpoint_get_next_expiry
       [ZEND_ACC_PUBLIC],
     PHP_ME ''Ngtcp2_ServerEndpoint'' ''getNextTimeout'' arginfo_server_endpoint_get_next_expiry
       [ZEND_ACC_PUBLIC],
     PHP_ME ''Ngtcp2_ServerEndpoint'' ''drainAcceptedConnections''
       arginfo_server_endpoint_drain_array [ZEND_ACC_PUBLIC],
     PHP_ME ''Ngtcp2_ServerEndpoint'' ''drainOutgoingDatagrams''
       arginfo_server_endpoint_drain_array [ZEND_ACC_PUBLIC],
     PHP_ME ''Ngtcp2_ServerEndpoint'' ''drainEvents''
       arginfo_server_endpoint_drain_array [ZEND_ACC_PUBLIC],
     PHP_ME ''Ngtcp2_ServerEndpoint'' ''getConnectionCount''
       arginfo_server_endpoint_get_connection_count [ZEND_ACC_PUBLIC]]"

subsection \<open>\<^verbatim>\<open>src/stream.c\<close>\<close>

definition arginfo_stream_construct :: zend_arginfo where
  "arginfo_stream_construct =
     ARG_INFO_EX 0 []"

definition arginfo_stream_get_id :: zend_arginfo where
  "arginfo_stream_get_id =
     ARG_WITH_RETURN_TYPE_INFO_EX 0 (Scalar_type IS_LONG) False []"

definition arginfo_stream_read :: zend_arginfo where
  "arginfo_stream_read =
     ARG_WITH_RETURN_TYPE_INFO_EX 0 (Scalar_type IS_STRING) False [
     ARG_TYPE_INFO_WITH_DEFAULT_VALUE ''length'' IS_LONG False ''8192'']"

definition arginfo_stream_write :: zend_arginfo where
  "arginfo_stream_write =
     ARG_WITH_RETURN_TYPE_INFO_EX 1 (Scalar_type IS_LONG) False [
     ARG_TYPE_INFO ''data'' IS_STRING False]"

definition arginfo_stream_end :: zend_arginfo where
  "arginfo_stream_end =
     ARG_INFO_EX 0 [
     ARG_TYPE_INFO_WITH_DEFAULT_VALUE ''finalData'' IS_STRING True ''null'']"

definition arginfo_stream_reset :: zend_arginfo where
  "arginfo_stream_reset =
     ARG_INFO_EX 1 [
     ARG_TYPE_INFO ''errorCode'' IS_LONG False]"

definition arginfo_stream_is_readable :: zend_arginfo where
  "arginfo_stream_is_readable =
     ARG_WITH_RETURN_TYPE_INFO_EX 0 (Scalar_type IS_BOOL) False []"

definition arginfo_stream_is_writable :: zend_arginfo where
  "arginfo_stream_is_writable =
     ARG_WITH_RETURN_TYPE_INFO_EX 0 (Scalar_type IS_BOOL) False []"

definition arginfo_stream_is_closed :: zend_arginfo where
  "arginfo_stream_is_closed =
     ARG_WITH_RETURN_TYPE_INFO_EX 0 (Scalar_type IS_BOOL) False []"

definition php_quic_stream_methods :: "zend_function_entry list" where
  "php_quic_stream_methods =
    [PHP_ME ''Ngtcp2_Stream'' ''__construct'' arginfo_stream_construct
       [ZEND_ACC_PUBLIC, ZEND_ACC_FINAL],
     PHP_ME ''Ngtcp2_Stream'' ''getId'' arginfo_stream_get_id
       [ZEND_ACC_PUBLIC],
     PHP_ME ''Ngtcp2_Stream'' ''read'' arginfo_stream_read
       [ZEND_ACC_PUBLIC],
     PHP_ME ''Ngtcp2_Stream'' ''write'' arginfo_stream_write
       [ZEND_ACC_PUBLIC],
     PHP_ME ''Ngtcp2_Stream'' ''end'' arginfo_stream_end
       [ZEND_ACC_PUBLIC],
     PHP_ME ''Ngtcp2_Stream'' ''reset'' arginfo_stream_reset
       [ZEND_ACC_PUBLIC],
     PHP_ME ''Ngtcp2_Stream'' ''isReadable'' arginfo_stream_is_readable
       [ZEND_ACC_PUBLIC],
     PHP_ME ''Ngtcp2_Stream'' ''isWritable'' arginfo_stream_is_writable
       [ZEND_ACC_PUBLIC],
     PHP_ME ''Ngtcp2_Stream'' ''isClosed'' arginfo_stream_is_closed
       [ZEND_ACC_PUBLIC]]"

subsection \<open>What the methods parse\<close>

text \<open>For every \<^verbatim>\<open>PHP_METHOD\<close> its parameter block, or \<open>No_parsing\<close> if it has none.\<close>

type_synonym method_blocks =
  "((string \<times> string) \<times> class_var zpp) list"

definition Address_blocks :: method_blocks where
  "Address_blocks =
    [((''Ngtcp2_Address'', ''__construct''), ZEND_PARSE_PARAMETERS 2 2 [Z_PARAM_STR, Z_PARAM_LONG]),
     ((''Ngtcp2_Address'', ''getHost''), No_parsing),
     ((''Ngtcp2_Address'', ''getPort''), No_parsing),
     ((''Ngtcp2_Address'', ''fromString''), ZEND_PARSE_PARAMETERS 1 1 [Z_PARAM_STR])]"

definition Datagram_blocks :: method_blocks where
  "Datagram_blocks =
    [((''Ngtcp2_Datagram'', ''__construct''), ZEND_PARSE_PARAMETERS 2 5 [Z_PARAM_STR,
       Z_PARAM_OBJECT_OF_CLASS php_quic_address_ce, Z_PARAM_OPTIONAL,
       Z_PARAM_OBJECT_OF_CLASS_OR_NULL php_quic_address_ce, Z_PARAM_LONG_OR_NULL,
       Z_PARAM_LONG_OR_NULL]),
     ((''Ngtcp2_Datagram'', ''getPayload''), No_parsing),
     ((''Ngtcp2_Datagram'', ''getPeerAddress''), No_parsing),
     ((''Ngtcp2_Datagram'', ''getLocalAddress''), No_parsing),
     ((''Ngtcp2_Datagram'', ''getEcn''), No_parsing),
     ((''Ngtcp2_Datagram'', ''getReceivedAt''), No_parsing)]"

definition Event_blocks :: method_blocks where
  "Event_blocks =
    [((''Ngtcp2_Event'', ''__construct''), ZEND_PARSE_PARAMETERS 1 5 [Z_PARAM_LONG,
       Z_PARAM_OPTIONAL, Z_PARAM_LONG, Z_PARAM_LONG, Z_PARAM_BOOL, Z_PARAM_STR]),
     ((''Ngtcp2_Event'', ''getType''), No_parsing),
     ((''Ngtcp2_Event'', ''getStreamId''), No_parsing),
     ((''Ngtcp2_Event'', ''getErrorCode''), No_parsing),
     ((''Ngtcp2_Event'', ''isByPeer''), No_parsing),
     ((''Ngtcp2_Event'', ''getReason''), No_parsing),
     ((''Ngtcp2_Event'', ''getTimestamp''), No_parsing)]"

definition ClientConfig_blocks :: method_blocks where
  "ClientConfig_blocks =
    [((''Ngtcp2_ClientConfig'', ''__construct''), ZEND_PARSE_PARAMETERS 0 3 [Z_PARAM_OPTIONAL,
       Z_PARAM_OBJECT_OF_CLASS_OR_NULL php_quic_address_ce, Z_PARAM_STR_OR_NULL,
       Z_PARAM_STR_OR_NULL]),
     ((''Ngtcp2_ClientConfig'', ''withLocalAddress''), ZEND_PARSE_PARAMETERS 1 1
       [Z_PARAM_OBJECT_OF_CLASS_OR_NULL php_quic_address_ce]),
     ((''Ngtcp2_ClientConfig'', ''withServerName''), ZEND_PARSE_PARAMETERS 1 1
       [Z_PARAM_STR_OR_NULL]),
     ((''Ngtcp2_ClientConfig'', ''withAlpn''), ZEND_PARSE_PARAMETERS 1 1 [Z_PARAM_STR_OR_NULL]),
     ((''Ngtcp2_ClientConfig'', ''getLocalAddress''), No_parsing),
     ((''Ngtcp2_ClientConfig'', ''getServerName''), No_parsing),
     ((''Ngtcp2_ClientConfig'', ''getAlpn''), No_parsing)]"

definition Connection_blocks :: method_blocks where
  "Connection_blocks =
    [((''Ngtcp2_Connection'', ''__construct''), ZEND_PARSE_PARAMETERS 1 2
       [Z_PARAM_OBJECT_OF_CLASS php_quic_address_ce, Z_PARAM_OPTIONAL,
       Z_PARAM_OBJECT_OF_CLASS_OR_NULL php_quic_client_config_ce]),
     ((''Ngtcp2_Connection'', ''recv''), ZEND_PARSE_PARAMETERS 1 1 [Z_PARAM_OBJECT_OF_CLASS
       php_quic_datagram_ce]),
     ((''Ngtcp2_Connection'', ''onTimeout''), ZEND_PARSE_PARAMETERS_NONE),
     ((''Ngtcp2_Connection'', ''getNextTimeout''), ZEND_PARSE_PARAMETERS_NONE),
     ((''Ngtcp2_Connection'', ''getNextExpiry''), ZEND_PARSE_PARAMETERS_NONE),
     ((''Ngtcp2_Connection'', ''getTimeoutAt''), ZEND_PARSE_PARAMETERS_NONE),
     ((''Ngtcp2_Connection'', ''handleTimers''), ZEND_PARSE_PARAMETERS_NONE),
     ((''Ngtcp2_Connection'', ''tick''), ZEND_PARSE_PARAMETERS_NONE),
     ((''Ngtcp2_Connection'', ''drainEvents''), ZEND_PARSE_PARAMETERS_NONE),
     ((''Ngtcp2_Connection'', ''drainOutgoingDatagrams''), ZEND_PARSE_PARAMETERS_NONE),
     ((''Ngtcp2_Connection'', ''openStream''), ZEND_PARSE_PARAMETERS_NONE),
     ((''Ngtcp2_Connection'', ''openUniStream''), ZEND_PARSE_PARAMETERS_NONE),
     ((''Ngtcp2_Connection'', ''getStream''), ZEND_PARSE_PARAMETERS 1 1 [Z_PARAM_LONG]),
     ((''Ngtcp2_Connection'', ''close''), ZEND_PARSE_PARAMETERS 0 2 [Z_PARAM_OPTIONAL,
       Z_PARAM_LONG, Z_PARAM_STR]),
     ((''Ngtcp2_Connection'', ''isEstablished''), ZEND_PARSE_PARAMETERS_NONE),
     ((''Ngtcp2_Connection'', ''isClosed''), ZEND_PARSE_PARAMETERS_NONE),
     ((''Ngtcp2_Connection'', ''isDraining''), ZEND_PARSE_PARAMETERS_NONE)]"

definition ServerConfig_blocks :: method_blocks where
  "ServerConfig_blocks =
    [((''Ngtcp2_ServerConfig'', ''__construct''), ZEND_PARSE_PARAMETERS 0 4 [Z_PARAM_OPTIONAL,
       Z_PARAM_OBJECT_OF_CLASS_OR_NULL php_quic_address_ce, Z_PARAM_STR_OR_NULL,
       Z_PARAM_STR_OR_NULL, Z_PARAM_STR_OR_NULL]),
     ((''Ngtcp2_ServerConfig'', ''withLocalAddress''), ZEND_PARSE_PARAMETERS 1 1
       [Z_PARAM_OBJECT_OF_CLASS_OR_NULL php_quic_address_ce]),
     ((''Ngtcp2_ServerConfig'', ''withCertificate''), ZEND_PARSE_PARAMETERS 2 2 [Z_PARAM_STR,
       Z_PARAM_STR]),
     ((''Ngtcp2_ServerConfig'', ''withAlpn''), ZEND_PARSE_PARAMETERS 1 1 [Z_PARAM_STR_OR_NULL]),
     ((''Ngtcp2_ServerConfig'', ''getLocalAddress''), No_parsing),
     ((''Ngtcp2_ServerConfig'', ''getCertFile''), No_parsing),
     ((''Ngtcp2_ServerConfig'', ''getKeyFile''), No_parsing),
     ((''Ngtcp2_ServerConfig'', ''getAlpn''), No_parsing)]"

definition ServerConnection_blocks :: method_blocks where
  "ServerConnection_blocks =
    [((''Ngtcp2_ServerConnection'', ''__construct''), No_parsing),
     ((''Ngtcp2_ServerConnection'', ''accept''), ZEND_PARSE_PARAMETERS 2 2
       [Z_PARAM_OBJECT_OF_CLASS php_quic_datagram_ce, Z_PARAM_OBJECT_OF_CLASS
       php_quic_server_config_ce])]"

definition ServerEndpoint_blocks :: method_blocks where
  "ServerEndpoint_blocks =
    [((''Ngtcp2_ServerEndpoint'', ''__construct''), ZEND_PARSE_PARAMETERS 1 1
       [Z_PARAM_OBJECT_OF_CLASS php_quic_server_config_ce]),
     ((''Ngtcp2_ServerEndpoint'', ''recv''), ZEND_PARSE_PARAMETERS 1 1 [Z_PARAM_OBJECT_OF_CLASS
       php_quic_datagram_ce]),
     ((''Ngtcp2_ServerEndpoint'', ''handleTimers''), ZEND_PARSE_PARAMETERS_NONE),
     ((''Ngtcp2_ServerEndpoint'', ''onTimeout''), ZEND_PARSE_PARAMETERS_NONE),
     ((''Ngtcp2_ServerEndpoint'', ''tick''), ZEND_PARSE_PARAMETERS_NONE),
     ((''Ngtcp2_ServerEndpoint'', ''getNextExpiry''), ZEND_PARSE_PARAMETERS_NONE),
     ((''Ngtcp2_ServerEndpoint'', ''getTimeoutAt''), ZEND_PARSE_PARAMETERS_NONE),
     ((''Ngtcp2_ServerEndpoint'', ''getNextTimeout''), ZEND_PARSE_PARAMETERS_NONE),
     ((''Ngtcp2_ServerEndpoint'', ''drainAcceptedConnections''), ZEND_PARSE_PARAMETERS_NONE),
     ((''Ngtcp2_ServerEndpoint'', ''drainOutgoingDatagrams''), ZEND_PARSE_PARAMETERS_NONE),
     ((''Ngtcp2_ServerEndpoint'', ''drainEvents''), ZEND_PARSE_PARAMETERS_NONE),
     ((''Ngtcp2_ServerEndpoint'', ''getConnectionCount''), ZEND_PARSE_PARAMETERS_NONE)]"

definition Stream_blocks :: method_blocks where
  "Stream_blocks =
    [((''Ngtcp2_Stream'', ''__construct''), No_parsing),
     ((''Ngtcp2_Stream'', ''getId''), No_parsing),
     ((''Ngtcp2_Stream'', ''read''), ZEND_PARSE_PARAMETERS 0 1 [Z_PARAM_OPTIONAL, Z_PARAM_LONG]),
     ((''Ngtcp2_Stream'', ''write''), ZEND_PARSE_PARAMETERS 1 1 [Z_PARAM_STR]),
     ((''Ngtcp2_Stream'', ''end''), ZEND_PARSE_PARAMETERS 0 1 [Z_PARAM_OPTIONAL,
       Z_PARAM_STR_OR_NULL]),
     ((''Ngtcp2_Stream'', ''reset''), ZEND_PARSE_PARAMETERS 1 1 [Z_PARAM_LONG]),
     ((''Ngtcp2_Stream'', ''isReadable''), ZEND_PARSE_PARAMETERS_NONE),
     ((''Ngtcp2_Stream'', ''isWritable''), ZEND_PARSE_PARAMETERS_NONE),
     ((''Ngtcp2_Stream'', ''isClosed''), ZEND_PARSE_PARAMETERS_NONE)]"

definition php_method_blocks :: method_blocks where
  "php_method_blocks =
     Address_blocks @ Datagram_blocks @ Event_blocks @ ClientConfig_blocks @ Connection_blocks @
     ServerConfig_blocks @ ServerConnection_blocks @ ServerEndpoint_blocks @ Stream_blocks"

end
