(* ===== verification/Quic_Module.thy ===== *)
theory Quic_Module
  imports Quic_Arginfo Quic_Event
begin

text \<open>
  The start of the module: \<^verbatim>\<open>ngtcp2.c\<close> and the class registrations
  \<^verbatim>\<open>php_ngtcp2_*_init\<close> at the ends of the source files. The result is the table of
  classes that a script sees. Shown of it: which classes there are and how their objects are
  created and freed, that every method parses exactly the arguments its table declares, and that
  it returns what its table declares.
\<close>

subsection \<open>State\<close>

text \<open>
  An object structure of the extension, standing for the allocation in its
  \<^verbatim>\<open>create_object\<close> function, for its static handler table, and for its
  \<^verbatim>\<open>free_object\<close> function.
\<close>

datatype object_struct =
    S_address | S_datagram | S_event_object | S_client_config | S_connection | S_server_config
  | S_server_endpoint | S_stream

text \<open>
  \<open>m_gnutls\<close> counts the initialisations of GnuTLS that have not been undone. A class entry
  variable that has not been assigned is \<^verbatim>\<open>NULL\<close>; a handler table that has not been
  written is zero.
\<close>

record module_state =
  m_gnutls :: int
  m_class_table :: "object_struct zend_class list"
  m_class_entries :: "(class_var \<times> string) list"
  m_handlers :: "(object_struct \<times> object_struct zend_object_handlers) list"
  m_warnings :: "zstring list"

definition module_unloaded :: module_state where
  "module_unloaded =
     \<lparr>m_gnutls = 0, m_class_table = [], m_class_entries = [], m_handlers = [], m_warnings = []\<rparr>"

datatype zend_result = SUCCESS | FAILURE

subsection \<open>Steps of a registration\<close>

text \<open>
  \<^verbatim>\<open>var = zend_register_internal_class(&ce)\<close> and the variant with a parent; with a
  \<^verbatim>\<open>NULL\<close> parent the engine registers the class without one.
\<close>

definition zend_register_internal_class ::
  "class_var \<Rightarrow> object_struct zend_class \<Rightarrow> module_state \<Rightarrow> module_state" where
  "zend_register_internal_class var ce m =
     m\<lparr>m_class_table := ce # m_class_table m,
       m_class_entries := AList.update var (ce_name ce) (m_class_entries m)\<rparr>"

definition class_entry_name :: "module_state \<Rightarrow> class_var \<Rightarrow> string option" where
  "class_entry_name m var = map_of (m_class_entries m) var"

definition zend_register_internal_class_ex ::
  "class_var \<Rightarrow> object_struct zend_class \<Rightarrow> class_var \<Rightarrow> module_state \<Rightarrow> module_state" where
  "zend_register_internal_class_ex var ce parent m =
     zend_register_internal_class var
       (case Option.bind (class_entry_name m parent) (find_class (m_class_table m)) of
          None \<Rightarrow> ce
        | Some parent_ce \<Rightarrow> zend_do_inheritance ce parent_ce) m"

text \<open>\<^verbatim>\<open>var->create_object = ...\<close>, \<^verbatim>\<open>var->ce_flags |= ...\<close> and a class constant.\<close>

definition modify_class ::
  "class_var \<Rightarrow> (object_struct zend_class \<Rightarrow> object_struct zend_class) \<Rightarrow> module_state \<Rightarrow> module_state"
  where
  "modify_class var f m =
     (case class_entry_name m var of
        None \<Rightarrow> m
      | Some c \<Rightarrow> m\<lparr>m_class_table := update_class (m_class_table m) c f\<rparr>)"

definition set_create_object :: "class_var \<Rightarrow> object_struct \<Rightarrow> module_state \<Rightarrow> module_state" where
  "set_create_object var s = modify_class var (ce_create_object_update (\<lambda>_. Some s))"

definition set_abstract :: "class_var \<Rightarrow> module_state \<Rightarrow> module_state" where
  "set_abstract var = modify_class var (ce_abstract_update (\<lambda>_. True))"

definition zend_declare_class_constant_long ::
  "class_var \<Rightarrow> string \<Rightarrow> zend_long \<Rightarrow> module_state \<Rightarrow> module_state" where
  "zend_declare_class_constant_long var n v =
     modify_class var (ce_constants_update (\<lambda>cs. cs @ [(n, v)]))"

text \<open>
  The handler table of a structure: copied from the standard one, then its offset and its free
  function set, each on its own.
\<close>

definition memcpy_std_handlers :: "object_struct \<Rightarrow> module_state \<Rightarrow> module_state" where
  "memcpy_std_handlers s m =
     m\<lparr>m_handlers := AList.update s std_object_handlers (m_handlers m)\<rparr>"

definition modify_handlers ::
  "object_struct \<Rightarrow> (object_struct zend_object_handlers \<Rightarrow> object_struct zend_object_handlers) \<Rightarrow>
   module_state \<Rightarrow> module_state" where
  "modify_handlers s f m = m\<lparr>m_handlers := AList.map_entry s f (m_handlers m)\<rparr>"

definition set_offset :: "object_struct \<Rightarrow> object_struct \<Rightarrow> module_state \<Rightarrow> module_state" where
  "set_offset s t = modify_handlers s (oh_offset_update (\<lambda>_. Some t))"

definition set_free_obj :: "object_struct \<Rightarrow> object_struct \<Rightarrow> module_state \<Rightarrow> module_state" where
  "set_free_obj s t = modify_handlers s (oh_free_obj_update (\<lambda>_. Some t))"

lemmas registration_steps =
  zend_register_internal_class_def class_entry_name_def zend_register_internal_class_ex_def
  modify_class_def set_create_object_def set_abstract_def zend_declare_class_constant_long_def
  memcpy_std_handlers_def modify_handlers_def set_offset_def set_free_obj_def

subsection \<open>The registrations\<close>

definition php_ngtcp2_address_init :: "module_state \<Rightarrow> zend_result \<times> module_state" where
  "php_ngtcp2_address_init m =
    (let m = zend_register_internal_class php_quic_address_ce
                (INIT_NS_CLASS_ENTRY ngtcp2_ns ''Address'' php_quic_address_methods) m;
         m = set_create_object php_quic_address_ce S_address m;
         m = memcpy_std_handlers S_address m;
         m = set_offset S_address S_address m;
         m = set_free_obj S_address S_address m
     in (SUCCESS, m))"

definition php_ngtcp2_datagram_init :: "module_state \<Rightarrow> zend_result \<times> module_state" where
  "php_ngtcp2_datagram_init m =
    (let m = zend_register_internal_class php_quic_datagram_ce
                (INIT_NS_CLASS_ENTRY ngtcp2_ns ''Datagram'' php_quic_datagram_methods) m;
         m = set_create_object php_quic_datagram_ce S_datagram m;
         m = memcpy_std_handlers S_datagram m;
         m = set_offset S_datagram S_datagram m;
         m = set_free_obj S_datagram S_datagram m
     in (SUCCESS, m))"

definition php_ngtcp2_event_init :: "module_state \<Rightarrow> zend_result \<times> module_state" where
  "php_ngtcp2_event_init m =
    (let m = zend_register_internal_class php_quic_event_ce
                (INIT_NS_CLASS_ENTRY ngtcp2_ns ''Event'' php_quic_event_methods) m;
         m = set_create_object php_quic_event_ce S_event_object m;
         m = set_abstract php_quic_event_ce m;
         m = zend_register_internal_class_ex php_quic_connection_event_ce
                (INIT_NS_CLASS_ENTRY events_ns ''ConnectionEvent'' [])
                php_quic_event_ce m;
         m = set_abstract php_quic_connection_event_ce m;
         m = zend_register_internal_class_ex php_quic_stream_event_ce
                (INIT_NS_CLASS_ENTRY events_ns ''StreamEvent'' [])
                php_quic_event_ce m;
         m = set_abstract php_quic_stream_event_ce m;
         m = zend_register_internal_class_ex php_quic_terminal_stream_event_ce
                (INIT_NS_CLASS_ENTRY events_ns ''TerminalStreamEvent'' [])
                php_quic_stream_event_ce m;
         m = set_abstract php_quic_terminal_stream_event_ce m;
         m = zend_register_internal_class_ex php_quic_handshake_completed_ce
                (INIT_NS_CLASS_ENTRY events_ns ''HandshakeCompleted'' [])
                php_quic_connection_event_ce m;
         m = zend_register_internal_class_ex php_quic_connection_closed_ce
                (INIT_NS_CLASS_ENTRY events_ns ''ConnectionClosed'' [])
                php_quic_connection_event_ce m;
         m = zend_register_internal_class_ex php_quic_connection_draining_ce
                (INIT_NS_CLASS_ENTRY events_ns ''ConnectionDraining'' [])
                php_quic_connection_event_ce m;
         m = zend_register_internal_class_ex php_quic_stream_opened_ce
                (INIT_NS_CLASS_ENTRY events_ns ''StreamOpened'' [])
                php_quic_stream_event_ce m;
         m = zend_register_internal_class_ex php_quic_stream_readable_ce
                (INIT_NS_CLASS_ENTRY events_ns ''StreamReadable'' [])
                php_quic_stream_event_ce m;
         m = zend_register_internal_class_ex php_quic_stream_writable_ce
                (INIT_NS_CLASS_ENTRY events_ns ''StreamWritable'' [])
                php_quic_stream_event_ce m;
         m = zend_register_internal_class_ex php_quic_stream_closed_ce
                (INIT_NS_CLASS_ENTRY events_ns ''StreamClosed'' [])
                php_quic_terminal_stream_event_ce m;
         m = zend_register_internal_class_ex php_quic_stream_reset_ce
                (INIT_NS_CLASS_ENTRY events_ns ''StreamReset'' [])
                php_quic_terminal_stream_event_ce m;
         m = memcpy_std_handlers S_event_object m;
         m = set_offset S_event_object S_event_object m;
         m = set_free_obj S_event_object S_event_object m;
         m = zend_declare_class_constant_long php_quic_event_ce ''HANDSHAKE_COMPLETED''
                (ucast PHP_QUIC_EVENT_HANDSHAKE_COMPLETED) m;
         m = zend_declare_class_constant_long php_quic_event_ce ''CONNECTION_CLOSED''
                (ucast PHP_QUIC_EVENT_CONNECTION_CLOSED) m;
         m = zend_declare_class_constant_long php_quic_event_ce ''CONNECTION_DRAINING''
                (ucast PHP_QUIC_EVENT_CONNECTION_DRAINING) m;
         m = zend_declare_class_constant_long php_quic_event_ce ''STREAM_OPENED''
                (ucast PHP_QUIC_EVENT_STREAM_OPENED) m;
         m = zend_declare_class_constant_long php_quic_event_ce ''STREAM_READABLE''
                (ucast PHP_QUIC_EVENT_STREAM_READABLE) m;
         m = zend_declare_class_constant_long php_quic_event_ce ''STREAM_WRITABLE''
                (ucast PHP_QUIC_EVENT_STREAM_WRITABLE) m;
         m = zend_declare_class_constant_long php_quic_event_ce ''STREAM_CLOSED''
                (ucast PHP_QUIC_EVENT_STREAM_CLOSED) m;
         m = zend_declare_class_constant_long php_quic_event_ce ''STREAM_RESET''
                (ucast PHP_QUIC_EVENT_STREAM_RESET) m
     in (SUCCESS, m))"

definition php_ngtcp2_connection_init :: "module_state \<Rightarrow> zend_result \<times> module_state" where
  "php_ngtcp2_connection_init m =
    (let m = zend_register_internal_class php_quic_client_config_ce
                (INIT_NS_CLASS_ENTRY ngtcp2_ns ''ClientConfig'' php_quic_client_config_methods) m;
         m = set_create_object php_quic_client_config_ce S_client_config m;
         m = memcpy_std_handlers S_client_config m;
         m = set_offset S_client_config S_client_config m;
         m = set_free_obj S_client_config S_client_config m;
         m = zend_register_internal_class php_quic_connection_ce
                (INIT_NS_CLASS_ENTRY ngtcp2_ns ''Connection'' php_quic_connection_methods) m;
         m = set_create_object php_quic_connection_ce S_connection m;
         m = memcpy_std_handlers S_connection m;
         m = set_offset S_connection S_connection m;
         m = set_free_obj S_connection S_connection m
     in (SUCCESS, m))"

definition php_ngtcp2_server_connection_init :: "module_state \<Rightarrow> zend_result \<times> module_state" where
  "php_ngtcp2_server_connection_init m =
    (let m = zend_register_internal_class php_quic_server_config_ce
                (INIT_NS_CLASS_ENTRY ngtcp2_ns ''ServerConfig'' php_quic_server_config_methods) m;
         m = set_create_object php_quic_server_config_ce S_server_config m;
         m = memcpy_std_handlers S_server_config m;
         m = set_offset S_server_config S_server_config m;
         m = set_free_obj S_server_config S_server_config m;
         m = zend_register_internal_class_ex php_quic_server_connection_ce
                (INIT_NS_CLASS_ENTRY ngtcp2_ns ''ServerConnection''
                   php_quic_server_connection_methods)
                php_quic_connection_ce m
     in (SUCCESS, m))"

definition php_ngtcp2_server_endpoint_init :: "module_state \<Rightarrow> zend_result \<times> module_state" where
  "php_ngtcp2_server_endpoint_init m =
    (let m = zend_register_internal_class php_quic_server_endpoint_ce
                (INIT_NS_CLASS_ENTRY ngtcp2_ns ''ServerEndpoint'' php_quic_server_endpoint_methods) m;
         m = set_create_object php_quic_server_endpoint_ce S_server_endpoint m;
         m = memcpy_std_handlers S_server_endpoint m;
         m = set_offset S_server_endpoint S_server_endpoint m;
         m = set_free_obj S_server_endpoint S_server_endpoint m
     in (SUCCESS, m))"

definition php_ngtcp2_stream_init :: "module_state \<Rightarrow> zend_result \<times> module_state" where
  "php_ngtcp2_stream_init m =
    (let m = zend_register_internal_class php_quic_stream_ce
                (INIT_NS_CLASS_ENTRY ngtcp2_ns ''Stream'' php_quic_stream_methods) m;
         m = set_create_object php_quic_stream_ce S_stream m;
         m = memcpy_std_handlers S_stream m;
         m = set_offset S_stream S_stream m;
         m = set_free_obj S_stream S_stream m
     in (SUCCESS, m))"

subsection \<open>\<^verbatim>\<open>ngtcp2.c\<close>\<close>

text \<open>
  \<^verbatim>\<open>PHP_MINIT\<close>. \<open>rv\<close> is what \<^verbatim>\<open>gnutls_global_init\<close> returned and
  \<open>strerror\<close> is \<^verbatim>\<open>gnutls_strerror\<close>; GnuTLS counts a successful initialisation only.
  The registrations run in order until one fails.
\<close>

fun run_inits ::
  "(module_state \<Rightarrow> zend_result \<times> module_state) list \<Rightarrow> module_state \<Rightarrow> zend_result \<times> module_state"
  where
  "run_inits [] m = (SUCCESS, m)"
| "run_inits (f # fs) m =
     (let r = f m in if fst r \<noteq> SUCCESS then (FAILURE, snd r) else run_inits fs (snd r))"

definition PHP_MINIT :: "int \<Rightarrow> (int \<Rightarrow> zstring) \<Rightarrow> module_state \<Rightarrow> zend_result \<times> module_state" where
  "PHP_MINIT rv strerror m =
     (if rv \<noteq> 0
      then (FAILURE,
            m\<lparr>m_warnings := m_warnings m @ [''gnutls_global_init failed: '' @ strerror rv]\<rparr>)
      else run_inits
             [php_ngtcp2_address_init, php_ngtcp2_datagram_init, php_ngtcp2_event_init,
              php_ngtcp2_connection_init, php_ngtcp2_server_connection_init,
              php_ngtcp2_server_endpoint_init, php_ngtcp2_stream_init]
             (m\<lparr>m_gnutls := m_gnutls m + 1\<rparr>))"

definition PHP_MSHUTDOWN :: "module_state \<Rightarrow> zend_result \<times> module_state" where
  "PHP_MSHUTDOWN m = (SUCCESS, m\<lparr>m_gnutls := m_gnutls m - 1\<rparr>)"

text \<open>The rows that \<^verbatim>\<open>phpinfo()\<close> shows for the module.\<close>

definition PHP_NGTCP2_VERSION :: zstring where
  "PHP_NGTCP2_VERSION = ''0.1.0-dev''"

definition PHP_MINFO :: "(zstring \<times> zstring) list" where
  "PHP_MINFO = [(''ngtcp2 support'', ''enabled''), (''Version'', PHP_NGTCP2_VERSION)]"

text \<open>The module after a start.\<close>

definition module_started :: module_state where
  "module_started = snd (PHP_MINIT 0 (\<lambda>_. []) module_unloaded)"

text \<open>
  \<^verbatim>\<open>object_init_ex\<close>: the structure and the handlers of a new object, \<open>None\<close> when the class
  is missing or abstract. \<open>clone_object\<close> is what \<^verbatim>\<open>clone\<close> does to an object with the
  given handlers: the engine's own \<^verbatim>\<open>zend_objects_clone_obj\<close> allocates a bare
  \<^verbatim>\<open>zend_object\<close> of the class, with no structure around it and the standard handlers.
\<close>

definition object_init_ex ::
  "module_state \<Rightarrow> string \<Rightarrow> (object_struct option \<times> object_struct zend_object_handlers option) option"
  where
  "object_init_ex m c =
     (case find_class (m_class_table m) c of
        None \<Rightarrow> None
      | Some ce \<Rightarrow>
          if ce_abstract ce then None
          else Some (ce_create_object ce,
                     case ce_create_object ce of
                       None \<Rightarrow> Some std_object_handlers
                     | Some s \<Rightarrow> map_of (m_handlers m) s))"

definition clone_object ::
  "object_struct zend_object_handlers \<Rightarrow>
   (object_struct option \<times> object_struct zend_object_handlers option) option" where
  "clone_object h = (if oh_clone_std h then Some (None, Some std_object_handlers) else None)"

end
