(* ===== verification/Quic_Module_Props.thy ===== *)
theory Quic_Module_Props
  imports Quic_Module
begin

text \<open>
  What a script finds after the module has started: the classes and how they are related, how
  their objects are created, freed and cloned, and that the methods parse what they declare.
\<close>

subsection \<open>The module after a start, written out\<close>

definition events_class :: "string \<Rightarrow> string" where
  "events_class n = events_ns @ CHR 0x5C # n"

definition plain_class ::
  "string \<Rightarrow> zend_function_entry list \<Rightarrow> object_struct \<Rightarrow> object_struct zend_class" where
  "plain_class n functions s =
     \<lparr>ce_name = ngtcp2_class n, ce_parent = None, ce_functions = functions,
      ce_create_object = Some s, ce_abstract = False, ce_constants = []\<rparr>"

definition event_subclass :: "string \<Rightarrow> string \<Rightarrow> bool \<Rightarrow> object_struct zend_class" where
  "event_subclass n parent abstract =
     \<lparr>ce_name = events_class n, ce_parent = Some parent, ce_functions = php_quic_event_methods,
      ce_create_object = Some S_event_object, ce_abstract = abstract, ce_constants = []\<rparr>"

definition event_constants :: "(string \<times> zend_long) list" where
  "event_constants =
     [(''HANDSHAKE_COMPLETED'', ucast PHP_QUIC_EVENT_HANDSHAKE_COMPLETED),
      (''CONNECTION_CLOSED'', ucast PHP_QUIC_EVENT_CONNECTION_CLOSED),
      (''CONNECTION_DRAINING'', ucast PHP_QUIC_EVENT_CONNECTION_DRAINING),
      (''STREAM_OPENED'', ucast PHP_QUIC_EVENT_STREAM_OPENED),
      (''STREAM_READABLE'', ucast PHP_QUIC_EVENT_STREAM_READABLE),
      (''STREAM_WRITABLE'', ucast PHP_QUIC_EVENT_STREAM_WRITABLE),
      (''STREAM_CLOSED'', ucast PHP_QUIC_EVENT_STREAM_CLOSED),
      (''STREAM_RESET'', ucast PHP_QUIC_EVENT_STREAM_RESET)]"

definition struct_handlers :: "object_struct \<Rightarrow> object_struct zend_object_handlers" where
  "struct_handlers s = \<lparr>oh_offset = Some s, oh_free_obj = Some s, oh_clone_std = True\<rparr>"

lemma class_name_eqs:
  "(ngtcp2_ns @ CHR 0x5C # a = ngtcp2_ns @ CHR 0x5C # b) = (a = b)"
  "(events_ns @ CHR 0x5C # a = events_ns @ CHR 0x5C # b) = (a = b)"
  "ngtcp2_ns @ CHR 0x5C # a \<noteq> events_ns @ CHR 0x5C # b"
  "events_ns @ CHR 0x5C # b \<noteq> ngtcp2_ns @ CHR 0x5C # a"
  by (simp_all add: ngtcp2_ns_def events_ns_def)

lemmas module_inits =
  php_ngtcp2_address_init_def php_ngtcp2_datagram_init_def php_ngtcp2_event_init_def
  php_ngtcp2_connection_init_def php_ngtcp2_server_connection_init_def
  php_ngtcp2_server_endpoint_init_def php_ngtcp2_stream_init_def

definition started_state :: module_state where
  "started_state =
     \<lparr>m_gnutls = 1,
      m_class_table =
       [plain_class ''Stream'' php_quic_stream_methods S_stream,
        plain_class ''ServerEndpoint'' php_quic_server_endpoint_methods S_server_endpoint,
        (plain_class ''ServerConnection''
            (php_quic_server_connection_methods @
             [f \<leftarrow> php_quic_connection_methods.
               fe_name f \<notin> fe_name ` set php_quic_server_connection_methods]) S_connection)
          \<lparr>ce_parent := Some (ngtcp2_class ''Connection'')\<rparr>,
        plain_class ''ServerConfig'' php_quic_server_config_methods S_server_config,
        plain_class ''Connection'' php_quic_connection_methods S_connection,
        plain_class ''ClientConfig'' php_quic_client_config_methods S_client_config,
        event_subclass ''StreamReset'' (events_class ''TerminalStreamEvent'') False,
        event_subclass ''StreamClosed'' (events_class ''TerminalStreamEvent'') False,
        event_subclass ''StreamWritable'' (events_class ''StreamEvent'') False,
        event_subclass ''StreamReadable'' (events_class ''StreamEvent'') False,
        event_subclass ''StreamOpened'' (events_class ''StreamEvent'') False,
        event_subclass ''ConnectionDraining'' (events_class ''ConnectionEvent'') False,
        event_subclass ''ConnectionClosed'' (events_class ''ConnectionEvent'') False,
        event_subclass ''HandshakeCompleted'' (events_class ''ConnectionEvent'') False,
        event_subclass ''TerminalStreamEvent'' (events_class ''StreamEvent'') True,
        event_subclass ''StreamEvent'' (ngtcp2_class ''Event'') True,
        event_subclass ''ConnectionEvent'' (ngtcp2_class ''Event'') True,
        (plain_class ''Event'' php_quic_event_methods S_event_object)
          \<lparr>ce_abstract := True, ce_constants := event_constants\<rparr>,
        plain_class ''Datagram'' php_quic_datagram_methods S_datagram,
        plain_class ''Address'' php_quic_address_methods S_address],
      m_class_entries =
       [(php_quic_address_ce, ngtcp2_class ''Address''),
        (php_quic_datagram_ce, ngtcp2_class ''Datagram''),
        (php_quic_event_ce, ngtcp2_class ''Event''),
        (php_quic_connection_event_ce, events_class ''ConnectionEvent''),
        (php_quic_stream_event_ce, events_class ''StreamEvent''),
        (php_quic_terminal_stream_event_ce, events_class ''TerminalStreamEvent''),
        (php_quic_handshake_completed_ce, events_class ''HandshakeCompleted''),
        (php_quic_connection_closed_ce, events_class ''ConnectionClosed''),
        (php_quic_connection_draining_ce, events_class ''ConnectionDraining''),
        (php_quic_stream_opened_ce, events_class ''StreamOpened''),
        (php_quic_stream_readable_ce, events_class ''StreamReadable''),
        (php_quic_stream_writable_ce, events_class ''StreamWritable''),
        (php_quic_stream_closed_ce, events_class ''StreamClosed''),
        (php_quic_stream_reset_ce, events_class ''StreamReset''),
        (php_quic_client_config_ce, ngtcp2_class ''ClientConfig''),
        (php_quic_connection_ce, ngtcp2_class ''Connection''),
        (php_quic_server_config_ce, ngtcp2_class ''ServerConfig''),
        (php_quic_server_connection_ce, ngtcp2_class ''ServerConnection''),
        (php_quic_server_endpoint_ce, ngtcp2_class ''ServerEndpoint''),
        (php_quic_stream_ce, ngtcp2_class ''Stream'')],
      m_handlers =
       [(S_address, struct_handlers S_address),
        (S_datagram, struct_handlers S_datagram),
        (S_event_object, struct_handlers S_event_object),
        (S_client_config, struct_handlers S_client_config),
        (S_connection, struct_handlers S_connection),
        (S_server_config, struct_handlers S_server_config),
        (S_server_endpoint, struct_handlers S_server_endpoint),
        (S_stream, struct_handlers S_stream)],
      m_warnings = []\<rparr>"

lemma PHP_MINIT_started: "PHP_MINIT 0 strerror module_unloaded = (SUCCESS, started_state)"
  by (simp add: PHP_MINIT_def module_unloaded_def Let_def module_inits registration_steps
        INIT_NS_CLASS_ENTRY_def zend_do_inheritance_def find_class_def update_class_def
        class_name_eqs std_object_handlers_def plain_class_def event_subclass_def
        event_constants_def struct_handlers_def ngtcp2_class_def events_class_def
        started_state_def
      cong: let_weak_cong)

lemma module_started_eq [code]: "module_started = started_state"
  by (simp add: module_started_def PHP_MINIT_started)

subsection \<open>The classes and their objects\<close>

text \<open>The class entry variable of each event class of \<open>Quic_Event\<close>.\<close>

fun event_class_ce :: "event_class \<Rightarrow> class_var" where
  "event_class_ce Event = php_quic_event_ce"
| "event_class_ce ConnectionEvent = php_quic_connection_event_ce"
| "event_class_ce StreamEvent = php_quic_stream_event_ce"
| "event_class_ce TerminalStreamEvent = php_quic_terminal_stream_event_ce"
| "event_class_ce HandshakeCompleted = php_quic_handshake_completed_ce"
| "event_class_ce ConnectionClosed = php_quic_connection_closed_ce"
| "event_class_ce ConnectionDraining = php_quic_connection_draining_ce"
| "event_class_ce StreamOpened = php_quic_stream_opened_ce"
| "event_class_ce StreamReadable = php_quic_stream_readable_ce"
| "event_class_ce StreamWritable = php_quic_stream_writable_ce"
| "event_class_ce StreamClosed = php_quic_stream_closed_ce"
| "event_class_ce StreamReset = php_quic_stream_reset_ce"

definition event_class_name :: "module_state \<Rightarrow> event_class \<Rightarrow> string" where
  "event_class_name m c = the (class_entry_name m (event_class_ce c))"

text \<open>The line of ancestors of a class in the table.\<close>

fun ancestors :: "'s zend_class list \<Rightarrow> string \<Rightarrow> string list" where
  "ancestors [] c = [c]"
| "ancestors (ce # table) c =
     (if ce_name ce = c
      then c # (case ce_parent ce of None \<Rightarrow> [] | Some p \<Rightarrow> ancestors table p)
      else ancestors table c)"

lemma ancestors_self: "c \<in> set (ancestors table c)"
  by (induction table c rule: ancestors.induct) auto

lemma instanceof_ancestors: "instanceof table c d \<longleftrightarrow> d \<in> set (ancestors table c)"
  using ancestors_self
  by (induction table c d rule: instanceof.induct) (auto split: option.splits)

lemmas started_names =
  started_state_def plain_class_def event_subclass_def ngtcp2_class_def events_class_def
  class_name_eqs

lemma class_entry_started:
  "class_entry_name started_state (event_class_ce c) = Some
     (case c of Event \<Rightarrow> ngtcp2_class ''Event'' | _ \<Rightarrow> events_class
       (case c of ConnectionEvent \<Rightarrow> ''ConnectionEvent'' | StreamEvent \<Rightarrow> ''StreamEvent''
        | TerminalStreamEvent \<Rightarrow> ''TerminalStreamEvent''
        | HandshakeCompleted \<Rightarrow> ''HandshakeCompleted''
        | ConnectionClosed \<Rightarrow> ''ConnectionClosed'' | ConnectionDraining \<Rightarrow> ''ConnectionDraining''
        | StreamOpened \<Rightarrow> ''StreamOpened'' | StreamReadable \<Rightarrow> ''StreamReadable''
        | StreamWritable \<Rightarrow> ''StreamWritable'' | StreamClosed \<Rightarrow> ''StreamClosed''
        | StreamReset \<Rightarrow> ''StreamReset''))"
  by (cases c) (simp_all add: class_entry_name_def started_state_def)

lemmas event_class_name_started = class_entry_started [THEN arg_cong [where f = the], simplified option.sel]

lemma superclasses_list:
  "superclasses c =
     (case c of Event \<Rightarrow> [Event]
      | ConnectionEvent \<Rightarrow> [ConnectionEvent, Event]
      | StreamEvent \<Rightarrow> [StreamEvent, Event]
      | TerminalStreamEvent \<Rightarrow> [TerminalStreamEvent, StreamEvent, Event]
      | HandshakeCompleted \<Rightarrow> [HandshakeCompleted, ConnectionEvent, Event]
      | ConnectionClosed \<Rightarrow> [ConnectionClosed, ConnectionEvent, Event]
      | ConnectionDraining \<Rightarrow> [ConnectionDraining, ConnectionEvent, Event]
      | StreamOpened \<Rightarrow> [StreamOpened, StreamEvent, Event]
      | StreamReadable \<Rightarrow> [StreamReadable, StreamEvent, Event]
      | StreamWritable \<Rightarrow> [StreamWritable, StreamEvent, Event]
      | StreamClosed \<Rightarrow> [StreamClosed, TerminalStreamEvent, StreamEvent, Event]
      | StreamReset \<Rightarrow> [StreamReset, TerminalStreamEvent, StreamEvent, Event])"
  by (induction c; code_simp)

lemma event_ancestors:
  "ancestors (m_class_table started_state) (event_class_name started_state c) =
     map (event_class_name started_state) (superclasses c)"
  unfolding event_class_name_def event_class_name_started superclasses_list
  by (cases c) (simp_all add: started_names)

lemma event_class_name_inj:
  "event_class_name started_state c = event_class_name started_state d \<longleftrightarrow> c = d"
  unfolding event_class_name_def event_class_name_started
  by (cases c; cases d) (simp_all add: events_class_def ngtcp2_class_def class_name_eqs)

lemma event_hierarchy:
  "instanceof (m_class_table started_state) (event_class_name started_state c)
     (event_class_name started_state d) \<longleftrightarrow> d \<in> set (superclasses c)"
  by (auto simp: instanceof_ancestors event_ancestors event_class_name_inj)

lemma started_names_distinct: "distinct (map ce_name (m_class_table started_state))"
  by (simp add: started_names)

lemma find_class_distinct:
  "distinct (map ce_name table) \<Longrightarrow> ce \<in> set table \<Longrightarrow> find_class table (ce_name ce) = Some ce"
  by (induction table) (auto simp: find_class_def)

text \<open>
  An object of a class is created by \<^verbatim>\<open>create_object\<close> with a structure whose offset and
  free function are in its handlers; \<^verbatim>\<open>clone\<close> is left to the engine.
\<close>

definition object_consistent :: "module_state \<Rightarrow> object_struct zend_class \<Rightarrow> bool" where
  "object_consistent m ce \<longleftrightarrow>
     (case object_init_ex m (ce_name ce) of
        None \<Rightarrow> ce_abstract ce
      | Some (None, _) \<Rightarrow> False
      | Some (Some s, None) \<Rightarrow> False
      | Some (Some s, Some h) \<Rightarrow> \<not> ce_abstract ce \<and> oh_offset h = Some s \<and> oh_free_obj h = Some s)"

lemma started_create_objects:
  "list_all (\<lambda>ce. \<exists>s. ce_create_object ce = Some s \<and>
       map_of (m_handlers started_state) s = Some (struct_handlers s))
     (m_class_table started_state)"
  by (simp add: started_state_def plain_class_def event_subclass_def)

lemma objects_consistent:
  "list_all (object_consistent started_state) (m_class_table started_state)"
proof -
  have "object_consistent started_state ce" if mem: "ce \<in> set (m_class_table started_state)" for ce
  proof -
    obtain s where "ce_create_object ce = Some s"
      and "map_of (m_handlers started_state) s = Some (struct_handlers s)"
      using bspec [OF started_create_objects [unfolded list_all_iff] mem] by blast
    then show ?thesis
      using find_class_distinct [OF started_names_distinct mem]
      by (simp add: object_consistent_def object_init_ex_def struct_handlers_def)
  qed
  then show ?thesis by (simp add: list_all_iff)
qed

lemma event_objects:
  "(object_init_ex started_state (event_class_name started_state c) = None) = event_class_abstract c"
  unfolding event_class_name_def event_class_name_started
  by (cases c)
    (simp_all add: object_init_ex_def find_class_def started_names)

text \<open>
  A class comes after its parent, and its parent is the only class it names.
\<close>

fun parents_registered :: "'s zend_class list \<Rightarrow> bool" where
  "parents_registered [] = True"
| "parents_registered (ce # table) =
     (parents_registered table \<and>
      (case ce_parent ce of None \<Rightarrow> True | Some p \<Rightarrow> p \<in> ce_name ` set table))"

lemma started_parents: "parents_registered (m_class_table started_state)"
  by (simp add: started_names)

lemma started_constants:
  "list_all (\<lambda>ce. ce_constants ce =
       (if ce_name ce = ngtcp2_class ''Event'' then event_constants else []))
     (m_class_table started_state)"
  by (simp add: started_names)

lemma started_clones:
  "list_all (\<lambda>(s, h). clone_object h = Some (None, Some std_object_handlers))
     (m_handlers started_state)"
  by (simp add: started_state_def clone_object_def struct_handlers_def)

lemma started_entries: "\<exists>c. class_entry_name started_state var = Some c"
  by (cases var) (simp_all add: class_entry_name_def started_state_def)

definition class_functions :: "module_state \<Rightarrow> string \<Rightarrow> zend_function_entry list" where
  "class_functions m n =
     (case find_class (m_class_table m) (ngtcp2_class n) of None \<Rightarrow> [] | Some ce \<Rightarrow> ce_functions ce)"

lemma server_connection_functions:
  "class_functions started_state ''ServerConnection'' =
     php_quic_server_connection_methods @
     [f \<leftarrow> class_functions started_state ''Connection'' . fe_name f \<noteq> ''__construct'']"
proof -
  have "fe_name f \<notin> fe_name ` set php_quic_server_connection_methods \<longleftrightarrow> fe_name f \<noteq> ''__construct''"
    if "f \<in> set php_quic_connection_methods" for f
    using that
    by (auto simp: php_quic_server_connection_methods_def php_quic_connection_methods_def PHP_ME_def)
  then show ?thesis
    by (simp add: class_functions_def find_class_def started_names cong: filter_cong)
qed

lemma server_connection_isa:
  "instanceof (m_class_table started_state) (ngtcp2_class ''ServerConnection'')
     (ngtcp2_class ''Connection'')"
  by (simp add: instanceof_ancestors started_names)

text \<open>
  C38. Starting the module. When GnuTLS cannot be initialised, the start fails with a warning and
  nothing is registered. Otherwise it succeeds, and shutting down undoes the initialisation of
  GnuTLS. Every class entry variable is assigned, the names are distinct, every class is
  registered after its parent. An object of any class that is not abstract is allocated in its
  own structure, at the offset and with the free function that its handlers have; the event
  classes are related and abstract as the model of events says; a server connection is a
  connection with all its methods except the constructor. Two gaps are shown too: the class
  constants are on \<^verbatim>\<open>Event\<close> alone, because the subclasses were registered before them,
  and \<^verbatim>\<open>clone\<close> makes an object without the structure that the methods use.
\<close>

theorem module_startup:
  "let (r, m) = PHP_MINIT rv strerror module_unloaded; table = m_class_table m in
     if rv \<noteq> 0
     then r = FAILURE \<and>
          m = module_unloaded\<lparr>m_warnings := [''gnutls_global_init failed: '' @ strerror rv]\<rparr>
     else r = SUCCESS \<and> m_warnings m = [] \<and> m_gnutls (snd (PHP_MSHUTDOWN m)) = 0 \<and>
       (\<forall>var. class_entry_name m var \<noteq> None) \<and>
       distinct (map ce_name table) \<and> parents_registered table \<and>
       list_all (object_consistent m) table \<and>
       (\<forall>c d. instanceof table (event_class_name m c) (event_class_name m d) \<longleftrightarrow> c \<le> d) \<and>
       (\<forall>c. object_init_ex m (event_class_name m c) = None \<longleftrightarrow> event_class_abstract c) \<and>
       instanceof table (ngtcp2_class ''ServerConnection'') (ngtcp2_class ''Connection'') \<and>
       class_functions m ''ServerConnection'' =
         php_quic_server_connection_methods @
         [f \<leftarrow> class_functions m ''Connection'' . fe_name f \<noteq> ''__construct''] \<and>
       list_all (\<lambda>ce. ce_constants ce =
           (if ce_name ce = ngtcp2_class ''Event'' then event_constants else [])) table \<and>
       list_all (\<lambda>(s, h). clone_object h = Some (None, Some std_object_handlers)) (m_handlers m)"
proof (cases "rv = 0")
  case True
  have "m_gnutls (snd (PHP_MSHUTDOWN started_state)) = 0" and "m_warnings started_state = []"
    by (simp_all add: PHP_MSHUTDOWN_def started_state_def)
  moreover have "class_entry_name started_state var \<noteq> None" for var
    using started_entries [of var] by auto
  ultimately show ?thesis
    using started_names_distinct started_parents objects_consistent event_hierarchy event_objects
      server_connection_isa server_connection_functions started_constants started_clones
    by (simp only: True PHP_MINIT_started Let_def prod.case simp_thms if_False not_True_eq_False
        less_eq_event_class_def)
next
  case False
  then show ?thesis by (simp add: PHP_MINIT_def module_unloaded_def)
qed

subsection \<open>Arguments\<close>

text \<open>For a method of a class: its parameter block agrees with its argument table.\<close>

definition method_agrees :: "module_state \<Rightarrow> zend_function_entry \<Rightarrow> bool" where
  "method_agrees m f =
     (case map_of php_method_blocks (fe_handler f) of
        None \<Rightarrow> False
      | Some z \<Rightarrow> block_agrees (class_entry_name m) (fe_arginfo f) z)"

definition all_methods :: "zend_function_entry list" where
  "all_methods =
     php_quic_address_methods @ php_quic_datagram_methods @ php_quic_event_methods @
     php_quic_client_config_methods @ php_quic_connection_methods @
     php_quic_server_config_methods @ php_quic_server_connection_methods @
     php_quic_server_endpoint_methods @ php_quic_stream_methods"

lemma started_methods:
  "ce \<in> set (m_class_table started_state) \<Longrightarrow> set (ce_functions ce) \<subseteq> set all_methods"
  by (auto simp: started_state_def plain_class_def event_subclass_def all_methods_def)

lemma plain_methods_agree:
  "list_all (method_agrees started_state) php_quic_address_methods"
  "list_all (method_agrees started_state) php_quic_datagram_methods"
  "list_all (method_agrees started_state) php_quic_event_methods"
  "list_all (method_agrees started_state) php_quic_stream_methods"
  by code_simp+

lemma config_methods_agree:
  "list_all (method_agrees started_state) php_quic_client_config_methods"
  "list_all (method_agrees started_state) php_quic_server_config_methods"
  by code_simp+

lemma connection_methods_agree:
  "list_all (method_agrees started_state) php_quic_connection_methods"
  "list_all (method_agrees started_state) php_quic_server_connection_methods"
  "list_all (method_agrees started_state) php_quic_server_endpoint_methods"
  by code_simp+

lemma methods_agree: "list_all (method_agrees started_state) all_methods"
  by (simp only: all_methods_def list_all_append plain_methods_agree config_methods_agree
      connection_methods_agree simp_thms)

text \<open>
  C39. Every method visible in a registered class, inherited ones included, takes exactly the
  arguments its argument table declares. The parser never reads past the arguments passed, and
  it accepts a call if and only if the engine finds nothing wrong with it by the table: the
  number of arguments, their types, the classes of objects, whether \<^verbatim>\<open>null\<close> is
  allowed, in strict and in weak mode. The exceptions are the methods without a parameter block.
  All of them are declared without arguments; they accept, and ignore, any arguments passed.
\<close>

theorem arginfo_matches_parsing:
  assumes "ce \<in> set (m_class_table module_started)" and "f \<in> set (ce_functions ce)"
  shows "\<exists>z. map_of php_method_blocks (fe_handler f) = Some z \<and>
     (if z = No_parsing then required_num_args (fe_arginfo f) = 0 \<and> arg_infos (fe_arginfo f) = []
      else \<forall>weak args.
        (let isa = instanceof (m_class_table module_started);
             r = zend_parse weak isa (class_entry_name module_started) z args
         in r \<noteq> Zpp_overrun \<and>
            ((\<exists>xs. r = Zpp_ok xs) \<longleftrightarrow> \<not> call_should_throw weak isa (fe_arginfo f) args)))"
proof -
  have "method_agrees started_state f"
    using assms started_methods methods_agree by (auto simp: module_started_eq list_all_iff)
  then obtain z where "map_of php_method_blocks (fe_handler f) = Some z"
    and "block_agrees (class_entry_name started_state) (fe_arginfo f) z"
    by (auto simp: method_agrees_def split: option.splits)
  then show ?thesis
    using block_agrees_parse [of "class_entry_name started_state" "fe_arginfo f" z]
    by (cases "z = No_parsing") (auto simp: module_started_eq parse_matches_def)
qed

text \<open>
  A call of \<^verbatim>\<open>Connection::getStream\<close> with an integer is accepted, with
  \<^verbatim>\<open>null\<close> refused.
\<close>

definition sample_method :: zend_function_entry where
  "sample_method =
     PHP_ME ''Ngtcp2_Connection'' ''getStream'' arginfo_connection_get_stream [ZEND_ACC_PUBLIC]"

lemma sample_method_registered:
  "plain_class ''Connection'' php_quic_connection_methods S_connection
     \<in> set (m_class_table module_started)"
  "sample_method
     \<in> set (ce_functions (plain_class ''Connection'' php_quic_connection_methods S_connection))"
  by (simp_all add: module_started_eq started_state_def plain_class_def sample_method_def
      php_quic_connection_methods_def)

lemma sample_method_body:
  "map_of php_method_blocks (fe_handler sample_method) =
     Some (ZEND_PARSE_PARAMETERS 1 1 [Z_PARAM_LONG])"
  by code_simp

theorem arginfo_matches_parsing_witness:
  "(\<exists>xs. zend_parse strict_types (instanceof (m_class_table module_started))
      (class_entry_name module_started) (ZEND_PARSE_PARAMETERS 1 1 [Z_PARAM_LONG]) [P_long 4] = Zpp_ok xs) \<and>
   (\<nexists>xs. zend_parse strict_types (instanceof (m_class_table module_started))
      (class_entry_name module_started) (ZEND_PARSE_PARAMETERS 1 1 [Z_PARAM_LONG]) [P_null] = Zpp_ok xs)"
proof -
  have "\<not> call_should_throw strict_types isa (fe_arginfo sample_method) [P_long 4]"
    and "call_should_throw strict_types isa (fe_arginfo sample_method) [P_null]" for isa
    by (simp_all add: call_should_throw_def arg_accepts_def sample_method_def PHP_ME_def
        strict_types_def arginfo_connection_get_stream_def arginfo_macros)
  moreover obtain z where "map_of php_method_blocks (fe_handler sample_method) = Some z"
    and parsing: "if z = No_parsing
      then required_num_args (fe_arginfo sample_method) = 0 \<and>
        arg_infos (fe_arginfo sample_method) = []
      else \<forall>weak args.
        (let isa = instanceof (m_class_table module_started);
             r = zend_parse weak isa (class_entry_name module_started) z args
         in r \<noteq> Zpp_overrun \<and> ((\<exists>xs. r = Zpp_ok xs) \<longleftrightarrow>
              \<not> call_should_throw weak isa (fe_arginfo sample_method) args))"
    using arginfo_matches_parsing [OF sample_method_registered] by blast
  then have "z = ZEND_PARSE_PARAMETERS 1 1 [Z_PARAM_LONG]" by (simp add: sample_method_body)
  ultimately show ?thesis
    using parsing unfolding Let_def by (metis zpp.distinct(3))
qed

end
