(* ===== verification/Quic_Refcount.thy ===== *)
theory Quic_Refcount
  imports Quic_Prelude "HOL-Library.Multiset" "HOL-Library.Monad_Syntax"
begin

text \<open>
  The engine's reference counted values: strings, arrays and objects live in a heap of cells
  with a count, and a value that is not counted holds no reference. A cell whose count reaches
  zero is freed, after which the values it held are released in turn. Using a freed cell is the
  error \<open>None\<close>. Around it stands the invariant \<open>heap_inv\<close>: every count is exact, nothing points
  to a freed cell, and every value is of a kind its place allows.
\<close>

subsection \<open>Heap\<close>

type_synonym zhandle = nat

text \<open>
  \<^verbatim>\<open>IS_UNDEF\<close> and a \<^verbatim>\<open>NULL\<close> pointer are \<open>V_undef\<close>; \<^verbatim>\<open>IS_NULL\<close> and
  values that are not counted are \<open>V_null\<close>.
\<close>

datatype zval = V_undef | V_null | V_ref zhandle

datatype zkind =
    K_string | K_array | K_address | K_datagram | K_event | K_client_config | K_server_config
  | K_connection | K_stream | K_server_endpoint

text \<open>
  A cell's content: its counted fields in the order of the C structure (the elements, for an
  array) and, for an endpoint, its hash table of connections.
\<close>

record zobj =
  zo_kind :: zkind
  zo_slots :: "zval list"
  zo_table :: "(zstring \<times> zval) list"

record zheap =
  zh_next :: zhandle
  zh_cells :: "(zhandle \<times> nat \<times> zobj) list"

definition zheap_empty :: zheap where
  "zheap_empty = \<lparr>zh_next = 0, zh_cells = []\<rparr>"

definition cell :: "zheap \<Rightarrow> zhandle \<Rightarrow> (nat \<times> zobj) option" where
  "cell H h = map_of (zh_cells H) h"

definition obj_of :: "zheap \<Rightarrow> zhandle \<Rightarrow> zobj option" where
  "obj_of H h = map_option snd (cell H h)"

definition kind_of :: "zheap \<Rightarrow> zhandle \<Rightarrow> zkind option" where
  "kind_of H h = map_option zo_kind (obj_of H h)"

definition set_cell :: "zhandle \<Rightarrow> nat \<times> zobj \<Rightarrow> zheap \<Rightarrow> zheap" where
  "set_cell h c H =
     H\<lparr>zh_cells := List.map (\<lambda>(k, d). if k = h then (k, c) else (k, d)) (zh_cells H)\<rparr>"

definition del_cell :: "zhandle \<Rightarrow> zheap \<Rightarrow> zheap" where
  "del_cell h H = H\<lparr>zh_cells := List.filter (\<lambda>(k, d). k \<noteq> h) (zh_cells H)\<rparr>"

definition alloc :: "zobj \<Rightarrow> zheap \<Rightarrow> zheap" where
  "alloc ob H = \<lparr>zh_next = Suc (zh_next H), zh_cells = (zh_next H, 1, ob) # zh_cells H\<rparr>"

fun zv_handles :: "zval \<Rightarrow> zhandle list" where
  "zv_handles (V_ref h) = [h]"
| "zv_handles _ = []"

definition handles :: "zval list \<Rightarrow> zhandle multiset" where
  "handles vs = mset (concat (List.map zv_handles vs))"

lemma handles_simps [simp]:
  "handles [] = {#}"
  "handles (V_undef # vs) = handles vs"
  "handles (V_null # vs) = handles vs"
  "handles (V_ref h # vs) = {#h#} + handles vs"
  "handles (vs @ ws) = handles vs + handles ws"
  by (simp_all add: handles_def)

lemma handles_Cons: "handles (v # vs) = handles [v] + handles vs"
  by (cases v) simp_all

lemma in_handles: "h \<in># handles vs \<longleftrightarrow> V_ref h \<in> set vs"
proof (induction vs)
  case (Cons v vs)
  then show ?case by (cases v) auto
qed simp

definition ob_values :: "zobj \<Rightarrow> zval list" where
  "ob_values ob = zo_slots ob @ List.map snd (zo_table ob)"

definition heap_refs :: "zheap \<Rightarrow> zhandle multiset" where
  "heap_refs H = sum_list (List.map (\<lambda>(h, rc, ob). handles (ob_values ob)) (zh_cells H))"

subsection \<open>Kinds\<close>

text \<open>What the fields of each kind may refer to.\<close>

fun slot_kinds :: "zkind \<Rightarrow> zkind set list" where
  "slot_kinds K_string = []"
| "slot_kinds K_array = []"
| "slot_kinds K_address = [{K_string}]"
| "slot_kinds K_datagram = [{K_string}, {K_address}, {K_address}]"
| "slot_kinds K_event = [{K_string}]"
| "slot_kinds K_client_config = [{K_address}, {K_string}, {K_string}]"
| "slot_kinds K_server_config = [{K_address}, {K_string}, {K_string}, {K_string}]"
| "slot_kinds K_connection = [{K_address}, {K_address}, {K_string}]"
| "slot_kinds K_stream = [{K_connection}]"
| "slot_kinds K_server_endpoint = [{K_server_config}, {K_array}]"

definition element_kinds :: "zkind set" where
  "element_kinds = {K_datagram, K_event, K_connection}"

definition value_ok :: "zheap \<Rightarrow> zval \<Rightarrow> zkind set \<Rightarrow> bool" where
  "value_ok H v ks = (case v of V_ref h \<Rightarrow> kind_of H h \<in> Some ` ks | _ \<Rightarrow> True)"

fun is_ref :: "zval \<Rightarrow> bool" where
  "is_ref (V_ref h) = True"
| "is_ref _ = False"

text \<open>The queue of an endpoint is always an array.\<close>

definition obj_ok :: "zheap \<Rightarrow> zobj \<Rightarrow> bool" where
  "obj_ok H ob \<longleftrightarrow>
     (if zo_kind ob = K_array then list_all (\<lambda>v. value_ok H v element_kinds) (zo_slots ob)
      else list_all2 (value_ok H) (zo_slots ob) (slot_kinds (zo_kind ob))) \<and>
     (zo_kind ob \<noteq> K_server_endpoint \<longrightarrow> zo_table ob = []) \<and>
     (zo_kind ob = K_server_endpoint \<longrightarrow> is_ref (zo_slots ob ! 1)) \<and>
     list_all (\<lambda>v. value_ok H v {K_connection}) (List.map snd (zo_table ob))"

text \<open>Fields refer to kinds of a lower level only, so there are no cycles.\<close>

fun kind_level :: "zkind \<Rightarrow> nat" where
  "kind_level K_string = 0"
| "kind_level K_address = 1"
| "kind_level K_event = 1"
| "kind_level K_datagram = 2"
| "kind_level K_client_config = 2"
| "kind_level K_server_config = 2"
| "kind_level K_connection = 2"
| "kind_level K_stream = 3"
| "kind_level K_array = 3"
| "kind_level K_server_endpoint = 4"

subsection \<open>The invariant\<close>

text \<open>
  \<open>R\<close> are the references held outside the heap: by the script, by arguments of a running call,
  by local variables of C functions.
\<close>

fun count_ok :: "zhandle multiset \<Rightarrow> (nat \<times> zobj) option \<Rightarrow> zhandle \<Rightarrow> bool" where
  "count_ok T None h \<longleftrightarrow> h \<notin># T"
| "count_ok T (Some (rc, ob)) h \<longleftrightarrow> 0 < rc \<and> rc = count T h"

definition counts_exact :: "zhandle multiset \<Rightarrow> zheap \<Rightarrow> bool" where
  "counts_exact R H \<longleftrightarrow> (\<forall>h. count_ok (R + heap_refs H) (cell H h) h)"

lemma count_ok_cong: "count T h = count T' h \<Longrightarrow> count_ok T c h = count_ok T' c h"
  by (cases "(T, c, h)" rule: count_ok.cases) (simp_all add: not_in_iff)

definition heap_ok :: "zheap \<Rightarrow> bool" where
  "heap_ok H \<longleftrightarrow>
     distinct (List.map fst (zh_cells H)) \<and> list_all (\<lambda>h. h < zh_next H) (List.map fst (zh_cells H)) \<and>
     (\<forall>h ob. obj_of H h = Some ob \<longrightarrow> obj_ok H ob)"

definition heap_inv :: "zhandle multiset \<Rightarrow> zheap \<Rightarrow> bool" where
  "heap_inv R H \<longleftrightarrow> counts_exact R H \<and> heap_ok H"

lemma heap_inv_empty: "heap_inv {#} zheap_empty"
  by (simp add: heap_inv_def counts_exact_def heap_ok_def zheap_empty_def cell_def obj_of_def
      heap_refs_def)

subsection \<open>Cells and references\<close>

lemma cell_set_cell:
  "cell (set_cell h c H) k = (if k = h then map_option (\<lambda>_. c) (cell H h) else cell H k)"
proof -
  have "map_of (List.map (\<lambda>(k, d). if k = h then (k, c) else (k, d)) xs) k =
      (if k = h then map_option (\<lambda>_. c) (map_of xs h) else map_of xs k)" for xs :: "(zhandle \<times> nat \<times> zobj) list"
    by (induction xs) auto
  then show ?thesis by (simp add: cell_def set_cell_def)
qed

lemma cell_del_cell: "cell (del_cell h H) k = (if k = h then None else cell H k)"
proof -
  have "map_of (List.filter (\<lambda>(k, d). k \<noteq> h) xs) k = (if k = h then None else map_of xs k)"
    for xs :: "(zhandle \<times> nat \<times> zobj) list"
    by (induction xs) auto
  then show ?thesis by (simp add: cell_def del_cell_def)
qed

lemma cell_alloc: "cell (alloc ob H) k = (if k = zh_next H then Some (1, ob) else cell H k)"
  by (simp add: cell_def alloc_def)

lemma keys_set_cell: "List.map fst (zh_cells (set_cell h c H)) = List.map fst (zh_cells H)"
  by (auto simp: set_cell_def)

lemma next_simps [simp]:
  "zh_next (set_cell h c H) = zh_next H" "zh_next (del_cell h H) = zh_next H"
  "zh_next (alloc ob H) = Suc (zh_next H)"
  by (simp_all add: set_cell_def del_cell_def alloc_def)

lemma heap_refs_alloc: "heap_refs (alloc ob H) = handles (ob_values ob) + heap_refs H"
  by (simp add: heap_refs_def alloc_def)

lemma cells_split:
  assumes "cell H h = Some (rc, ob)" and "distinct (List.map fst (zh_cells H))"
  obtains xs ys where "zh_cells H = xs @ (h, rc, ob) # ys" and "h \<notin> fst ` set xs" and "h \<notin> fst ` set ys"
proof -
  have "(h, rc, ob) \<in> set (zh_cells H)" using assms(1) by (auto simp: cell_def dest: map_of_SomeD)
  then obtain xs ys where "zh_cells H = xs @ (h, rc, ob) # ys" by (meson split_list)
  with assms(2) that show thesis by (auto simp: image_iff)
qed

lemma untouched_cells:
  assumes "h \<notin> fst ` set xs"
  shows "List.map (\<lambda>(k, d). if k = h then (k, c) else (k, d)) xs = xs"
    and "List.filter (\<lambda>(k, d). k \<noteq> h) xs = xs"
  using assms by (induction xs) auto

lemma heap_refs_del:
  assumes "cell H h = Some (rc, ob)" and "distinct (List.map fst (zh_cells H))"
  shows "heap_refs H = heap_refs (del_cell h H) + handles (ob_values ob)"
proof -
  obtain xs ys where "zh_cells H = xs @ (h, rc, ob) # ys" "h \<notin> fst ` set xs" "h \<notin> fst ` set ys"
    using cells_split [OF assms] .
  then show ?thesis by (simp add: heap_refs_def del_cell_def untouched_cells)
qed

lemma heap_refs_set:
  assumes "cell H h = Some (rc, ob)" and "distinct (List.map fst (zh_cells H))"
  shows "heap_refs (set_cell h (rc', ob') H) + handles (ob_values ob) =
     heap_refs H + handles (ob_values ob')"
proof -
  obtain xs ys where "zh_cells H = xs @ (h, rc, ob) # ys" "h \<notin> fst ` set xs" "h \<notin> fst ` set ys"
    using cells_split [OF assms] .
  then show ?thesis by (simp add: heap_refs_def set_cell_def untouched_cells)
qed

lemma in_heap_refs:
  assumes "h \<in># heap_refs H"
  obtains k rc ob where "(k, rc, ob) \<in> set (zh_cells H)" and "h \<in># handles (ob_values ob)"
proof -
  have "\<exists>(k, rc, ob) \<in> set xs. h \<in># handles (ob_values ob)"
    if "h \<in># sum_list (List.map (\<lambda>(k, rc, ob). handles (ob_values ob)) xs)"
    for xs :: "(zhandle \<times> nat \<times> zobj) list"
    using that by (induction xs) auto
  with assms that show thesis by (fastforce simp: heap_refs_def)
qed

lemma set_cell_length [simp]: "length (zh_cells (set_cell h c H)) = length (zh_cells H)"
  by (simp add: set_cell_def)

lemma del_cell_shorter: "cell H h \<noteq> None \<Longrightarrow> length (zh_cells (del_cell h H)) < length (zh_cells H)"
  by (auto simp: cell_def del_cell_def map_of_eq_None_iff intro!: length_filter_less)

subsection \<open>The free functions\<close>

text \<open>
  What each \<^verbatim>\<open>free_object\<close> handler releases, in order. A field is released when it is not
  \<^verbatim>\<open>IS_UNDEF\<close> or \<^verbatim>\<open>NULL\<close>; the handler then clears it.
\<close>

definition field :: "zobj \<Rightarrow> nat \<Rightarrow> zval" where
  "field ob i = zo_slots ob ! i"

definition zend_array_free :: "zobj \<Rightarrow> zval list" where
  "zend_array_free ob = zo_slots ob"

definition address_free_object :: "zobj \<Rightarrow> zval list" where
  "address_free_object ob = [field ob 0]"

definition datagram_free_object :: "zobj \<Rightarrow> zval list" where
  "datagram_free_object ob = [field ob 0, field ob 1, field ob 2]"

definition event_free_object :: "zobj \<Rightarrow> zval list" where
  "event_free_object ob = [field ob 0]"

definition client_config_free_object :: "zobj \<Rightarrow> zval list" where
  "client_config_free_object ob = [field ob 0, field ob 1, field ob 2]"

definition server_config_free_object :: "zobj \<Rightarrow> zval list" where
  "server_config_free_object ob = [field ob 0, field ob 1, field ob 2, field ob 3]"

definition connection_free_object :: "zobj \<Rightarrow> zval list" where
  "connection_free_object ob = [field ob 0, field ob 1, field ob 2]"

definition stream_free_object :: "zobj \<Rightarrow> zval list" where
  "stream_free_object ob = [field ob 0]"

definition server_endpoint_free_object :: "zobj \<Rightarrow> zval list" where
  "server_endpoint_free_object ob = [field ob 0, field ob 1] @ List.map snd (zo_table ob)"

fun free_obj :: "zkind \<Rightarrow> zobj \<Rightarrow> zval list" where
  "free_obj K_string = (\<lambda>ob. [])"
| "free_obj K_array = zend_array_free"
| "free_obj K_address = address_free_object"
| "free_obj K_datagram = datagram_free_object"
| "free_obj K_event = event_free_object"
| "free_obj K_client_config = client_config_free_object"
| "free_obj K_server_config = server_config_free_object"
| "free_obj K_connection = connection_free_object"
| "free_obj K_stream = stream_free_object"
| "free_obj K_server_endpoint = server_endpoint_free_object"

lemmas free_object_defs =
  zend_array_free_def address_free_object_def datagram_free_object_def event_free_object_def
  client_config_free_object_def server_config_free_object_def connection_free_object_def
  stream_free_object_def server_endpoint_free_object_def field_def

text \<open>Each of them releases every value its object holds.\<close>

lemma free_obj_complete:
  assumes "obj_ok H ob"
  shows "handles (free_obj (zo_kind ob) ob) = handles (ob_values ob)"
  using assms
  by (cases "zo_kind ob")
    (auto simp: obj_ok_def ob_values_def free_object_defs list_all2_Cons2 handles_def)

subsection \<open>Releasing references\<close>

text \<open>
  \<^verbatim>\<open>zval_ptr_dtor\<close> on a list of values, and on what freed objects held: the count of the
  cell goes down, and at zero the cell is freed and its values come next.
\<close>

function release :: "zval list \<Rightarrow> zheap \<Rightarrow> zheap option" where
  "release [] H = Some H"
| "release (V_undef # vs) H = release vs H"
| "release (V_null # vs) H = release vs H"
| "release (V_ref h # vs) H =
     (case cell H h of
        None \<Rightarrow> None
      | Some (rc, ob) \<Rightarrow>
          if 1 < rc then release vs (set_cell h (rc - 1, ob) H)
          else release (free_obj (zo_kind ob) ob @ vs) (del_cell h H))"
  by pat_completeness auto
termination
  by (relation "measures [\<lambda>(vs, H). length (zh_cells H), \<lambda>(vs, H). length vs]")
    (auto intro: del_cell_shorter)

definition zval_ptr_dtor :: "zval \<Rightarrow> zheap \<Rightarrow> zheap option" where
  "zval_ptr_dtor v H = release [v] H"

text \<open>\<^verbatim>\<open>Z_TRY_ADDREF\<close>, the second half of \<^verbatim>\<open>ZVAL_COPY\<close>.\<close>

definition addref :: "zval \<Rightarrow> zheap \<Rightarrow> zheap option" where
  "addref v H =
     (case v of
        V_ref h \<Rightarrow> (case cell H h of None \<Rightarrow> None | Some (rc, ob) \<Rightarrow> Some (set_cell h (Suc rc, ob) H))
      | _ \<Rightarrow> Some H)"

text \<open>The state after is the one before with some cells gone and counts lower.\<close>

definition shrinks :: "zheap \<Rightarrow> zheap \<Rightarrow> bool" where
  "shrinks H H' \<longleftrightarrow> zh_next H' = zh_next H \<and>
     (\<forall>h ob. obj_of H' h = Some ob \<longrightarrow> obj_of H h = Some ob)"

lemma shrinks_refl: "shrinks H H"
  by (simp add: shrinks_def)

lemma shrinks_trans: "shrinks H H1 \<Longrightarrow> shrinks H1 H2 \<Longrightarrow> shrinks H H2"
  by (auto simp: shrinks_def)

lemma obj_of_set_cell: "cell H h = Some (rc, ob) \<Longrightarrow>
    obj_of (set_cell h (rc', ob') H) k = (if k = h then Some ob' else obj_of H k)"
  by (simp add: obj_of_def cell_set_cell)

lemma obj_of_set_count: "cell H h = Some (rc, ob) \<Longrightarrow> obj_of (set_cell h (rc', ob) H) = obj_of H"
  by (auto simp: fun_eq_iff obj_of_set_cell) (simp add: obj_of_def)

lemma obj_of_del_cell: "obj_of (del_cell h H) k = (if k = h then None else obj_of H k)"
  by (simp add: obj_of_def cell_del_cell)

lemma obj_of_alloc: "obj_of (alloc ob H) k = (if k = zh_next H then Some ob else obj_of H k)"
  by (simp add: obj_of_def cell_alloc)

lemma live_counted:
  assumes "heap_inv R H" and "h \<in># R + heap_refs H"
  obtains rc ob where "cell H h = Some (rc, ob)" and "0 < rc" and "rc = count (R + heap_refs H) h"
    and "obj_ok H ob"
proof -
  have "count_ok (R + heap_refs H) (cell H h) h"
    using assms(1) by (simp add: heap_inv_def counts_exact_def)
  with assms(2) obtain rc ob where c: "cell H h = Some (rc, ob)" "0 < rc"
    "rc = count (R + heap_refs H) h" by (cases "cell H h") auto
  moreover have "obj_ok H ob"
    using assms(1) c(1) by (auto simp: heap_inv_def heap_ok_def obj_of_def)
  ultimately show thesis by (rule that)
qed

lemma live_obj: "heap_inv R H \<Longrightarrow> h \<in># R + heap_refs H \<Longrightarrow> obj_of H h \<noteq> None"
  by (erule (1) live_counted) (simp add: obj_of_def)

text \<open>A change of one cell's content, with the references moving between heap and outside.\<close>

lemma obj_ok_kinds:
  assumes "obj_ok H ob" and "\<And>h. h \<in># handles (ob_values ob) \<Longrightarrow> kind_of H' h = kind_of H h"
  shows "obj_ok H' ob"
proof -
  have v: "value_ok H' v ks" if "v \<in> set (ob_values ob)" "value_ok H v ks" for v ks
  proof (cases v)
    case (V_ref h)
    then have "h \<in># handles (ob_values ob)" using that(1)
      by (auto simp: handles_def intro!: bexI [of _ v])
    then show ?thesis using that(2) assms(2) V_ref by (simp add: value_ok_def)
  qed (simp_all add: value_ok_def)
  have "list_all2 (value_ok H') (zo_slots ob) kss" if "list_all2 (value_ok H) (zo_slots ob) kss" for kss
    using that v by (auto simp: list_all2_conv_all_nth ob_values_def)
  moreover have "list_all (\<lambda>v. value_ok H' v ks) vs"
    if "list_all (\<lambda>v. value_ok H v ks) vs" "set vs \<subseteq> set (ob_values ob)" for vs ks
    using that v by (auto simp: list_all_iff)
  ultimately show ?thesis using assms(1) by (auto simp: obj_ok_def ob_values_def)
qed


subsection \<open>Steps that keep the invariant\<close>

lemma heap_inv_distinct: "heap_inv R H \<Longrightarrow> distinct (List.map fst (zh_cells H))"
  by (simp add: heap_inv_def heap_ok_def)

lemma counts_exactD: "counts_exact R H \<Longrightarrow> count_ok (R + heap_refs H) (cell H h) h"
  by (simp add: counts_exact_def)

lemma kind_of_set_cell:
  assumes "cell H h = Some (rc, ob)" and "zo_kind ob' = zo_kind ob"
  shows "kind_of (set_cell h (rc', ob') H) k = kind_of H k"
  using assms by (simp add: kind_of_def obj_of_set_cell) (simp add: obj_of_def)

lemma mset_exchange:
  assumes "A + b' = B + b" and "X + b = Y + (b' :: 'a multiset)"
  shows "A + X = B + Y"
proof -
  have "A + X + (b + b') = (A + b') + (X + b)" by (simp add: ac_simps)
  also have "\<dots> = B + Y + (b + b')" unfolding assms by (simp add: ac_simps)
  finally show ?thesis by simp
qed

lemma inv_set_obj:
  assumes inv: "heap_inv R H" and c: "cell H h = Some (rc, ob)" and "zo_kind ob' = zo_kind ob"
    and ok: "obj_ok H ob'" and R: "R' + handles (ob_values ob') = R + handles (ob_values ob)"
  shows "heap_inv R' (set_cell h (rc, ob') H)"
proof -
  let ?H = "set_cell h (rc, ob') H"
  have "heap_refs ?H + handles (ob_values ob) = heap_refs H + handles (ob_values ob')"
    using heap_refs_set [OF c heap_inv_distinct [OF inv]] .
  with R have refs: "R' + heap_refs ?H = R + heap_refs H" by (rule mset_exchange)
  have "counts_exact R' ?H"
    unfolding counts_exact_def refs
  proof
    fix k
    have "count_ok (R + heap_refs H) (cell H k) k"
      using inv by (simp add: heap_inv_def counts_exact_def)
    then show "count_ok (R + heap_refs H) (cell ?H k) k"
      using c by (cases "k = h") (auto simp only: cell_set_cell count_ok.simps option.simps if_True if_False
          simp_thms)
  qed
  moreover have "heap_ok ?H"
  proof -
    have "obj_ok ?H o1" if "obj_of ?H k = Some o1" for k o1
    proof -
      have "obj_ok H o1"
        using that inv ok c by (auto simp: obj_of_set_cell heap_inv_def heap_ok_def split: if_splits)
      then show ?thesis by (rule obj_ok_kinds) (rule kind_of_set_cell [OF c assms(3)])
    qed
    then show ?thesis using inv unfolding heap_inv_def heap_ok_def keys_set_cell next_simps by blast
  qed
  ultimately show ?thesis by (simp add: heap_inv_def)
qed

lemma inv_set_count:
  assumes inv: "heap_inv R H" and c: "cell H h = Some (rc, ob)" and "0 < rc'"
    and "rc' = count (R' + heap_refs H) h" and other: "\<And>k. k \<noteq> h \<Longrightarrow> count R' k = count R k"
  shows "heap_inv R' (set_cell h (rc', ob) H)"
proof -
  let ?H = "set_cell h (rc', ob) H"
  have refs: "heap_refs ?H = heap_refs H"
    using heap_refs_set [OF c heap_inv_distinct [OF inv], of rc' ob] by simp
  have "counts_exact R' ?H"
    unfolding counts_exact_def refs
  proof
    fix k
    show "count_ok (R' + heap_refs H) (cell ?H k) k"
    proof (cases "k = h")
      case True
      then show ?thesis using assms by (simp add: cell_set_cell)
    next
      case False
      have "count_ok (R + heap_refs H) (cell H k) k"
        using inv by (simp add: heap_inv_def counts_exact_def)
      moreover have "count (R' + heap_refs H) k = count (R + heap_refs H) k"
        using other [OF False] by simp
      ultimately have "count_ok (R' + heap_refs H) (cell H k) k" using count_ok_cong by blast
      then show ?thesis using False by (simp add: cell_set_cell)
    qed
  qed
  moreover have "heap_ok ?H"
  proof -
    have "obj_ok ?H o1" if "obj_of ?H k = Some o1" for k o1
    proof -
      have "obj_of H k = Some o1"
        using that c by (cases "k = h") (simp_all add: obj_of_set_cell, simp add: obj_of_def)
      then have "obj_ok H o1" using inv by (auto simp: heap_inv_def heap_ok_def)
      then show ?thesis by (rule obj_ok_kinds) (rule kind_of_set_cell [OF c refl])
    qed
    then show ?thesis using inv unfolding heap_inv_def heap_ok_def keys_set_cell next_simps by blast
  qed
  ultimately show ?thesis by (simp add: heap_inv_def)
qed

lemma heap_refs_member:
  assumes "obj_of H k = Some ob" and "h \<in># handles (ob_values ob)"
  shows "h \<in># heap_refs H"
proof -
  obtain rc where "(k, rc, ob) \<in> set (zh_cells H)"
    using assms(1) by (auto simp: obj_of_def cell_def dest: map_of_SomeD)
  then have "handles (ob_values ob) \<subseteq># heap_refs H"
    unfolding heap_refs_def by (auto dest!: split_list)
  then show ?thesis using assms(2) by (rule mset_subset_eqD)
qed

lemma inv_del:
  assumes inv: "heap_inv (R + {#h#}) H" and c: "cell H h = Some (rc, ob)" and "rc \<le> 1"
  shows "heap_inv (R + handles (ob_values ob)) (del_cell h H)"
proof -
  let ?H = "del_cell h H"
  have dist: "distinct (List.map fst (zh_cells H))" using inv by (rule heap_inv_distinct)
  have exact: "counts_exact (R + {#h#}) H" using inv by (simp add: heap_inv_def)
  have refs: "R + handles (ob_values ob) + heap_refs ?H = R + heap_refs H"
    using heap_refs_del [OF c dist] by simp
  have gone: "h \<notin># R + heap_refs H"
    using counts_exactD [OF exact, of h] c assms(3) by (simp add: not_in_iff)
  have "counts_exact (R + handles (ob_values ob)) ?H"
    unfolding counts_exact_def refs
  proof
    fix k
    show "count_ok (R + heap_refs H) (cell ?H k) k"
    proof (cases "k = h")
      case True
      then show ?thesis using gone by (simp add: cell_del_cell)
    next
      case False
      then have "count (R + {#h#} + heap_refs H) k = count (R + heap_refs H) k" by simp
      then have "count_ok (R + heap_refs H) (cell H k) k"
        using counts_exactD [OF exact, of k] count_ok_cong by blast
      then show ?thesis using False by (simp add: cell_del_cell)
    qed
  qed
  moreover have "heap_ok ?H"
  proof -
    have "obj_ok ?H o1" if "obj_of ?H k = Some o1" for k o1
    proof -
      have o1: "obj_of H k = Some o1" using that by (auto simp: obj_of_del_cell split: if_splits)
      then have "obj_ok H o1" using inv by (auto simp: heap_inv_def heap_ok_def)
      then show ?thesis
      proof (rule obj_ok_kinds)
        fix j assume "j \<in># handles (ob_values o1)"
        then have "j \<noteq> h" using heap_refs_member [OF o1] gone by auto
        then show "kind_of ?H j = kind_of H j" by (simp add: kind_of_def obj_of_del_cell)
      qed
    qed
    then show ?thesis using inv
      by (auto simp: heap_inv_def heap_ok_def del_cell_def distinct_map_filter list_all_iff)
  qed
  ultimately show ?thesis by (simp add: heap_inv_def)
qed


lemma fresh_handle:
  assumes "heap_inv R H"
  shows "cell H (zh_next H) = None" and "zh_next H \<notin># R + heap_refs H"
proof -
  have "zh_next H \<notin> fst ` set (zh_cells H)"
    using assms by (auto simp: heap_inv_def heap_ok_def list_all_iff)
  then show n: "cell H (zh_next H) = None" by (simp add: cell_def map_of_eq_None_iff)
  have "count_ok (R + heap_refs H) (cell H (zh_next H)) (zh_next H)"
    using assms by (simp add: heap_inv_def counts_exact_def)
  then show "zh_next H \<notin># R + heap_refs H" unfolding n by simp
qed

lemma heap_inv_ref_kind:
  assumes "heap_inv R H" and "h \<in># R + heap_refs H"
  shows "h \<noteq> zh_next H" and "obj_of H h \<noteq> None" and "kind_of H h \<noteq> None"
  using fresh_handle(2) [OF assms(1)] live_obj [OF assms] assms(2) by (auto simp: kind_of_def)

lemma inv_alloc:
  assumes inv: "heap_inv (R + handles (ob_values ob)) H" and ok: "obj_ok H ob"
  shows "heap_inv (R + {#zh_next H#}) (alloc ob H)"
proof -
  let ?H = "alloc ob H"
  have refs: "R + {#zh_next H#} + heap_refs ?H =
      (R + handles (ob_values ob) + heap_refs H) + {#zh_next H#}"
    by (simp add: heap_refs_alloc ac_simps)
  have fresh: "count (R + handles (ob_values ob) + heap_refs H) (zh_next H) = 0"
    using fresh_handle(2) [OF inv] by (simp only: not_in_iff)
  have "counts_exact (R + {#zh_next H#}) ?H"
    unfolding counts_exact_def refs
  proof
    fix k
    show "count_ok (R + handles (ob_values ob) + heap_refs H + {#zh_next H#}) (cell ?H k) k"
    proof (cases "k = zh_next H")
      case True
      then show ?thesis using fresh by (simp add: cell_alloc)
    next
      case False
      then have "count (R + handles (ob_values ob) + heap_refs H + {#zh_next H#}) k =
          count (R + handles (ob_values ob) + heap_refs H) k" by simp
      moreover have "count_ok (R + handles (ob_values ob) + heap_refs H) (cell H k) k"
        using inv by (simp add: heap_inv_def counts_exact_def)
      ultimately have "count_ok (R + handles (ob_values ob) + heap_refs H + {#zh_next H#}) (cell H k) k"
        using count_ok_cong by blast
      then show ?thesis using False by (simp add: cell_alloc)
    qed
  qed
  moreover have "heap_ok ?H"
  proof -
    have "obj_ok ?H o1" if "obj_of ?H k = Some o1" for k o1
    proof -
      have ok1: "obj_ok H o1"
        using that inv ok by (auto simp: obj_of_alloc heap_inv_def heap_ok_def split: if_splits)
      have "j \<in># R + handles (ob_values ob) + heap_refs H" if "j \<in># handles (ob_values o1)" for j
        using that \<open>obj_of ?H k = Some o1\<close> heap_refs_member [of H k o1]
        by (auto simp: obj_of_alloc split: if_splits)
      then have "j \<noteq> zh_next H" if "j \<in># handles (ob_values o1)" for j
        using heap_inv_ref_kind(1) [OF inv] that by blast
      then show ?thesis
        by (intro obj_ok_kinds [OF ok1]) (simp add: kind_of_def obj_of_alloc)
    qed
    then show ?thesis using inv fresh_handle(1) [OF inv]
      by (auto simp: heap_inv_def heap_ok_def alloc_def list_all_iff cell_def map_of_eq_None_iff
          less_Suc_eq)
  qed
  ultimately show ?thesis by (simp add: heap_inv_def)
qed

lemma inv_addref:
  assumes inv: "heap_inv R H" and live: "set_mset (handles [v]) \<subseteq> set_mset (R + heap_refs H)"
  shows "\<exists>H'. addref v H = Some H' \<and> heap_inv (R + handles [v]) H' \<and>
      zh_next H' = zh_next H \<and> obj_of H' = obj_of H"
proof (cases v)
  case (V_ref h)
  then have "h \<in># R + heap_refs H" using live by auto
  then obtain rc ob where c: "cell H h = Some (rc, ob)" and "rc = count (R + heap_refs H) h"
    using live_counted [OF inv] by metis
  moreover have "heap_refs (set_cell h (Suc rc, ob) H) = heap_refs H"
    using heap_refs_set [OF c heap_inv_distinct [OF inv], of "Suc rc" ob] by simp
  ultimately have "heap_inv (R + {#h#}) (set_cell h (Suc rc, ob) H)"
    by (intro inv_set_count [OF inv c]) auto
  moreover have "obj_of (set_cell h (Suc rc, ob) H) = obj_of H"
    using c by (rule obj_of_set_count)
  ultimately show ?thesis using V_ref c by (simp add: addref_def)
qed (use inv in \<open>simp_all add: addref_def\<close>)

theorem release_inv:
  assumes "heap_inv (R + handles vs) H"
  shows "\<exists>H'. release vs H = Some H' \<and> heap_inv R H' \<and> shrinks H H'"
  using assms
proof (induction vs H rule: release.induct)
  case (4 h vs H)
  have "h \<in># R + handles (V_ref h # vs) + heap_refs H" by simp
  then obtain rc ob where c: "cell H h = Some (rc, ob)" and "0 < rc"
    and rc: "rc = count (R + handles (V_ref h # vs) + heap_refs H) h" and ok: "obj_ok H ob"
    using live_counted [OF "4.prems"] by metis
  show ?case
  proof (cases "1 < rc")
    case True
    have "heap_inv (R + handles vs) (set_cell h (rc - 1, ob) H)"
      using True rc by (intro inv_set_count [OF "4.prems" c]) auto
    moreover have "shrinks H (set_cell h (rc - 1, ob) H)"
      using obj_of_set_count [OF c] by (simp add: shrinks_def)
    ultimately show ?thesis
      using "4.IH"(1) [OF c refl True] c True shrinks_trans by auto
  next
    case False
    have "heap_inv (R + handles vs + {#h#}) H" using "4.prems" by (simp add: ac_simps)
    then have "heap_inv (R + handles vs + handles (ob_values ob)) (del_cell h H)"
      using inv_del [OF _ c] False by simp
    then have "heap_inv (R + handles (free_obj (zo_kind ob) ob @ vs)) (del_cell h H)"
      by (simp add: free_obj_complete [OF ok] ac_simps)
    moreover have "shrinks H (del_cell h H)"
      by (auto simp: shrinks_def obj_of_del_cell split: if_splits)
    ultimately show ?thesis
      using "4.IH"(2) [OF c refl False] c False shrinks_trans by auto
  qed
qed (simp_all add: shrinks_refl)

lemma shrinks_obj:
  "shrinks H H' \<Longrightarrow> heap_inv R H' \<Longrightarrow> h \<in># R + heap_refs H' \<Longrightarrow> obj_of H' h = obj_of H h"
  using live_obj by (fastforce simp: shrinks_def)

subsection \<open>Nothing is left behind\<close>

lemma kind_levels:
  assumes "obj_ok H ob" and "h \<in># handles (ob_values ob)"
  shows "\<exists>k. kind_of H h = Some k \<and> kind_level k < kind_level (zo_kind ob)"
proof -
  have v: "V_ref h \<in> set (zo_slots ob) \<or> V_ref h \<in> set (List.map snd (zo_table ob))"
    using assms(2) by (auto simp: in_handles ob_values_def)
  show ?thesis
  proof (cases "V_ref h \<in> set (List.map snd (zo_table ob))")
    case True
    then have "value_ok H (V_ref h) {K_connection}" and "zo_kind ob = K_server_endpoint"
      using assms(1) unfolding obj_ok_def list_all_iff by (blast, force)
    then show ?thesis by (auto simp: value_ok_def)
  next
    case False
    with v assms(1) show ?thesis
      by (cases "zo_kind ob")
        (auto simp: obj_ok_def list_all2_Cons2 list_all_iff value_ok_def element_kinds_def
          split: zval.splits dest!: bspec [where x = "V_ref h"])
  qed
qed

theorem nothing_left:
  assumes "heap_inv {#} H"
  shows "zh_cells H = []"
proof (rule ccontr)
  assume "zh_cells H \<noteq> []"
  define level where "level h = (case kind_of H h of None \<Rightarrow> 0 | Some k \<Rightarrow> kind_level k)" for h
  let ?S = "{h. cell H h \<noteq> None}"
  have "finite ?S"
    using finite_dom_map_of [of "zh_cells H"] by (simp add: dom_def cell_def)
  moreover have "?S \<noteq> {}"
  proof -
    obtain h c cs where "zh_cells H = (h, c) # cs" using \<open>zh_cells H \<noteq> []\<close> by (cases "zh_cells H") auto
    then have "h \<in> ?S" by (simp add: cell_def)
    then show ?thesis by blast
  qed
  ultimately have "Max (level ` ?S) \<in> level ` ?S" by (intro Max_in) auto
  then obtain h where h: "h \<in> ?S" "level h = Max (level ` ?S)" by (metis (no_types) imageE)
  then have top: "level k \<le> level h" if "k \<in> ?S" for k
    using \<open>finite ?S\<close> that by simp
  from h(1) obtain rc ob where "cell H h = Some (rc, ob)" by auto
  then have "h \<in># heap_refs H"
    using assms counts_exactD [of "{#}" H h] by (auto simp: heap_inv_def)
  then obtain k rc' ob' where k: "(k, rc', ob') \<in> set (zh_cells H)" "h \<in># handles (ob_values ob')"
    by (rule in_heap_refs)
  then have ck: "cell H k = Some (rc', ob')"
    using heap_inv_distinct [OF assms] by (simp add: cell_def)
  then have "obj_ok H ob'" using assms by (auto simp: heap_inv_def heap_ok_def obj_of_def)
  then have "level h < level k"
    using kind_levels k(2) ck by (fastforce simp: level_def kind_of_def obj_of_def)
  then show False using top [of k] ck by simp
qed

end
