(* ===== verification/Quic_Lifetime.thy ===== *)
theory Quic_Lifetime
  imports Quic_Refcount
begin

text \<open>
  How the extension's objects hold each other: for every operation that makes, copies or drops
  a counted value, what it does to the reference counts, in the order of the source. What
  decides between the branches (a failing address, a failing library call, the number of packets
  or events) is modelled in the theories of the components; here it is an argument, so that the
  theorems hold for every outcome. Two holders of strings are left out, the buffers of the
  streams and the nodes of the event queue: no other code ever holds a reference of theirs.

  \<^verbatim>\<open>zval_ptr_dtor(&field)\<close> empties the field before it releases the value it held. The source
  empties it after, or overwrites it; nothing looks at the field in between.
\<close>

subsection \<open>Fields\<close>

definition read_slot :: "zhandle \<Rightarrow> nat \<Rightarrow> zheap \<Rightarrow> zval option" where
  "read_slot h i H = map_option (\<lambda>ob. zo_slots ob ! i) (obj_of H h)"

definition modify_obj :: "zhandle \<Rightarrow> (zobj \<Rightarrow> zobj) \<Rightarrow> zheap \<Rightarrow> zheap option" where
  "modify_obj h f H = map_option (\<lambda>(rc, ob). set_cell h (rc, f ob) H) (cell H h)"

definition write_slot :: "zhandle \<Rightarrow> nat \<Rightarrow> zval \<Rightarrow> zheap \<Rightarrow> zheap option" where
  "write_slot h i v = modify_obj h (\<lambda>ob. ob\<lparr>zo_slots := (zo_slots ob)[i := v]\<rparr>)"

text \<open>\<^verbatim>\<open>zval_ptr_dtor(&field)\<close>, then \<^verbatim>\<open>ZVAL_COPY(&field, v)\<close> or a plain store.\<close>

definition dtor_slot :: "zhandle \<Rightarrow> nat \<Rightarrow> zheap \<Rightarrow> zheap option" where
  "dtor_slot h i H = do {
     v \<leftarrow> read_slot h i H;
     H \<leftarrow> write_slot h i V_undef H;
     zval_ptr_dtor v H }"

definition copy_slot :: "zhandle \<Rightarrow> nat \<Rightarrow> zval \<Rightarrow> zheap \<Rightarrow> zheap option" where
  "copy_slot h i v H = do {
     H \<leftarrow> addref v H;
     write_slot h i v H }"

definition set_slot :: "zhandle \<Rightarrow> nat \<Rightarrow> zval \<Rightarrow> zheap \<Rightarrow> zheap option" where
  "set_slot h i v H = do {
     H \<leftarrow> dtor_slot h i H;
     copy_slot h i v H }"

definition move_slot :: "zhandle \<Rightarrow> nat \<Rightarrow> zval \<Rightarrow> zheap \<Rightarrow> zheap option" where
  "move_slot h i v H = do {
     H \<leftarrow> dtor_slot h i H;
     write_slot h i v H }"

text \<open>\<^verbatim>\<open>zval_ptr_dtor(&field)\<close>, then the store of a new string or array.\<close>

definition renew_slot :: "zhandle \<Rightarrow> nat \<Rightarrow> (zheap \<Rightarrow> zhandle \<times> zheap) \<Rightarrow> zheap \<Rightarrow> zheap option" where
  "renew_slot h i make_new H = do {
     H \<leftarrow> dtor_slot h i H;
     (let (new, H) = make_new H in write_slot h i (V_ref new) H) }"

definition or_null :: "zhandle option \<Rightarrow> zval" where
  "or_null x = (case x of None \<Rightarrow> V_null | Some h \<Rightarrow> V_ref h)"

definition or_undef :: "zhandle option \<Rightarrow> zval" where
  "or_undef x = (case x of None \<Rightarrow> V_undef | Some h \<Rightarrow> V_ref h)"

text \<open>A method that returns a field or an object copies it to \<^verbatim>\<open>return_value\<close>.\<close>

definition return_copy :: "zval \<Rightarrow> zheap \<Rightarrow> (zval \<times> zheap) option" where
  "return_copy v H = do { H \<leftarrow> addref v H; Some (v, H) }"

definition return_slot :: "zhandle \<Rightarrow> nat \<Rightarrow> zheap \<Rightarrow> (zval \<times> zheap) option" where
  "return_slot h i H = do { v \<leftarrow> read_slot h i H; return_copy v H }"

subsection \<open>New objects\<close>

definition new_cell :: "zkind \<Rightarrow> zval list \<Rightarrow> zheap \<Rightarrow> zhandle \<times> zheap" where
  "new_cell k vs H = (zh_next H, alloc \<lparr>zo_kind = k, zo_slots = vs, zo_table = []\<rparr> H)"

definition new_string :: "zheap \<Rightarrow> zhandle \<times> zheap" where
  "new_string = new_cell K_string []"

definition array_init :: "zheap \<Rightarrow> zhandle \<times> zheap" where
  "array_init = new_cell K_array []"

text \<open>\<^verbatim>\<open>object_init_ex\<close>: the \<^verbatim>\<open>create_object\<close> functions.\<close>

definition new_with :: "(zheap \<Rightarrow> zhandle \<times> zheap) \<Rightarrow> zkind \<Rightarrow> (zval \<Rightarrow> zval list) \<Rightarrow> zheap \<Rightarrow> zhandle \<times> zheap"
  where
  "new_with inner k slots H = (let (s, H) = inner H in new_cell k (slots (V_ref s)) H)"

fun create_object :: "zkind \<Rightarrow> zheap \<Rightarrow> zhandle \<times> zheap" where
  "create_object K_address = new_with new_string K_address (\<lambda>s. [s])"
| "create_object K_datagram = new_with new_string K_datagram (\<lambda>s. [s, V_undef, V_undef])"
| "create_object K_event = new_with new_string K_event (\<lambda>s. [s])"
| "create_object K_client_config = new_cell K_client_config [V_null, V_undef, V_undef]"
| "create_object K_server_config = new_cell K_server_config [V_null, V_undef, V_undef, V_undef]"
| "create_object K_connection = new_cell K_connection [V_undef, V_undef, V_undef]"
| "create_object K_stream = new_cell K_stream [V_undef]"
| "create_object K_server_endpoint = new_with array_init K_server_endpoint (\<lambda>a. [V_undef, a])"
| "create_object K_array = array_init"
| "create_object K_string = new_string"

subsection \<open>Addresses, datagrams, events, configurations\<close>

definition Address_construct_rc :: "zhandle \<Rightarrow> zhandle \<Rightarrow> zheap \<Rightarrow> zheap option" where
  "Address_construct_rc this host = set_slot this 0 (V_ref host)"

text \<open>
  \<^verbatim>\<open>fromString\<close> stores the host it parsed, \<^verbatim>\<open>php_quic_address_init_from_sockaddr\<close> the
  string it formats last.
\<close>

definition Address_fromString_rc :: "zheap \<Rightarrow> (zval \<times> zheap) option" where
  "Address_fromString_rc H =
     (let (host, H) = new_string H; (address, H) = create_object K_address H
      in do {
        H \<leftarrow> move_slot address 0 (V_ref host) H;
        Some (V_ref address, H) })"

definition address_init_from_sockaddr_rc :: "zheap \<Rightarrow> (zval \<times> zheap) option" where
  "address_init_from_sockaddr_rc H =
     (let (address, H) = create_object K_address H
      in do {
        H \<leftarrow> renew_slot address 0 new_string H;
        Some (V_ref address, H) })"

definition Datagram_construct_rc ::
  "zhandle \<Rightarrow> zhandle \<Rightarrow> zhandle \<Rightarrow> zhandle option \<Rightarrow> zheap \<Rightarrow> zheap option" where
  "Datagram_construct_rc this payload peer local H = do {
     H \<leftarrow> set_slot this 0 (V_ref payload) H;
     H \<leftarrow> set_slot this 1 (V_ref peer) H;
     set_slot this 2 (or_null local) H }"

definition Event_construct_rc :: "zhandle \<Rightarrow> zhandle option \<Rightarrow> zheap \<Rightarrow> zheap option" where
  "Event_construct_rc this reason H =
     (case reason of
        Some r \<Rightarrow> set_slot this 0 (V_ref r) H
      | None \<Rightarrow> renew_slot this 0 new_string H)"

text \<open>
  \<^verbatim>\<open>php_quic_event_create_from_native\<close>, and its call by \<^verbatim>\<open>drainEvents\<close> between
  \<^verbatim>\<open>pop\<close>, after which a local variable holds the reason, and \<^verbatim>\<open>php_quic_event_release\<close>.
\<close>

definition event_create_from_native_rc :: "zhandle option \<Rightarrow> zheap \<Rightarrow> (zval \<times> zheap) option" where
  "event_create_from_native_rc reason H =
     (let (event, H) = create_object K_event H
      in do {
        H \<leftarrow> (case reason of
               Some r \<Rightarrow> set_slot event 0 (V_ref r) H
             | None \<Rightarrow> renew_slot event 0 new_string H);
        Some (V_ref event, H) })"

definition event_make_rc :: "bool \<Rightarrow> zheap \<Rightarrow> (zval \<times> zheap) option" where
  "event_make_rc has_reason H =
     (if has_reason
      then (let (reason, H) = new_string H
            in do {
              (event, H) \<leftarrow> event_create_from_native_rc (Some reason) H;
              H \<leftarrow> zval_ptr_dtor (V_ref reason) H;
              Some (event, H) })
      else event_create_from_native_rc None H)"

definition ClientConfig_construct_rc ::
  "zhandle \<Rightarrow> zhandle option \<Rightarrow> zhandle option \<Rightarrow> zhandle option \<Rightarrow> zheap \<Rightarrow> zheap option" where
  "ClientConfig_construct_rc this local server_name alpn H = do {
     H \<leftarrow> set_slot this 0 (or_null local) H;
     H \<leftarrow> set_slot this 1 (or_undef server_name) H;
     set_slot this 2 (or_undef alpn) H }"

definition ServerConfig_construct_rc ::
  "zhandle \<Rightarrow> zhandle option \<Rightarrow> zhandle option \<Rightarrow> zhandle option \<Rightarrow> zhandle option \<Rightarrow> zheap \<Rightarrow>
   zheap option" where
  "ServerConfig_construct_rc this local cert_file key_file alpn H = do {
     H \<leftarrow> set_slot this 0 (or_null local) H;
     H \<leftarrow> set_slot this 1 (or_undef cert_file) H;
     H \<leftarrow> set_slot this 2 (or_undef key_file) H;
     set_slot this 3 (or_undef alpn) H }"

text \<open>
  The \<^verbatim>\<open>with\<close> methods of both: one field is replaced, and \<^verbatim>\<open>$this\<close> is returned;
  \<^verbatim>\<open>withCertificate\<close> replaces two.
\<close>

definition Config_withLocalAddress_rc ::
  "zhandle \<Rightarrow> zhandle option \<Rightarrow> zheap \<Rightarrow> (zval \<times> zheap) option" where
  "Config_withLocalAddress_rc this local H = do {
     H \<leftarrow> set_slot this 0 (or_null local) H;
     return_copy (V_ref this) H }"

definition Config_withString_rc ::
  "zhandle \<Rightarrow> nat \<Rightarrow> zhandle option \<Rightarrow> zheap \<Rightarrow> (zval \<times> zheap) option" where
  "Config_withString_rc this i s H = do {
     H \<leftarrow> set_slot this i (or_undef s) H;
     return_copy (V_ref this) H }"

definition ServerConfig_withCertificate_rc ::
  "zhandle \<Rightarrow> zhandle \<Rightarrow> zhandle \<Rightarrow> zheap \<Rightarrow> (zval \<times> zheap) option" where
  "ServerConfig_withCertificate_rc this cert_file key_file H = do {
     H \<leftarrow> set_slot this 1 (V_ref cert_file) H;
     H \<leftarrow> set_slot this 2 (V_ref key_file) H;
     return_copy (V_ref this) H }"

subsection \<open>Connections and streams\<close>

text \<open>
  The constructor takes the local address from the configuration when that holds one. It has
  stored both addresses before the first step that can fail.
\<close>

definition as_object :: "zval \<Rightarrow> zval option" where
  "as_object v = (case v of V_ref h \<Rightarrow> Some v | _ \<Rightarrow> None)"

definition Connection_construct_rc ::
  "zhandle \<Rightarrow> zhandle \<Rightarrow> zhandle option \<Rightarrow> zheap \<Rightarrow> zheap option" where
  "Connection_construct_rc this remote config H = do {
     local \<leftarrow> (case config of None \<Rightarrow> Some None | Some c \<Rightarrow> map_option as_object (read_slot c 0 H));
     H \<leftarrow> set_slot this 0 (V_ref remote) H;
     set_slot this 1 (case local of None \<Rightarrow> V_null | Some v \<Rightarrow> v) H }"

definition Connection_close_rc :: "zhandle \<Rightarrow> zhandle option \<Rightarrow> zheap \<Rightarrow> zheap option" where
  "Connection_close_rc this reason H = set_slot this 2 (or_undef reason) H"

definition php_quic_stream_create_rc :: "zhandle \<Rightarrow> zheap \<Rightarrow> (zval \<times> zheap) option" where
  "php_quic_stream_create_rc connection H =
     (let (stream, H) = create_object K_stream H
      in do {
        H \<leftarrow> copy_slot stream 0 (V_ref connection) H;
        Some (V_ref stream, H) })"

definition add_next_index_zval :: "zhandle \<Rightarrow> zval \<Rightarrow> zheap \<Rightarrow> zheap option" where
  "add_next_index_zval array v = modify_obj array (\<lambda>ob. ob\<lparr>zo_slots := zo_slots ob @ [v]\<rparr>)"

text \<open>A datagram of \<^verbatim>\<open>drainOutgoingDatagrams\<close>: its payload and the connection's addresses.\<close>

definition set_slot_from :: "zhandle \<Rightarrow> nat \<Rightarrow> zhandle \<Rightarrow> nat \<Rightarrow> zheap \<Rightarrow> zheap option" where
  "set_slot_from h i source j H = do { v \<leftarrow> read_slot source j H; set_slot h i v H }"

definition datagram_fill_rc :: "zhandle \<Rightarrow> zhandle \<Rightarrow> zheap \<Rightarrow> zheap option" where
  "datagram_fill_rc datagram connection H = do {
     H \<leftarrow> renew_slot datagram 0 new_string H;
     H \<leftarrow> set_slot_from datagram 1 connection 0 H;
     set_slot_from datagram 2 connection 1 H }"

definition datagram_make_rc :: "zhandle \<Rightarrow> zheap \<Rightarrow> (zval \<times> zheap) option" where
  "datagram_make_rc connection H =
     (let (datagram, H) = create_object K_datagram H
      in do {
        H \<leftarrow> datagram_fill_rc datagram connection H;
        Some (V_ref datagram, H) })"

fun fill_array ::
  "(zheap \<Rightarrow> (zval \<times> zheap) option) list \<Rightarrow> zhandle \<Rightarrow> zheap \<Rightarrow> zheap option" where
  "fill_array [] array H = Some H"
| "fill_array (mk # mks) array H = do {
     (v, H) \<leftarrow> mk H;
     H \<leftarrow> add_next_index_zval array v H;
     fill_array mks array H }"

text \<open>
  \<^verbatim>\<open>drainOutgoingDatagrams\<close> with \<open>n\<close> packets written, and \<^verbatim>\<open>drainEvents\<close> with the
  events popped (whether each has a reason). When the first throws after \<open>n\<close> packets, the engine
  destroys the \<^verbatim>\<open>return_value\<close> that was already filled.
\<close>

definition Connection_drainOutgoingDatagrams_rc ::
  "zhandle \<Rightarrow> nat \<Rightarrow> zheap \<Rightarrow> (zval \<times> zheap) option" where
  "Connection_drainOutgoingDatagrams_rc connection n H =
     (let (array, H) = array_init H
      in do {
        H \<leftarrow> fill_array (replicate n (datagram_make_rc connection)) array H;
        Some (V_ref array, H) })"

definition Connection_drainEvents_rc :: "bool list \<Rightarrow> zheap \<Rightarrow> (zval \<times> zheap) option" where
  "Connection_drainEvents_rc reasons H =
     (let (array, H) = array_init H
      in do {
        H \<leftarrow> fill_array (List.map event_make_rc reasons) array H;
        Some (V_ref array, H) })"

definition discard_return_value :: "(zval \<times> zheap) option \<Rightarrow> zheap option" where
  "discard_return_value r = do { (v, H) \<leftarrow> r; zval_ptr_dtor v H }"

subsection \<open>Server connections and the endpoint\<close>

text \<open>
  \<^verbatim>\<open>ServerConnection::accept\<close>: the strings of the configuration are copied, the object is
  made with the addresses (the local one is the configuration's, else the datagram's, else a new
  one), and the strings are released. A datagram that cannot be decoded throws before anything is
  released, and a bad address before there is an object.
\<close>

datatype accept_outcome = A_undecodable | A_bad_address | A_failed | A_accepted

definition accept_addresses_rc :: "zhandle \<Rightarrow> zhandle \<Rightarrow> zval option \<Rightarrow> zheap \<Rightarrow> zheap option" where
  "accept_addresses_rc server initial effective H = do {
     remote \<leftarrow> read_slot initial 1 H;
     H \<leftarrow> copy_slot server 0 remote H;
     own \<leftarrow> map_option as_object (read_slot initial 2 H);
     (case effective of
        Some v \<Rightarrow> copy_slot server 1 v H
      | None \<Rightarrow>
          (case own of
             Some v \<Rightarrow> copy_slot server 1 v H
           | None \<Rightarrow> do {
               (address, H) \<leftarrow> address_init_from_sockaddr_rc H;
               write_slot server 1 address H })) }"

definition accept_connection_rc :: "zhandle \<Rightarrow> zval option \<Rightarrow> zheap \<Rightarrow> (zval \<times> zheap) option" where
  "accept_connection_rc initial effective H =
     (let (server, H) = create_object K_connection H
      in do {
        H \<leftarrow> accept_addresses_rc server initial effective H;
        Some (V_ref server, H) })"

definition accept_alpn_rc :: "zhandle \<Rightarrow> zheap \<Rightarrow> (zval \<times> zheap) option" where
  "accept_alpn_rc config H = do {
     alpn \<leftarrow> read_slot config 3 H;
     (case as_object alpn of
        Some v \<Rightarrow> return_copy v H
      | None \<Rightarrow> (let (s, H) = new_string H in Some (V_ref s, H))) }"

definition accept_rc ::
  "zhandle \<Rightarrow> zhandle \<Rightarrow> accept_outcome \<Rightarrow> zheap \<Rightarrow> (zval option \<times> zheap) option" where
  "accept_rc initial config outcome H = do {
     effective \<leftarrow> map_option as_object (read_slot config 0 H);
     cert_file \<leftarrow> read_slot config 1 H;
     key_file \<leftarrow> read_slot config 2 H;
     (if as_object cert_file = None \<or> as_object key_file = None then Some (None, H)
      else do {
        H \<leftarrow> addref cert_file H;
        H \<leftarrow> addref key_file H;
        (alpn, H) \<leftarrow> accept_alpn_rc config H;
        (if outcome = A_undecodable then Some (None, H)
         else if outcome = A_bad_address then do {
           H \<leftarrow> release [cert_file, key_file, alpn] H;
           Some (None, H) }
         else do {
           (server, H) \<leftarrow> accept_connection_rc initial effective H;
           H \<leftarrow> release [cert_file, key_file, alpn] H;
           (if outcome = A_accepted then Some (Some server, H)
            else do {
              H \<leftarrow> zval_ptr_dtor server H;
              Some (None, H) }) }) }) }"

definition ServerEndpoint_construct_rc :: "zhandle \<Rightarrow> zhandle \<Rightarrow> zheap \<Rightarrow> zheap option" where
  "ServerEndpoint_construct_rc this config = set_slot this 0 (V_ref config)"

text \<open>
  \<^verbatim>\<open>zend_hash_update\<close> and \<^verbatim>\<open>zend_hash_del\<close> on the table of connections, whose destructor
  is \<^verbatim>\<open>ZVAL_PTR_DTOR\<close>, and the cleanup with the keys it collected.
\<close>

definition read_table :: "zhandle \<Rightarrow> zheap \<Rightarrow> (zstring \<times> zval) list option" where
  "read_table h H = map_option zo_table (obj_of H h)"

fun hash_remove :: "zstring \<Rightarrow> (zstring \<times> zval) list \<Rightarrow> (zstring \<times> zval) list" where
  "hash_remove key [] = []"
| "hash_remove key ((k, v) # kvs) = (if k = key then kvs else (k, v) # hash_remove key kvs)"

definition hash_del_rc :: "zhandle \<Rightarrow> zstring \<Rightarrow> zheap \<Rightarrow> zheap option" where
  "hash_del_rc this key H = do {
     table \<leftarrow> read_table this H;
     (case map_of table key of
        None \<Rightarrow> Some H
      | Some v \<Rightarrow> do {
          H \<leftarrow> modify_obj this (\<lambda>ob. ob\<lparr>zo_table := hash_remove key (zo_table ob)\<rparr>) H;
          zval_ptr_dtor v H }) }"

definition hash_add_rc :: "zhandle \<Rightarrow> zstring \<Rightarrow> zval \<Rightarrow> zheap \<Rightarrow> zheap option" where
  "hash_add_rc this key v = modify_obj this (\<lambda>ob. ob\<lparr>zo_table := zo_table ob @ [(key, v)]\<rparr>)"

fun cleanup_rc :: "zhandle \<Rightarrow> zstring list \<Rightarrow> zheap \<Rightarrow> zheap option" where
  "cleanup_rc this [] H = Some H"
| "cleanup_rc this (key # keys) H = do {
     H \<leftarrow> hash_del_rc this key H;
     cleanup_rc this keys H }"

text \<open>
  \<^verbatim>\<open>recv\<close>. A datagram of a known peer is a parameter of the call of the connection's method;
  for a new peer the connection that the script's \<^verbatim>\<open>accept\<close> returns goes to the table, with a
  reference of its own, and to the queue. \<open>finished\<close> are the keys that the cleanup finds.
\<close>

definition endpoint_route_rc :: "zhandle \<Rightarrow> zhandle \<Rightarrow> zstring list \<Rightarrow> zheap \<Rightarrow> zheap option" where
  "endpoint_route_rc this datagram finished H = do {
     H \<leftarrow> addref (V_ref datagram) H;
     H \<leftarrow> zval_ptr_dtor (V_ref datagram) H;
     cleanup_rc this finished H }"

text \<open>
  The global function \<^verbatim>\<open>accept\<close> of the script: there is none, it passes its arguments on to
  \<^verbatim>\<open>ServerConnection::accept\<close>, or it returns a connection that the script has. The parameters
  hold references of their own during the call.
\<close>

datatype accept_dispatch = D_missing | D_forwards accept_outcome | D_returns zhandle

fun dispatch_rc :: "zhandle \<Rightarrow> zval \<Rightarrow> accept_dispatch \<Rightarrow> zheap \<Rightarrow> (zval option \<times> zheap) option" where
  "dispatch_rc datagram config D_missing H = Some (None, H)"
| "dispatch_rc datagram config (D_forwards outcome) H =
     (case config of
        V_ref c \<Rightarrow> accept_rc datagram c outcome H
      | _ \<Rightarrow> Some (None, H))"
| "dispatch_rc datagram config (D_returns connection) H = do {
     H \<leftarrow> addref (V_ref connection) H;
     Some (Some (V_ref connection), H) }"

definition call_static_accept_rc ::
  "zhandle \<Rightarrow> zval \<Rightarrow> accept_dispatch \<Rightarrow> zheap \<Rightarrow> (zval option \<times> zheap) option" where
  "call_static_accept_rc datagram config dispatch H = do {
     H \<leftarrow> addref (V_ref datagram) H;
     H \<leftarrow> addref config H;
     (r, H) \<leftarrow> dispatch_rc datagram config dispatch H;
     H \<leftarrow> release [V_ref datagram, config] H;
     Some (r, H) }"

definition endpoint_store_rc :: "zhandle \<Rightarrow> zstring \<Rightarrow> zval \<Rightarrow> zheap \<Rightarrow> zheap option" where
  "endpoint_store_rc this key connection H = do {
     H \<leftarrow> addref connection H;
     H \<leftarrow> hash_add_rc this key connection H;
     queue \<leftarrow> read_slot this 1 H;
     (case queue of V_ref q \<Rightarrow> add_next_index_zval q connection H | _ \<Rightarrow> None) }"

definition endpoint_accept_rc ::
  "zhandle \<Rightarrow> zhandle \<Rightarrow> zstring \<Rightarrow> accept_dispatch \<Rightarrow> zstring list \<Rightarrow> zheap \<Rightarrow> zheap option" where
  "endpoint_accept_rc this datagram key dispatch finished H = do {
     config \<leftarrow> read_slot this 0 H;
     (r, H) \<leftarrow> call_static_accept_rc datagram config dispatch H;
     (case r of
        None \<Rightarrow> Some H
      | Some connection \<Rightarrow> do {
          H \<leftarrow> endpoint_store_rc this key connection H;
          cleanup_rc this finished H }) }"

definition ServerEndpoint_recv_rc ::
  "zhandle \<Rightarrow> zhandle \<Rightarrow> zstring \<Rightarrow> accept_dispatch \<Rightarrow> zstring list \<Rightarrow> zheap \<Rightarrow> zheap option" where
  "ServerEndpoint_recv_rc this datagram key dispatch finished H = do {
     table \<leftarrow> read_table this H;
     (case map_of table key of
        Some _ \<Rightarrow> endpoint_route_rc this datagram finished H
      | None \<Rightarrow> endpoint_accept_rc this datagram key dispatch finished H) }"

text \<open>The new array is stored before the queue is released, so that the field never dangles.\<close>

definition ServerEndpoint_drainAcceptedConnections_rc :: "zhandle \<Rightarrow> zheap \<Rightarrow> (zval \<times> zheap) option"
  where
  "ServerEndpoint_drainAcceptedConnections_rc this H = do {
     (v, H) \<leftarrow> return_slot this 1 H;
     (let (array, H) = array_init H
      in do {
        H \<leftarrow> write_slot this 1 (V_ref array) H;
        H \<leftarrow> zval_ptr_dtor v H;
        Some (v, H) }) }"

text \<open>
  \<^verbatim>\<open>drainOutgoingDatagrams\<close> and \<^verbatim>\<open>drainEvents\<close>: each connection's array is made by its
  own method, its items are copied and it is released; of a connection that throws the engine
  destroys the array. A call is whether it throws and what it makes. With an exception pending, the engine's next call reports
  \<^verbatim>\<open>FAILURE\<close> when \<open>fp\<close> holds, and \<^verbatim>\<open>SUCCESS\<close> without having called otherwise. On a
  failure the array so far is released by the method, which leaves it in \<^verbatim>\<open>return_value\<close>.
\<close>

fun copy_items :: "zval list \<Rightarrow> zhandle \<Rightarrow> zheap \<Rightarrow> zheap option" where
  "copy_items [] array H = Some H"
| "copy_items (v # vs) array H = do {
     H \<leftarrow> addref v H;
     H \<leftarrow> add_next_index_zval array v H;
     copy_items vs array H }"

definition merge_array :: "zhandle \<Rightarrow> zval \<Rightarrow> zheap \<Rightarrow> zheap option" where
  "merge_array array retval H =
     (case retval of
        V_ref r \<Rightarrow> do {
          ob \<leftarrow> obj_of H r;
          H \<leftarrow> copy_items (zo_slots ob) array H;
          zval_ptr_dtor retval H }
      | _ \<Rightarrow> Some H)"

fun endpoint_drain_rc ::
  "bool \<Rightarrow> (bool \<times> (zheap \<Rightarrow> (zval \<times> zheap) option)) list \<Rightarrow> bool \<Rightarrow> zhandle \<Rightarrow> zheap \<Rightarrow>
   (bool \<times> bool \<times> zheap) option" where
  "endpoint_drain_rc fp [] pending array H = Some (True, pending, H)"
| "endpoint_drain_rc fp ((throws, drain) # calls) pending array H =
     (if pending
      then (if fp
            then do { H \<leftarrow> zval_ptr_dtor (V_ref array) H; Some (False, True, H) }
            else endpoint_drain_rc fp calls True array H)
      else
        (if throws
         then do {
           H \<leftarrow> discard_return_value (drain H);
           endpoint_drain_rc fp calls True array H }
         else do {
           (retval, H) \<leftarrow> drain H;
           H \<leftarrow> merge_array array retval H;
           endpoint_drain_rc fp calls False array H }))"

text \<open>The whole method: on an exception the engine destroys \<^verbatim>\<open>return_value\<close>.\<close>

definition endpoint_drain_method_rc ::
  "bool \<Rightarrow> zhandle \<Rightarrow> (bool \<times> (zheap \<Rightarrow> (zval \<times> zheap) option)) list \<Rightarrow> zstring list \<Rightarrow>
   zheap \<Rightarrow> (zval option \<times> zheap) option" where
  "endpoint_drain_method_rc fp this calls finished H =
     (let (array, H) = array_init H
      in do {
        (complete, pending, H) \<leftarrow> endpoint_drain_rc fp calls False array H;
        H \<leftarrow> (if complete then cleanup_rc this finished H else Some H);
        (if pending
         then do { H \<leftarrow> zval_ptr_dtor (V_ref array) H; Some (None, H) }
         else Some (Some (V_ref array), H)) })"


subsection \<open>What a step changes\<close>

text \<open>
  From one heap to a later one: cells outside \<open>M\<close> that are still there are unchanged, those in \<open>M\<close>
  keep their kind.
\<close>

definition evolves :: "zhandle set \<Rightarrow> zheap \<Rightarrow> zheap \<Rightarrow> bool" where
  "evolves M H H' \<longleftrightarrow> zh_next H \<le> zh_next H' \<and>
     (\<forall>g ob'. g < zh_next H \<and> obj_of H' g = Some ob' \<longrightarrow>
        (\<exists>ob. obj_of H g = Some ob \<and> zo_kind ob' = zo_kind ob \<and> (g \<notin> M \<longrightarrow> ob' = ob)))"

lemma evolves_refl: "evolves M H H"
  by (auto simp: evolves_def)

lemma evolves_trans:
  assumes "evolves M H H1" and "evolves N H1 H2" and "\<And>g. g \<in> N \<Longrightarrow> g < zh_next H \<Longrightarrow> g \<in> M"
  shows "evolves M H H2"
  unfolding evolves_def
proof (intro conjI allI impI)
  show "zh_next H \<le> zh_next H2" using assms(1,2) by (auto simp: evolves_def)
next
  fix g ob' assume g: "g < zh_next H \<and> obj_of H2 g = Some ob'"
  then have "g < zh_next H1" using assms(1) by (auto simp: evolves_def)
  with g assms(2) obtain o1 where "obj_of H1 g = Some o1" "zo_kind ob' = zo_kind o1"
    "g \<notin> N \<longrightarrow> ob' = o1" by (auto simp: evolves_def)
  moreover from this(1) g assms(1) obtain ob where "obj_of H g = Some ob" "zo_kind o1 = zo_kind ob"
    "g \<notin> M \<longrightarrow> o1 = ob" by (auto simp: evolves_def)
  ultimately show "\<exists>ob. obj_of H g = Some ob \<and> zo_kind ob' = zo_kind ob \<and> (g \<notin> M \<longrightarrow> ob' = ob)"
    using assms(3) g by auto
qed

lemma evolves_mono: "evolves M H H' \<Longrightarrow> M \<subseteq> N \<Longrightarrow> evolves N H H'"
  by (fastforce simp: evolves_def)

lemma shrinks_evolves: "shrinks H H' \<Longrightarrow> evolves M H H'"
  by (auto simp: shrinks_def evolves_def)

lemma obj_below_next: "heap_inv R H \<Longrightarrow> obj_of H g = Some ob \<Longrightarrow> g < zh_next H"
  by (auto simp: heap_inv_def heap_ok_def obj_of_def cell_def list_all_iff dest!: map_of_SomeD)

text \<open>A reference that is held is to a live cell, below the next handle.\<close>

lemma held_below: "heap_inv R H \<Longrightarrow> h \<in># R + heap_refs H \<Longrightarrow> h < zh_next H"
  using live_obj obj_below_next by blast

lemma evolves_obj:
  assumes "evolves M H H'" and "heap_inv R H'" and "g \<in># R + heap_refs H'" and "g < zh_next H"
    and "g \<notin> M"
  shows "obj_of H' g = obj_of H g"
  using assms live_obj [OF assms(2,3)] by (fastforce simp: evolves_def)

lemma evolves_kind:
  assumes "evolves M H H'" and "heap_inv R H'" and "g \<in># R + heap_refs H'" and "g < zh_next H"
  shows "kind_of H' g = kind_of H g"
  using assms live_obj [OF assms(2,3)] by (fastforce simp: evolves_def kind_of_def)

lemma value_ok_evolves:
  assumes "evolves M H H'" and "heap_inv R H'" and "value_ok H v ks"
    and "set_mset (handles [v]) \<subseteq> set_mset (R + heap_refs H')"
    and "set_mset (handles [v]) \<subseteq> {g. g < zh_next H}"
  shows "value_ok H' v ks"
  using assms evolves_kind [OF assms(1,2)] by (cases v) (auto simp: value_ok_def)

subsection \<open>Contracts of the field operations\<close>

text \<open>An object with fields of fixed kinds.\<close>

definition has_slot :: "zheap \<Rightarrow> zhandle \<Rightarrow> nat \<Rightarrow> zkind set \<Rightarrow> bool" where
  "has_slot H h i ks \<longleftrightarrow> (\<exists>k. kind_of H h = Some k \<and> k \<noteq> K_array \<and> (k = K_server_endpoint \<longrightarrow> i = 0) \<and>
     i < length (slot_kinds k) \<and> slot_kinds k ! i = ks)"

lemma has_slot_obj:
  assumes "heap_inv R H" and "has_slot H h i ks"
  obtains ob where "obj_of H h = Some ob" and "zo_kind ob \<noteq> K_array" and "i < length (zo_slots ob)"
    and "slot_kinds (zo_kind ob) ! i = ks" and "i < length (slot_kinds (zo_kind ob))"
    and "obj_ok H ob" and "value_ok H (zo_slots ob ! i) ks" and "zo_kind ob = K_server_endpoint \<longrightarrow> i = 0"
proof -
  obtain ob where ob: "obj_of H h = Some ob" "zo_kind ob \<noteq> K_array"
    "i < length (slot_kinds (zo_kind ob))" "slot_kinds (zo_kind ob) ! i = ks"
    "zo_kind ob = K_server_endpoint \<longrightarrow> i = 0"
    using assms(2) by (auto simp: has_slot_def kind_of_def)
  moreover have "obj_ok H ob" using assms(1) ob(1) by (auto simp: heap_inv_def heap_ok_def)
  moreover from this ob(2-4) have "i < length (zo_slots ob)" and "value_ok H (zo_slots ob ! i) ks"
    by (auto simp: obj_ok_def list_all2_conv_all_nth)
  ultimately show thesis using that by blast
qed

lemma handles_update:
  "i < length vs \<Longrightarrow> handles (vs[i := v]) + handles [vs ! i] = handles vs + handles [v]"
proof (induction vs arbitrary: i)
  case (Cons w ws)
  then show ?case
    using handles_Cons [of w ws] handles_Cons [of v ws] handles_Cons [of w "ws[i - 1 := v]" ]
    by (cases i) (auto simp: ac_simps)
qed simp

lemma obj_ok_update:
  assumes "obj_ok H ob" and "zo_kind ob \<noteq> K_array" and "value_ok H v (slot_kinds (zo_kind ob) ! i)"
    and "zo_kind ob = K_server_endpoint \<longrightarrow> i = 0"
  shows "obj_ok H (ob\<lparr>zo_slots := (zo_slots ob)[i := v]\<rparr>)"
  using assms list_all2_update_cong [of "value_ok H" "zo_slots ob" "slot_kinds (zo_kind ob)" v
      "slot_kinds (zo_kind ob) ! i" i]
  by (auto simp: obj_ok_def)

lemma set_cell_evolves:
  assumes c: "cell H h = Some (rc, ob)" and "zo_kind ob' = zo_kind ob"
  shows "evolves {h} H (set_cell h (rc', ob') H)"
proof -
  have "obj_of H h = Some ob" using c by (simp add: obj_of_def)
  then show ?thesis using assms(2) by (auto simp: evolves_def obj_of_set_cell [OF c])
qed

lemma write_slot_inv:
  assumes inv: "heap_inv R H" and slot: "has_slot H h i ks" and "value_ok H v ks"
    and old: "obj_of H h = Some ob" and R: "R' + handles [v] = R + handles [zo_slots ob ! i]"
  shows "\<exists>H'. write_slot h i v H = Some H' \<and> heap_inv R' H' \<and> evolves {h} H H' \<and>
      zh_next H' = zh_next H \<and> obj_of H' h = Some (ob\<lparr>zo_slots := (zo_slots ob)[i := v]\<rparr>)"
proof -
  let ?ob = "ob\<lparr>zo_slots := (zo_slots ob)[i := v]\<rparr>"
  obtain rc where c: "cell H h = Some (rc, ob)" using old by (auto simp: obj_of_def)
  obtain "i < length (zo_slots ob)" "obj_ok H ob" "zo_kind ob \<noteq> K_array"
    "slot_kinds (zo_kind ob) ! i = ks" "zo_kind ob = K_server_endpoint \<longrightarrow> i = 0"
    using has_slot_obj [OF inv slot] old by (metis option.inject)
  moreover have "R' + handles ((zo_slots ob)[i := v]) = R + handles (zo_slots ob)"
    using R handles_update [OF \<open>i < length (zo_slots ob)\<close>] by (rule mset_exchange)
  then have "R' + handles (ob_values ?ob) = R + handles (ob_values ob)"
    by (simp add: ob_values_def add.assoc [symmetric])
  ultimately have "heap_inv R' (set_cell h (rc, ?ob) H)"
    using assms(3) by (intro inv_set_obj [OF inv c] obj_ok_update) auto
  moreover have "evolves {h} H (set_cell h (rc, ?ob) H)"
    using set_cell_evolves [OF c] by simp
  ultimately show ?thesis
    using c by (simp add: write_slot_def modify_obj_def obj_of_set_cell)
qed


lemma has_slot_evolves:
  assumes "evolves M H H'" and "heap_inv R H'" and "h \<in># R + heap_refs H'" and "h < zh_next H"
    and "has_slot H h i ks"
  shows "has_slot H' h i ks"
  using assms evolves_kind [OF assms(1-4)] by (simp add: has_slot_def)

lemma dtor_slot_inv:
  assumes inv: "heap_inv R H" and slot: "has_slot H h i ks" and "h \<in># R"
  shows "\<exists>H' ob. dtor_slot h i H = Some H' \<and> heap_inv R H' \<and> evolves {h} H H' \<and>
      obj_of H' h = Some ob \<and> zo_slots ob ! i = V_undef"
proof -
  obtain ob where ob: "obj_of H h = Some ob" "i < length (zo_slots ob)"
    using has_slot_obj [OF inv slot] by blast
  have undef: "value_ok H V_undef ks" by (simp add: value_ok_def)
  have eq: "(R + handles [zo_slots ob ! i]) + handles [V_undef] = R + handles [zo_slots ob ! i]"
    by simp
  obtain H1 where H1: "write_slot h i V_undef H = Some H1"
    "heap_inv (R + handles [zo_slots ob ! i]) H1" "evolves {h} H H1"
    "obj_of H1 h = Some (ob\<lparr>zo_slots := (zo_slots ob)[i := V_undef]\<rparr>)"
    using write_slot_inv [OF inv slot undef ob(1) eq] by blast
  obtain H2 where H2: "release [zo_slots ob ! i] H1 = Some H2" "heap_inv R H2" "shrinks H1 H2"
    using release_inv [OF H1(2)] by blast
  have "evolves {h} H H2" using evolves_trans [OF H1(3) shrinks_evolves [OF H2(3), of "{}"]] by simp
  moreover have "obj_of H2 h = obj_of H1 h" using shrinks_obj [OF H2(3,2)] assms(3) by simp
  ultimately show ?thesis
    using ob H1 H2 by (simp add: dtor_slot_def read_slot_def zval_ptr_dtor_def)
qed

text \<open>Storing a reference that is owned into an empty field.\<close>

lemma store_slot_inv:
  assumes inv: "heap_inv (R + handles [v]) H" and slot: "has_slot H h i ks" and "value_ok H v ks"
    and "obj_of H h = Some ob" and "zo_slots ob ! i = V_undef"
  shows "\<exists>H'. write_slot h i v H = Some H' \<and> heap_inv R H' \<and> evolves {h} H H' \<and>
      zh_next H' = zh_next H \<and> obj_of H' h = Some (ob\<lparr>zo_slots := (zo_slots ob)[i := v]\<rparr>)"
  using write_slot_inv [OF assms(1-4), of R] assms(5) by simp

definition held :: "zhandle multiset \<Rightarrow> zhandle \<Rightarrow> zheap \<Rightarrow> zval \<Rightarrow> bool" where
  "held R h H v \<longleftrightarrow> (\<forall>j. v = V_ref j \<longrightarrow>
     j \<in># R \<or> (\<exists>g ob. g \<in># R + heap_refs H \<and> g \<noteq> h \<and> obj_of H g = Some ob \<and> j \<in># handles (ob_values ob) \<and>
       (g \<in># R \<or> (\<exists>e oe. e \<in># R \<and> e \<noteq> h \<and> obj_of H e = Some oe \<and> g \<in># handles (ob_values oe)))))"

lemma held_root: "j \<in># R \<Longrightarrow> held R h H (V_ref j)" and held_simps: "held R h H V_null" "held R h H V_undef"
  by (simp_all add: held_def)

text \<open>
  A value that something outside \<open>h\<close> holds, itself held from outside within two steps, outlives a
  change of \<open>h\<close>.
\<close>

lemma held_lives:
  assumes inv: "heap_inv R H" and "held R h H v" and ev: "evolves {h} H H'" and inv': "heap_inv R H'"
  shows "set_mset (handles [v]) \<subseteq> set_mset (R + heap_refs H')"
    and "set_mset (handles [v]) \<subseteq> {g. g < zh_next H}"
proof -
  have *: "j \<in># R + heap_refs H' \<and> j < zh_next H" if v: "v = V_ref j" for j
  proof (cases "j \<in># R")
    case True
    then show ?thesis using held_below [OF inv] by simp
  next
    case False
    then obtain g ob where g: "g \<in># R + heap_refs H" "g \<noteq> h" "obj_of H g = Some ob"
      "j \<in># handles (ob_values ob)"
      "g \<in># R \<or> (\<exists>e oe. e \<in># R \<and> e \<noteq> h \<and> obj_of H e = Some oe \<and> g \<in># handles (ob_values oe))"
      using assms(2) v unfolding held_def by blast
    have "g \<in># R + heap_refs H'"
      using g(5)
    proof (elim disjE exE conjE)
      fix e oe assume e: "e \<in># R" "e \<noteq> h" "obj_of H e = Some oe" "g \<in># handles (ob_values oe)"
      then have "obj_of H' e = Some oe"
        using evolves_obj [OF ev inv', of e] held_below [OF inv, of e] by simp
      then show ?thesis using heap_refs_member [OF _ e(4)] by simp
    qed simp
    then have "obj_of H' g = Some ob"
      using evolves_obj [OF ev inv', of g] held_below [OF inv g(1)] g(2,3) by simp
    then show ?thesis
      using heap_refs_member [OF _ g(4)] g(3) held_below [OF inv, of j] by simp
  qed
  show "set_mset (handles [v]) \<subseteq> set_mset (R + heap_refs H')"
    and "set_mset (handles [v]) \<subseteq> {g. g < zh_next H}"
    using * by (cases v; simp)+
qed

text \<open>Replacing a field by a copy of a value that is held.\<close>

lemma set_slot_inv:
  assumes inv: "heap_inv R H" and slot: "has_slot H h i ks" and h: "h \<in># R"
    and v: "value_ok H v ks" and "held R h H v"
  shows "\<exists>H'. set_slot h i v H = Some H' \<and> heap_inv R H' \<and> evolves {h} H H'"
proof -
  obtain H1 ob where H1: "dtor_slot h i H = Some H1" "heap_inv R H1" "evolves {h} H H1"
    "obj_of H1 h = Some ob" "zo_slots ob ! i = V_undef"
    using dtor_slot_inv [OF inv slot h] by blast
  note live = held_lives [OF inv assms(5) H1(3,2)]
  obtain H2 where H2: "addref v H1 = Some H2" "heap_inv (R + handles [v]) H2"
    "zh_next H2 = zh_next H1" "obj_of H2 = obj_of H1"
    using inv_addref [OF H1(2) live(1)] by blast
  have kinds: "kind_of H2 = kind_of H1" using H2(4) by (simp add: fun_eq_iff kind_of_def)
  have "has_slot H1 h i ks"
    using has_slot_evolves [OF H1(3,2) _ _ slot] h held_below [OF inv] by simp
  then have "has_slot H2 h i ks" by (simp add: has_slot_def kinds)
  moreover have "value_ok H2 v ks"
    using value_ok_evolves [OF H1(3,2) v live] by (simp add: value_ok_def kinds split: zval.splits)
  ultimately obtain H3 where H3: "write_slot h i v H2 = Some H3" "heap_inv R H3" "evolves {h} H2 H3"
    using store_slot_inv [OF H2(2)] H1(4,5) H2(4) by metis
  have "evolves {h} H1 H2" using H2(3,4) by (auto simp: evolves_def)
  then have "evolves {h} H H3"
    using evolves_trans [OF evolves_trans [OF H1(3)] H3(3)] by blast
  then show ?thesis using H1 H2 H3 by (simp add: set_slot_def copy_slot_def)
qed


lemma kind_of_obj: "obj_of H h = Some ob \<Longrightarrow> kind_of H h = Some (zo_kind ob)"
  by (simp add: kind_of_def)

lemma move_slot_inv:
  assumes inv: "heap_inv (R + handles [v]) H" and slot: "has_slot H h i ks" and h: "h \<in># R"
    and v: "value_ok H v ks"
  shows "\<exists>H'. move_slot h i v H = Some H' \<and> heap_inv R H' \<and> evolves {h} H H'"
proof -
  have h': "h \<in># R + handles [v]" using h by simp
  obtain H1 ob where H1: "dtor_slot h i H = Some H1" "heap_inv (R + handles [v]) H1"
    "evolves {h} H H1" "obj_of H1 h = Some ob" "zo_slots ob ! i = V_undef"
    using dtor_slot_inv [OF inv slot h'] by blast
  have below: "g < zh_next H" if "g \<in># R + handles [v]" for g
  proof -
    from that have "g \<in># R + handles [v] + heap_refs H" by (subst union_iff) (rule disjI1)
    then show ?thesis by (rule held_below [OF inv])
  qed
  have "h \<in># R + handles [v] + heap_refs H1" using h by simp
  then have "has_slot H1 h i ks"
    using has_slot_evolves [OF H1(3,2) _ below [OF h'] slot] by simp
  moreover have "value_ok H1 v ks"
    using value_ok_evolves [OF H1(3,2) v] below by (cases v) auto
  ultimately obtain H2 where "write_slot h i v H1 = Some H2" "heap_inv R H2" "evolves {h} H1 H2"
    using store_slot_inv [OF H1(2)] H1(4,5) by metis
  then show ?thesis using H1 evolves_trans [OF H1(3), of "{h}" H2] by (simp add: move_slot_def)
qed

lemma copy_slot_inv:
  assumes inv: "heap_inv R H" and slot: "has_slot H h i ks" and "value_ok H v ks"
    and live: "set_mset (handles [v]) \<subseteq> set_mset (R + heap_refs H)"
    and ob: "obj_of H h = Some ob" "zo_slots ob ! i = V_undef"
  shows "\<exists>H'. copy_slot h i v H = Some H' \<and> heap_inv R H' \<and> evolves {h} H H' \<and>
      obj_of H' h = Some (ob\<lparr>zo_slots := (zo_slots ob)[i := v]\<rparr>)"
proof -
  obtain H2 where H2: "addref v H = Some H2" "heap_inv (R + handles [v]) H2"
    "zh_next H2 = zh_next H" "obj_of H2 = obj_of H"
    using inv_addref [OF inv live] by blast
  have kinds: "kind_of H2 = kind_of H" using H2(4) by (simp add: fun_eq_iff kind_of_def)
  have s2: "has_slot H2 h i ks" using slot by (simp add: has_slot_def kinds)
  have v2: "value_ok H2 v ks" using assms(3) by (simp add: value_ok_def kinds split: zval.splits)
  have ob2: "obj_of H2 h = Some ob" using ob(1) H2(4) by simp
  obtain H3 where H3: "write_slot h i v H2 = Some H3" "heap_inv R H3" "evolves {h} H2 H3"
    "obj_of H3 h = Some (ob\<lparr>zo_slots := (zo_slots ob)[i := v]\<rparr>)"
    using store_slot_inv [OF H2(2) s2 v2 ob2 ob(2)] by blast
  have "evolves {h} H H2" using H2(3,4) by (auto simp: evolves_def)
  then show ?thesis using H2 H3 evolves_trans [OF _ H3(3), of "{h}" H] by (simp add: copy_slot_def)
qed

subsection \<open>Contracts of the constructors of objects\<close>

lemma new_cell_inv:
  assumes "heap_inv (R + handles vs) H" and "obj_ok H \<lparr>zo_kind = k, zo_slots = vs, zo_table = []\<rparr>"
    and "new_cell k vs H = (h, H')"
  shows "heap_inv (R + {#h#}) H'" and "evolves {} H H'" and "h = zh_next H" and "h < zh_next H'"
    and "obj_of H' h = Some \<lparr>zo_kind = k, zo_slots = vs, zo_table = []\<rparr>"
proof -
  let ?ob = "\<lparr>zo_kind = k, zo_slots = vs, zo_table = []\<rparr>"
  have h: "h = zh_next H" "H' = alloc ?ob H" using assms(3) by (auto simp: new_cell_def)
  have "heap_inv (R + handles (ob_values ?ob)) H" using assms(1) by (simp add: ob_values_def)
  then show "heap_inv (R + {#h#}) H'" using inv_alloc assms(2) h by simp
  show "evolves {} H H'" unfolding h by (auto simp: evolves_def obj_of_alloc)
  show "h = zh_next H" "h < zh_next H'" "obj_of H' h = Some ?ob" using h by (simp_all add: obj_of_alloc)
qed

lemma new_string_inv:
  assumes "heap_inv R H" and "new_string H = (h, H')"
  shows "heap_inv (R + {#h#}) H'" and "evolves {} H H'" and "h = zh_next H" and "h < zh_next H'"
    and "kind_of H' h = Some K_string"
  using new_cell_inv [of R "[]" H K_string h H'] assms
  by (simp_all add: new_string_def obj_ok_def kind_of_obj)

lemma array_init_inv:
  assumes "heap_inv R H" and "array_init H = (h, H')"
  shows "heap_inv (R + {#h#}) H'" and "evolves {} H H'" and "h = zh_next H" and "h < zh_next H'"
    and "kind_of H' h = Some K_array"
  using new_cell_inv [of R "[]" H K_array h H'] assms
  by (simp_all add: array_init_def obj_ok_def kind_of_obj)

definition fresh_slots :: "zkind \<Rightarrow> zval list \<Rightarrow> bool" where
  "fresh_slots k vs \<longleftrightarrow>
     (k = K_connection \<longrightarrow> vs = [V_undef, V_undef, V_undef]) \<and> (k = K_stream \<longrightarrow> vs = [V_undef])"

definition creates :: "zhandle multiset \<Rightarrow> zheap \<Rightarrow> zkind \<Rightarrow> zhandle \<Rightarrow> zheap \<Rightarrow> bool" where
  "creates R H k h H' \<longleftrightarrow> heap_inv (R + {#h#}) H' \<and> evolves {} H H' \<and> zh_next H \<le> h \<and>
     h < zh_next H' \<and>
     (\<exists>ob. obj_of H' h = Some ob \<and> zo_kind ob = k \<and> fresh_slots k (zo_slots ob))"

lemma new_with_creates:
  assumes inv: "heap_inv R H"
    and inner: "\<And>s H1. f H = (s, H1) \<Longrightarrow> heap_inv (R + {#s#}) H1 \<and> evolves {} H H1 \<and>
      zh_next H \<le> s \<and> kind_of H1 s = Some ki"
    and ok: "\<And>s H1. kind_of H1 s = Some ki \<Longrightarrow> obj_ok H1 \<lparr>zo_kind = k, zo_slots = slots (V_ref s), zo_table = []\<rparr>"
    and hs: "\<And>s. handles (slots (V_ref s)) = {#s#}"
    and "fresh_slots k (slots (V_ref (fst (f H))))" and "new_with f k slots H = (h, H')"
  shows "creates R H k h H'"
proof -
  obtain s H1 where f: "f H = (s, H1)" by (cases "f H")
  note i = inner [OF f]
  have "new_cell k (slots (V_ref s)) H1 = (h, H')" using assms(6) f by (simp add: new_with_def)
  moreover have "heap_inv (R + handles (slots (V_ref s))) H1" using i hs by simp
  ultimately have c: "heap_inv (R + {#h#}) H'" "evolves {} H1 H'" "h = zh_next H1" "h < zh_next H'"
    "obj_of H' h = Some \<lparr>zo_kind = k, zo_slots = slots (V_ref s), zo_table = []\<rparr>"
    using new_cell_inv [where k = k and vs = "slots (V_ref s)" and H = H1] ok i by metis+
  moreover have "evolves {} H H'" using evolves_trans [of "{}" H H1 "{}" H'] i c(2) by blast
  moreover have "zh_next H \<le> zh_next H1" using i by (simp add: evolves_def)
  ultimately show ?thesis using assms(5) f by (auto simp: creates_def)
qed

lemma create_object_creates:
  assumes inv: "heap_inv R H" and "create_object k H = (h, H')"
  shows "creates R H k h H'"
proof -
  have plain: "creates R H k h H'"
    if "new_cell k vs H = (h, H')" "handles vs = {#}" "obj_ok H \<lparr>zo_kind = k, zo_slots = vs, zo_table = []\<rparr>"
      "fresh_slots k vs" for vs
    using new_cell_inv [OF _ that(3,1), of R] inv that(2,4) by (auto simp: creates_def)
  have str: "creates R H k h H'"
    if "new_with new_string k slots H = (h, H')" "\<And>s. handles (slots (V_ref s)) = {#s#}"
      "\<And>s H1. kind_of H1 s = Some K_string \<Longrightarrow>
         obj_ok H1 \<lparr>zo_kind = k, zo_slots = slots (V_ref s), zo_table = []\<rparr>"
      "\<And>v. fresh_slots k (slots v)" for slots
    using new_with_creates [OF inv _ that(3,2,4,1)] new_string_inv [OF inv] by auto
  have arr: "creates R H k h H'"
    if "new_with array_init k slots H = (h, H')" "\<And>s. handles (slots (V_ref s)) = {#s#}"
      "\<And>s H1. kind_of H1 s = Some K_array \<Longrightarrow>
         obj_ok H1 \<lparr>zo_kind = k, zo_slots = slots (V_ref s), zo_table = []\<rparr>"
      "\<And>v. fresh_slots k (slots v)" for slots
    using new_with_creates [OF inv _ that(3,2,4,1)] array_init_inv [OF inv] by auto
  note oks = obj_ok_def value_ok_def fresh_slots_def
  show ?thesis
  proof (cases k)
    case K_string
    then show ?thesis using assms(2)
      by (intro plain [where vs = "[]"]) (simp_all add: new_string_def oks)
  next
    case K_array
    then show ?thesis using assms(2)
      by (intro plain [where vs = "[]"]) (simp_all add: array_init_def oks)
  next
    case K_address
    then show ?thesis using assms(2) by (intro str [where slots = "\<lambda>s. [s]"]) (simp_all add: oks)
  next
    case K_datagram
    then show ?thesis using assms(2)
      by (intro str [where slots = "\<lambda>s. [s, V_undef, V_undef]"]) (simp_all add: oks)
  next
    case K_event
    then show ?thesis using assms(2) by (intro str [where slots = "\<lambda>s. [s]"]) (simp_all add: oks)
  next
    case K_client_config
    then show ?thesis using assms(2)
      by (intro plain [where vs = "[V_null, V_undef, V_undef]"]) (simp_all add: oks)
  next
    case K_server_config
    then show ?thesis using assms(2)
      by (intro plain [where vs = "[V_null, V_undef, V_undef, V_undef]"]) (simp_all add: oks)
  next
    case K_connection
    then show ?thesis using assms(2)
      by (intro plain [where vs = "[V_undef, V_undef, V_undef]"]) (simp_all add: oks)
  next
    case K_stream
    then show ?thesis using assms(2) by (intro plain [where vs = "[V_undef]"]) (simp_all add: oks)
  next
    case K_server_endpoint
    then show ?thesis using assms(2)
      by (intro arr [where slots = "\<lambda>a. [V_undef, a]"]) (simp_all add: oks)
  qed
qed

end
