(* ===== verification/Quic_Lifetime_Ops.thy ===== *)
theory Quic_Lifetime_Ops
  imports Quic_Lifetime
begin

text \<open>
  The contract of every operation of \<^theory_text>\<open>Quic_Lifetime\<close>: started where the counts are
  exact, it does not touch a freed cell, and the counts are exact afterwards, with the references
  its result holds.
\<close>

subsection \<open>Contracts\<close>

definition changes :: "zhandle multiset \<Rightarrow> zhandle set \<Rightarrow> zheap \<Rightarrow> zheap option \<Rightarrow> bool" where
  "changes R M H r \<longleftrightarrow> (\<exists>H'. r = Some H' \<and> heap_inv R H' \<and> evolves M H H')"

definition produces ::
  "zhandle multiset \<Rightarrow> zkind set \<Rightarrow> zhandle set \<Rightarrow> zheap \<Rightarrow> (zval \<times> zheap) option \<Rightarrow> bool" where
  "produces R ks M H r \<longleftrightarrow>
     (\<exists>v H'. r = Some (v, H') \<and> heap_inv (R + handles [v]) H' \<and> evolves M H H' \<and> value_ok H' v ks)"

lemma changesI: "heap_inv R H' \<Longrightarrow> evolves M H H' \<Longrightarrow> changes R M H (Some H')"
  by (simp add: changes_def)

lemma changesE:
  assumes "changes R M H r"
  obtains H' where "r = Some H'" and "heap_inv R H'" and "evolves M H H'"
  using assms by (auto simp: changes_def)

lemma producesE:
  assumes "produces R ks M H r"
  obtains v H' where "r = Some (v, H')" and "heap_inv (R + handles [v]) H'" and "evolves M H H'"
    and "value_ok H' v ks"
  using assms by (auto simp: produces_def)

text \<open>Changes of cells that are younger than the heap one looks from do not count.\<close>

lemma changes_from:
  assumes "changes R N H1 r" and "evolves M H H1" and "\<And>g. g \<in> N \<Longrightarrow> g < zh_next H \<Longrightarrow> g \<in> M"
  shows "changes R M H r"
  using assms evolves_trans [OF assms(2) _ assms(3)] by (auto simp: changes_def)

lemma produces_from:
  assumes "produces R ks N H1 r" and "evolves M H H1" and "\<And>g. g \<in> N \<Longrightarrow> g < zh_next H \<Longrightarrow> g \<in> M"
  shows "produces R ks M H r"
  using assms evolves_trans [OF assms(2) _ assms(3)] by (auto simp: produces_def)

lemma changes_bind:
  assumes "changes R M H r"
    and "\<And>H1. heap_inv R H1 \<Longrightarrow> evolves M H H1 \<Longrightarrow> changes R' N H1 (f H1)"
    and "\<And>g. g \<in> N \<Longrightarrow> g < zh_next H \<Longrightarrow> g \<in> M"
  shows "changes R' M H (r \<bind> f)"
proof -
  obtain H1 where H1: "r = Some H1" "heap_inv R H1" "evolves M H H1" using assms(1) by (rule changesE)
  then have "changes R' N H1 (f H1)" by (intro assms(2))
  then show ?thesis using changes_from H1(1,3) assms(3) by auto
qed

lemma produces_bind:
  assumes "changes R M H r"
    and "\<And>H1. heap_inv R H1 \<Longrightarrow> evolves M H H1 \<Longrightarrow> produces R' ks N H1 (f H1)"
    and "\<And>g. g \<in> N \<Longrightarrow> g < zh_next H \<Longrightarrow> g \<in> M"
  shows "produces R' ks M H (r \<bind> f)"
proof -
  obtain H1 where H1: "r = Some H1" "heap_inv R H1" "evolves M H H1" using assms(1) by (rule changesE)
  then have "produces R' ks N H1 (f H1)" by (intro assms(2))
  then show ?thesis using produces_from H1(1,3) assms(3) by auto
qed

subsection \<open>Arguments\<close>

text \<open>
  An argument is an object the script, or the engine for a running call, holds. A connection that
  a method of the endpoint calls is held by the endpoint's table instead, and the endpoint is an
  argument.
\<close>

definition rooted :: "zhandle multiset \<Rightarrow> zheap \<Rightarrow> zkind \<Rightarrow> zhandle \<Rightarrow> bool" where
  "rooted R H k h \<longleftrightarrow> h \<in># R \<and> kind_of H h = Some k"

definition tabled :: "zhandle multiset \<Rightarrow> zheap \<Rightarrow> zhandle \<Rightarrow> bool" where
  "tabled R H h \<longleftrightarrow> kind_of H h = Some K_connection \<and>
     (h \<in># R \<or> (\<exists>e oe. e \<in># R \<and> obj_of H e = Some oe \<and> zo_kind oe = K_server_endpoint \<and>
        h \<in># handles (ob_values oe)))"

definition fits :: "zhandle multiset \<Rightarrow> zheap \<Rightarrow> zkind set \<Rightarrow> zval \<Rightarrow> bool" where
  "fits R H ks v \<longleftrightarrow> (case v of V_ref g \<Rightarrow> g \<in># R \<and> kind_of H g \<in> Some ` ks | _ \<Rightarrow> True)"

lemma fits_simps [simp]:
  "fits R H ks V_undef" "fits R H ks V_null"
  "fits R H {k} (V_ref g) \<longleftrightarrow> rooted R H k g"
  "fits R H {k} (or_null x) \<longleftrightarrow> (\<forall>g. x = Some g \<longrightarrow> rooted R H k g)"
  "fits R H {k} (or_undef x) \<longleftrightarrow> (\<forall>g. x = Some g \<longrightarrow> rooted R H k g)"
  by (auto simp: fits_def rooted_def or_null_def or_undef_def split: option.splits)

lemma rooted_live: "heap_inv R H \<Longrightarrow> h \<in># R \<Longrightarrow> h < zh_next H"
  using held_below by simp

lemma rooted_later:
  assumes "rooted R H k h" and "heap_inv R0 H" and "evolves M H H'" and "heap_inv R' H'"
    and "set_mset R \<subseteq> set_mset R'"
  shows "rooted R' H' k h"
proof -
  have "h \<in># R' + heap_refs H'" using assms(1,5) by (auto simp: rooted_def)
  moreover have "h < zh_next H"
    using assms(1,2) obj_below_next by (auto simp: rooted_def kind_of_def)
  ultimately show ?thesis
    using evolves_kind [OF assms(3,4)] assms(1,5) by (auto simp: rooted_def)
qed

lemma fits_later:
  assumes "fits R H ks v" and "heap_inv R0 H" and "evolves M H H'" and "heap_inv R' H'"
    and "set_mset R \<subseteq> set_mset R'"
  shows "fits R' H' ks v"
  using assms rooted_later [of R H _ _ R0 M H' R'] by (cases v) (auto simp: fits_def rooted_def)

lemma tabled_later:
  assumes t: "tabled R H h" and "heap_inv R0 H" and "evolves M H H'" and "heap_inv R' H'"
    and "set_mset R \<subseteq> set_mset R'" and "\<And>g. g \<in> M \<Longrightarrow> kind_of H g \<noteq> Some K_server_endpoint"
  shows "tabled R' H' h"
proof -
  have h: "kind_of H h = Some K_connection" "h < zh_next H"
    using t assms(2) obj_below_next by (auto simp: tabled_def kind_of_def)
  have table: "obj_of H' e = Some oe"
    if "e \<in># R" "obj_of H e = Some oe" "zo_kind oe = K_server_endpoint" for e oe
  proof -
    have "e \<in># R' + heap_refs H'" using that(1) assms(5) by auto
    moreover have "e \<notin> M" using assms(6) [of e] that(2,3) by (auto simp: kind_of_def)
    ultimately show ?thesis
      using evolves_obj [OF assms(3,4)] obj_below_next [OF assms(2) that(2)] that(2) by simp
  qed
  have "h \<in># R' + heap_refs H'"
  proof (cases "h \<in># R")
    case False
    then obtain e oe where e: "e \<in># R" "obj_of H e = Some oe" "zo_kind oe = K_server_endpoint"
      "h \<in># handles (ob_values oe)" using t unfolding tabled_def by blast
    then have "obj_of H' e = Some oe" by (intro table)
    then show ?thesis using heap_refs_member e(4) by simp
  qed (use assms(5) in auto)
  then have "kind_of H' h = Some K_connection"
    using evolves_kind [OF assms(3,4)] h by simp
  then show ?thesis using t table assms(5) unfolding tabled_def by blast
qed

lemma rooted_tabled: "rooted R H K_connection h \<Longrightarrow> tabled R H h"
  by (auto simp: rooted_def tabled_def)

text \<open>Setting a field of an argument to an argument.\<close>

lemma set_slot_changes:
  assumes inv: "heap_inv R H" and root: "rooted R H k h" and k: "k \<notin> {K_array, K_server_endpoint}"
    and i: "i < length (slot_kinds k)" and v: "fits R H (slot_kinds k ! i) v"
  shows "changes R {h} H (set_slot h i v H)"
proof -
  have "has_slot H h i (slot_kinds k ! i)" using root k i by (auto simp: has_slot_def rooted_def)
  moreover have "value_ok H v (slot_kinds k ! i)" using v by (auto simp: fits_def value_ok_def split: zval.splits)
  moreover have "held R h H v" using v by (cases v) (auto simp: fits_def held_def)
  ultimately show ?thesis
    using set_slot_inv [OF inv] root by (auto simp: rooted_def changes_def)
qed

lemma return_copy_produces:
  assumes "heap_inv R H" and "fits R H ks v"
  shows "produces R ks {} H (return_copy v H)"
proof -
  have "set_mset (handles [v]) \<subseteq> set_mset (R + heap_refs H)"
    using assms(2) by (cases v) (auto simp: fits_def)
  then obtain H' where H': "addref v H = Some H'" "heap_inv (R + handles [v]) H'"
    "zh_next H' = zh_next H" "obj_of H' = obj_of H" using inv_addref [OF assms(1)] by blast
  moreover have "evolves {} H H'" using H'(3,4) by (simp add: evolves_def)
  moreover have "value_ok H' v ks" using assms(2) H'(4)
    by (auto simp: fits_def value_ok_def kind_of_def split: zval.splits)
  ultimately show ?thesis by (simp add: return_copy_def produces_def)
qed

subsection \<open>Operations that set fields of an argument\<close>

fun set_slots :: "zhandle \<Rightarrow> (nat \<times> zval) list \<Rightarrow> zheap \<Rightarrow> zheap option" where
  "set_slots this [] = Some"
| "set_slots this ((i, v) # sets) = (\<lambda>H. do { H \<leftarrow> set_slot this i v H; set_slots this sets H })"

lemma set_slots_changes:
  assumes "heap_inv R H" and "rooted R H k h" and "k \<notin> {K_array, K_server_endpoint}"
    and "\<forall>(i, v) \<in> set sets. i < length (slot_kinds k) \<and> fits R H (slot_kinds k ! i) v"
  shows "changes R {h} H (set_slots h sets H)"
  using assms
proof (induction sets arbitrary: H)
  case Nil
  then show ?case by (simp add: changesI evolves_refl)
next
  case (Cons s sets)
  obtain i v where s: "s = (i, v)" by (cases s)
  have "changes R {h} H (set_slot h i v H)"
    using Cons.prems s by (intro set_slot_changes) auto
  then show ?case
    unfolding s set_slots.simps
  proof (rule changes_bind)
    fix H1 assume H1: "heap_inv R H1" "evolves {h} H H1"
    note later = rooted_later [OF _ Cons.prems(1) H1(2,1)] fits_later [OF _ Cons.prems(1) H1(2,1)]
    show "changes R {h} H1 (set_slots h sets H1)"
      using Cons.prems(2-4) by (intro Cons.IH H1) (auto intro: later)
  qed simp
qed

lemma bind_SomeR: "(m \<bind> Some) = m"
  by (cases m) simp_all

lemma Address_construct_changes:
  "heap_inv R H \<Longrightarrow> rooted R H K_address this \<Longrightarrow> rooted R H K_string host \<Longrightarrow>
     changes R {this} H (Address_construct_rc this host H)"
  using set_slot_changes [of R H K_address this 0 "V_ref host"]
  by (simp add: Address_construct_rc_def)

lemma Datagram_construct_changes:
  assumes "heap_inv R H" and "rooted R H K_datagram this" and "rooted R H K_string payload"
    and "rooted R H K_address peer" and "\<forall>l. local = Some l \<longrightarrow> rooted R H K_address l"
  shows "changes R {this} H (Datagram_construct_rc this payload peer local H)"
  using set_slots_changes [OF assms(1,2), of "[(0, V_ref payload), (1, V_ref peer), (2, or_null local)]"]
    assms(3-5)
  by (simp add: Datagram_construct_rc_def bind_SomeR)

lemma ClientConfig_construct_changes:
  assumes "heap_inv R H" and "rooted R H K_client_config this"
    and "\<forall>l. local = Some l \<longrightarrow> rooted R H K_address l"
    and "\<forall>s. server_name = Some s \<longrightarrow> rooted R H K_string s"
    and "\<forall>s. alpn = Some s \<longrightarrow> rooted R H K_string s"
  shows "changes R {this} H (ClientConfig_construct_rc this local server_name alpn H)"
  using set_slots_changes [OF assms(1,2), of "[(0, or_null local), (1, or_undef server_name), (2, or_undef alpn)]"]
    assms(3-5)
  by (simp add: ClientConfig_construct_rc_def bind_SomeR)

lemma ServerConfig_construct_changes:
  assumes "heap_inv R H" and "rooted R H K_server_config this"
    and "\<forall>l. local = Some l \<longrightarrow> rooted R H K_address l"
    and "\<forall>s. cert_file = Some s \<longrightarrow> rooted R H K_string s"
    and "\<forall>s. key_file = Some s \<longrightarrow> rooted R H K_string s"
    and "\<forall>s. alpn = Some s \<longrightarrow> rooted R H K_string s"
  shows "changes R {this} H (ServerConfig_construct_rc this local cert_file key_file alpn H)"
  using set_slots_changes [OF assms(1,2),
      of "[(0, or_null local), (1, or_undef cert_file), (2, or_undef key_file), (3, or_undef alpn)]"]
    assms(3-6)
  by (simp add: ServerConfig_construct_rc_def bind_SomeR)

lemma new_cell_empty:
  assumes "heap_inv R H" and "new_cell k [] H = (n, H1)" and "k = K_string \<or> k = K_array"
  shows "heap_inv (R + {#n#}) H1" and "evolves {} H H1" and "zh_next H \<le> n" and "n < zh_next H1"
    and "kind_of H1 n = Some k"
  using new_cell_inv [of R "[]" H k n H1] assms by (auto simp: obj_ok_def kind_of_obj)

lemma renew_slot_changes:
  assumes inv: "heap_inv R H" and root: "rooted R H k h" and "k \<notin> {K_array, K_server_endpoint}" and i: "i < length (slot_kinds k)"
    and n: "n = K_string \<or> n = K_array" "n \<in> slot_kinds k ! i"
  shows "changes R {h} H (renew_slot h i (new_cell n []) H)"
proof -
  have h: "h \<in># R" using root by (simp add: rooted_def)
  have slot: "has_slot H h i (slot_kinds k ! i)" using root assms(3) i by (auto simp: has_slot_def rooted_def)
  obtain H1 ob where H1: "dtor_slot h i H = Some H1" "heap_inv R H1" "evolves {h} H H1"
    "obj_of H1 h = Some ob" "zo_slots ob ! i = V_undef"
    using dtor_slot_inv [OF inv slot h] by blast
  obtain s H2 where new: "new_cell n [] H1 = (s, H2)" by (cases "new_cell n [] H1")
  note H2 = new_cell_empty [OF H1(2) new n(1)]
  have "rooted R H1 k h" by (rule rooted_later [OF root inv H1(3,2)]) simp
  then have r2: "rooted (R + {#s#}) H2 k h" using rooted_later [OF _ H1(2) H2(2,1)] by auto
  have "has_slot H2 h i (slot_kinds k ! i)" using r2 assms(3) i by (auto simp: has_slot_def rooted_def)
  moreover have "value_ok H2 (V_ref s) (slot_kinds k ! i)" using n H2(5) by (simp add: value_ok_def)
  moreover have "obj_of H2 h = Some ob"
    using evolves_obj [OF H2(2,1), of h] h rooted_live [OF H1(2) h] H1(4) by simp
  moreover have "heap_inv (R + handles [V_ref s]) H2" using H2(1) by simp
  ultimately obtain H3 where "write_slot h i (V_ref s) H2 = Some H3" "heap_inv R H3" "evolves {h} H2 H3"
    using store_slot_inv H1(5) by metis
  then show ?thesis
    using H1 new evolves_trans [OF evolves_trans [OF H1(3) H2(2)], of "{h}" H3]
    by (simp add: renew_slot_def changes_def)
qed

lemma Event_construct_changes:
  assumes "heap_inv R H" and "rooted R H K_event this"
    and "\<forall>r. reason = Some r \<longrightarrow> rooted R H K_string r"
  shows "changes R {this} H (Event_construct_rc this reason H)"
proof (cases reason)
  case None
  then show ?thesis using renew_slot_changes [OF assms(1,2), of 0 K_string]
    by (simp add: Event_construct_rc_def new_string_def)
next
  case (Some r)
  then show ?thesis using set_slot_changes [OF assms(1,2), of 0 "V_ref r"] assms(3)
    by (simp add: Event_construct_rc_def)
qed

lemma dtor_changes: "heap_inv (R + handles [v]) H \<Longrightarrow> changes R {} H (zval_ptr_dtor v H)"
  using release_inv [of R "[v]" H] shrinks_evolves by (auto simp: changes_def zval_ptr_dtor_def)

lemma Config_withLocalAddress_produces:
  assumes "heap_inv R H" and "rooted R H k this" and "k = K_client_config \<or> k = K_server_config"
    and "\<forall>l. local = Some l \<longrightarrow> rooted R H K_address l"
  shows "produces R {k} {this} H (Config_withLocalAddress_rc this local H)"
  unfolding Config_withLocalAddress_rc_def
proof (rule produces_bind)
  show "changes R {this} H (set_slot this 0 (or_null local) H)"
    using assms by (intro set_slot_changes) auto
next
  fix H1 assume H1: "heap_inv R H1" "evolves {this} H H1"
  show "produces R {k} {} H1 (return_copy (V_ref this) H1)"
    using rooted_later [OF assms(2,1) H1(2,1)] by (intro return_copy_produces [OF H1(1)]) simp
qed simp

lemma Config_withString_produces:
  assumes "heap_inv R H" and "rooted R H k this" and "k = K_client_config \<or> k = K_server_config"
    and "i < length (slot_kinds k)" and "0 < i" and "\<forall>s. string = Some s \<longrightarrow> rooted R H K_string s"
  shows "produces R {k} {this} H (Config_withString_rc this i string H)"
  unfolding Config_withString_rc_def
proof (rule produces_bind)
  have "slot_kinds k ! i = {K_string}"
    using assms(3-5) by (auto simp: less_Suc_eq numeral_eq_Suc)
  then show "changes R {this} H (set_slot this i (or_undef string) H)"
    using assms by (intro set_slot_changes) auto
next
  fix H1 assume H1: "heap_inv R H1" "evolves {this} H H1"
  show "produces R {k} {} H1 (return_copy (V_ref this) H1)"
    using rooted_later [OF assms(2,1) H1(2,1)] by (intro return_copy_produces [OF H1(1)]) simp
qed simp

lemma ServerConfig_withCertificate_produces:
  assumes "heap_inv R H" and "rooted R H K_server_config this" and "rooted R H K_string cert_file"
    and "rooted R H K_string key_file"
  shows "produces R {K_server_config} {this} H (ServerConfig_withCertificate_rc this cert_file key_file H)"
proof -
  have "produces R {K_server_config} {this} H
      (set_slots this [(1, V_ref cert_file), (2, V_ref key_file)] H \<bind> return_copy (V_ref this))"
  proof (rule produces_bind)
    show "changes R {this} H (set_slots this [(1, V_ref cert_file), (2, V_ref key_file)] H)"
      using assms by (intro set_slots_changes) auto
  next
    fix H1 assume H1: "heap_inv R H1" "evolves {this} H H1"
    show "produces R {K_server_config} {} H1 (return_copy (V_ref this) H1)"
      using rooted_later [OF assms(2,1) H1(2,1)] by (intro return_copy_produces [OF H1(1)]) simp
  qed simp
  then show ?thesis by (simp add: ServerConfig_withCertificate_rc_def bind_SomeR)
qed

subsection \<open>Operations that make objects\<close>

lemma create_object_rooted:
  assumes "heap_inv R H" and "create_object k H = (h, H1)"
  shows "heap_inv (R + {#h#}) H1" and "rooted (R + {#h#}) H1 k h" and "evolves {} H H1"
    and "zh_next H \<le> h"
    and "\<exists>ob. obj_of H1 h = Some ob \<and> zo_kind ob = k \<and> fresh_slots k (zo_slots ob)"
  using create_object_creates [OF assms] by (auto simp: creates_def rooted_def kind_of_def)

lemma make_object:
  assumes inv: "heap_inv R0 H" and new: "create_object k H = (h, H1)"
    and step: "heap_inv (R0 + {#h#}) H1 \<Longrightarrow> rooted (R0 + {#h#}) H1 k h \<Longrightarrow> evolves {} H H1 \<Longrightarrow>
      zh_next H \<le> h \<Longrightarrow> changes (R + {#h#}) {h} H1 r"
  shows "produces R {k} {} H (r \<bind> (\<lambda>H. Some (V_ref h, H)))"
proof -
  note H1 = create_object_rooted [OF inv new]
  obtain H2 where H2: "r = Some H2" "heap_inv (R + {#h#}) H2" "evolves {h} H1 H2"
    using step [OF H1(1-4)] by (rule changesE)
  have "evolves {} H H2" using evolves_trans [OF H1(3) H2(3)] H1(4) by simp
  moreover have "h < zh_next H1" using H1(1) by (rule rooted_live) simp
  then have "kind_of H2 h = kind_of H1 h" by (intro evolves_kind [OF H2(3,2)]) simp_all
  ultimately show ?thesis using H1(2) H2 by (simp add: produces_def value_ok_def rooted_def)
qed

lemma new_string_rooted:
  assumes "heap_inv R H" and "new_string H = (s, H1)"
  shows "heap_inv (R + {#s#}) H1" and "evolves {} H H1" and "zh_next H \<le> s" and "rooted (R + {#s#}) H1 K_string s"
  using new_cell_empty [of R H K_string s H1] assms by (simp_all add: new_string_def rooted_def)

lemma Address_fromString_produces:
  assumes "heap_inv R H"
  shows "produces R {K_address} {} H (Address_fromString_rc H)"
proof -
  obtain s H1 where s: "new_string H = (s, H1)" by (cases "new_string H")
  obtain h H2 where new: "create_object K_address H1 = (h, H2)" by (cases "create_object K_address H1")
  note H1 = new_string_rooted [OF assms s]
  have "produces R {K_address} {} H1 (move_slot h 0 (V_ref s) H2 \<bind> (\<lambda>H. Some (V_ref h, H)))"
  proof (rule make_object [OF H1(1) new])
    assume H2: "heap_inv (R + {#s#} + {#h#}) H2" "rooted (R + {#s#} + {#h#}) H2 K_address h" "evolves {} H1 H2"
    have "heap_inv (R + {#h#} + handles [V_ref s]) H2" using H2(1) by (simp add: ac_simps)
    moreover have "has_slot H2 h 0 {K_string}" using H2(2) by (simp add: has_slot_def rooted_def)
    moreover have "rooted (R + {#s#} + {#h#}) H2 K_string s"
      using rooted_later [OF H1(4,1) H2(3,1)] by auto
    then have "value_ok H2 (V_ref s) {K_string}" by (simp add: value_ok_def rooted_def)
    ultimately show "changes (R + {#h#}) {h} H2 (move_slot h 0 (V_ref s) H2)"
      using move_slot_inv [of "R + {#h#}" "V_ref s" H2 h 0] by (simp add: changes_def)
  qed
  then have "produces R {K_address} {} H (move_slot h 0 (V_ref s) H2 \<bind> (\<lambda>H. Some (V_ref h, H)))"
    using H1(2) by (rule produces_from) simp
  then show ?thesis by (simp only: Address_fromString_rc_def s new Let_def prod.case)
qed

lemma address_init_from_sockaddr_produces:
  assumes "heap_inv R H"
  shows "produces R {K_address} {} H (address_init_from_sockaddr_rc H)"
proof -
  obtain h H1 where new: "create_object K_address H = (h, H1)" by (cases "create_object K_address H")
  have "produces R {K_address} {} H (renew_slot h 0 new_string H1 \<bind> (\<lambda>H. Some (V_ref h, H)))"
    using renew_slot_changes [where k = K_address and i = 0 and n = K_string]
    by (intro make_object [OF assms new]) (simp add: new_string_def)
  then show ?thesis by (simp only: address_init_from_sockaddr_rc_def new Let_def prod.case)
qed

lemma event_create_produces:
  assumes inv: "heap_inv R H" and "\<forall>s. reason = Some s \<longrightarrow> rooted R H K_string s"
  shows "produces R {K_event} {} H (event_create_from_native_rc reason H)"
proof -
  obtain h H1 where new: "create_object K_event H = (h, H1)" by (cases "create_object K_event H")
  have "produces R {K_event} {} H
      ((case reason of Some r \<Rightarrow> set_slot h 0 (V_ref r) H1 | None \<Rightarrow> renew_slot h 0 new_string H1) \<bind>
        (\<lambda>H. Some (V_ref h, H)))"
  proof (rule make_object [OF inv new])
    assume H1: "heap_inv (R + {#h#}) H1" "rooted (R + {#h#}) H1 K_event h" "evolves {} H H1"
    show "changes (R + {#h#}) {h} H1
        (case reason of Some r \<Rightarrow> set_slot h 0 (V_ref r) H1 | None \<Rightarrow> renew_slot h 0 new_string H1)"
    proof (cases reason)
      case None
      then show ?thesis using renew_slot_changes [OF H1(1,2), of 0 K_string]
        by (simp add: new_string_def)
    next
      case (Some s)
      then have "rooted (R + {#h#}) H1 K_string s"
        using rooted_later [OF _ inv H1(3,1)] assms(2) by auto
      then show ?thesis using set_slot_changes [OF H1(1,2), of 0 "V_ref s"] Some by simp
    qed
  qed
  then show ?thesis by (simp only: event_create_from_native_rc_def new Let_def prod.case)
qed

text \<open>A producer run while a local variable holds one more reference, which is then dropped.\<close>

lemma produces_dropping:
  assumes p: "produces (R + handles [w]) ks M H r"
  shows "produces R ks M H (r \<bind> (\<lambda>(v, H). zval_ptr_dtor w H \<bind> (\<lambda>H. Some (v, H))))"
proof -
  obtain v H1 where H1: "r = Some (v, H1)" "heap_inv (R + handles [w] + handles [v]) H1"
    "evolves M H H1" "value_ok H1 v ks" using p by (rule producesE)
  have "heap_inv (R + handles [v] + handles [w]) H1" using H1(2) by (simp only: ac_simps)
  then obtain H2 where H2: "zval_ptr_dtor w H1 = Some H2" "heap_inv (R + handles [v]) H2" "evolves {} H1 H2"
    using dtor_changes changesE by metis
  have live: "h < zh_next H1" if "v = V_ref h" for h
    using that by (intro rooted_live [OF H1(2)]) simp
  then have "value_ok H2 v ks"
    using value_ok_evolves [OF H2(3,2) H1(4)] by (cases v) auto
  then show ?thesis using H1(1) H2(1,2) evolves_trans [OF H1(3) H2(3)] by (simp add: produces_def)
qed

lemma produces_mono: "produces R ks M H r \<Longrightarrow> ks \<subseteq> ls \<Longrightarrow> produces R ls M H r"
  by (fastforce simp: produces_def value_ok_def split: zval.splits)

lemma event_make_produces:
  assumes inv: "heap_inv R H"
  shows "produces R {K_event} {} H (event_make_rc has_reason H)"
proof (cases has_reason)
  case True
  obtain s H1 where s: "new_string H = (s, H1)" by (cases "new_string H")
  note H1 = new_string_rooted [OF inv s]
  have "produces (R + handles [V_ref s]) {K_event} {} H1 (event_create_from_native_rc (Some s) H1)"
    using event_create_produces [OF H1(1), of "Some s"] H1(4) by simp
  then have "produces (R + handles [V_ref s]) {K_event} {} H (event_create_from_native_rc (Some s) H1)"
    using H1(2) by (rule produces_from) simp
  from produces_dropping [OF this] show ?thesis using True s by (simp add: event_make_rc_def)
next
  case False
  then show ?thesis using event_create_produces [OF inv, of None] by (simp add: event_make_rc_def)
qed

subsection \<open>Copying a field of another object\<close>

lemma kind_slot:
  assumes "heap_inv R H" and "kind_of H c = Some k" and "k \<noteq> K_array" and "i < length (slot_kinds k)"
  obtains ob where "obj_of H c = Some ob" and "read_slot c i H = Some (zo_slots ob ! i)"
    and "value_ok H (zo_slots ob ! i) (slot_kinds k ! i)" and "zo_slots ob ! i \<in> set (zo_slots ob)"
proof -
  obtain ob where ob: "obj_of H c = Some ob" "zo_kind ob = k" using assms(2) by (auto simp: kind_of_def)
  then have "obj_ok H ob" using assms(1) by (auto simp: heap_inv_def heap_ok_def)
  then have "list_all2 (value_ok H) (zo_slots ob) (slot_kinds k)"
    using ob(2) assms(3) by (simp add: obj_ok_def)
  then have i: "i < length (zo_slots ob)" and v: "value_ok H (zo_slots ob ! i) (slot_kinds k ! i)"
    using assms(4) by (simp_all add: list_all2_conv_all_nth)
  have "read_slot c i H = Some (zo_slots ob ! i)" using ob(1) by (simp add: read_slot_def)
  then show thesis using that ob(1) v nth_mem [OF i] by blast
qed

lemma tabled_held:
  assumes "heap_inv R H" and t: "tabled R H c" and c: "obj_of H c = Some ob" and v: "v \<in> set (zo_slots ob)"
    and "kind_of H h \<noteq> Some K_connection" and "kind_of H h \<noteq> Some K_server_endpoint"
  shows "held R h H v"
  unfolding held_def
proof (intro allI impI disjI2)
  fix j assume j: "v = V_ref j"
  have "c \<in># R + heap_refs H"
    using t heap_refs_member [of H] unfolding tabled_def by fastforce
  moreover have "c \<noteq> h" using assms(5) t by (auto simp: tabled_def)
  moreover have "j \<in># handles (ob_values ob)" using v j by (simp add: in_handles ob_values_def)
  moreover have "e \<noteq> h" if "obj_of H e = Some oe" "zo_kind oe = K_server_endpoint" for e oe
    using that assms(6) by (auto simp: kind_of_def)
  then have "c \<in># R \<or> (\<exists>e oe. e \<in># R \<and> e \<noteq> h \<and> obj_of H e = Some oe \<and> c \<in># handles (ob_values oe))"
    using t unfolding tabled_def by blast
  ultimately show "\<exists>g ob. g \<in># R + heap_refs H \<and> g \<noteq> h \<and> obj_of H g = Some ob \<and> j \<in># handles (ob_values ob) \<and>
      (g \<in># R \<or> (\<exists>e oe. e \<in># R \<and> e \<noteq> h \<and> obj_of H e = Some oe \<and> g \<in># handles (ob_values oe)))"
    using c by blast
qed

lemma set_slot_borrowed:
  assumes inv: "heap_inv R H" and root: "rooted R H k h" and k: "k \<notin> {K_array, K_server_endpoint}"
    and i: "i < length (slot_kinds k)" and v: "value_ok H v (slot_kinds k ! i)" and "held R h H v"
  shows "changes R {h} H (set_slot h i v H)"
proof -
  have "has_slot H h i (slot_kinds k ! i)" using root k i by (auto simp: has_slot_def rooted_def)
  then show ?thesis using set_slot_inv [OF inv _ _ v assms(6)] root by (auto simp: rooted_def changes_def)
qed

text \<open>A field of a root, read earlier, is still held by it.\<close>

lemma root_held:
  assumes "c \<in># R" and "obj_of H c = Some ob" and "v \<in> set (zo_slots ob)" and "c \<noteq> h"
  shows "held R h H v"
  unfolding held_def
proof (intro allI impI disjI2)
  fix j assume "v = V_ref j"
  then have "j \<in># handles (ob_values ob)" using assms(3) by (simp add: in_handles ob_values_def)
  then show "\<exists>g ob. g \<in># R + heap_refs H \<and> g \<noteq> h \<and> obj_of H g = Some ob \<and> j \<in># handles (ob_values ob) \<and>
      (g \<in># R \<or> (\<exists>e oe. e \<in># R \<and> e \<noteq> h \<and> obj_of H e = Some oe \<and> g \<in># handles (ob_values oe)))"
    using assms(1,2,4) by auto
qed

lemma Connection_construct_changes:
  assumes inv: "heap_inv R H" and root: "rooted R H K_connection this" and "rooted R H K_address remote"
    and config: "\<forall>c. config = Some c \<longrightarrow> rooted R H K_client_config c"
  shows "changes R {this} H (Connection_construct_rc this remote config H)"
proof -
  have remote: "changes R {this} H (set_slot this 0 (V_ref remote) H)"
    using assms by (intro set_slot_changes) auto
  have tail: "changes R {this} H (set_slot this 0 (V_ref remote) H \<bind> set_slot this 1 v)"
    if v: "\<And>H1. heap_inv R H1 \<Longrightarrow> evolves {this} H H1 \<Longrightarrow> value_ok H1 v {K_address} \<and> held R this H1 v" for v
    using remote
  proof (rule changes_bind)
    fix H1 assume H1: "heap_inv R H1" "evolves {this} H H1"
    show "changes R {this} H1 (set_slot this 1 v H1)"
      using rooted_later [OF root inv H1(2,1)] v [OF H1] by (intro set_slot_borrowed [OF H1(1)]) auto
  qed simp
  have nul: "changes R {this} H (set_slot this 0 (V_ref remote) H \<bind> set_slot this 1 V_null)"
    by (rule tail) (simp add: value_ok_def held_simps)
  show ?thesis
  proof (cases config)
    case None
    then show ?thesis using nul by (simp add: Connection_construct_rc_def)
  next
    case (Some c)
    then have c: "c \<in># R" "kind_of H c = Some K_client_config" using config by (auto simp: rooted_def)
    obtain ob where ob: "obj_of H c = Some ob" "read_slot c 0 H = Some (zo_slots ob ! 0)"
      "value_ok H (zo_slots ob ! 0) (slot_kinds K_client_config ! 0)" "zo_slots ob ! 0 \<in> set (zo_slots ob)"
      using kind_slot [OF inv c(2), of 0] by auto
    have "changes R {this} H (set_slot this 0 (V_ref remote) H \<bind> set_slot this 1 (zo_slots ob ! 0))"
    proof (rule tail)
      fix H1 assume H1: "heap_inv R H1" "evolves {this} H H1"
      have ne: "c \<noteq> this" using c(2) root by (auto simp: rooted_def)
      have c1: "rooted R H1 K_client_config c"
        by (rule rooted_later [OF _ inv H1(2,1)]) (use c in \<open>auto simp: rooted_def\<close>)
      have o1: "obj_of H1 c = Some ob"
        using evolves_obj [OF H1(2,1)] c(1) ne ob(1) rooted_live [OF inv c(1)] by simp
      have "held R this H1 (zo_slots ob ! 0)" using root_held [OF c(1) o1 ob(4) ne] .
      moreover have "value_ok H1 (zo_slots ob ! 0) {K_address}"
        using kind_slot [OF H1(1), of c K_client_config 0] c1 o1 by (auto simp: rooted_def)
      ultimately show "value_ok H1 (zo_slots ob ! 0) {K_address} \<and> held R this H1 (zo_slots ob ! 0)" by simp
    qed
    then show ?thesis
      using Some nul ob(2) by (cases "zo_slots ob ! 0") (simp_all add: Connection_construct_rc_def as_object_def)
  qed
qed

lemma Connection_close_changes:
  "heap_inv R H \<Longrightarrow> rooted R H K_connection this \<Longrightarrow>
     \<forall>r. reason = Some r \<longrightarrow> rooted R H K_string r \<Longrightarrow>
     changes R {this} H (Connection_close_rc this reason H)"
  using set_slot_changes [of R H K_connection this 2 "or_undef reason"]
  by (simp add: Connection_close_rc_def)

text \<open>A value that a root other than the object under construction holds in a field.\<close>

definition lent :: "zhandle multiset \<Rightarrow> zhandle \<Rightarrow> zheap \<Rightarrow> zkind set \<Rightarrow> zval \<Rightarrow> bool" where
  "lent R c H ks v \<longleftrightarrow> c \<in># R \<and> (\<exists>ob. obj_of H c = Some ob \<and> v \<in> set (zo_slots ob)) \<and> value_ok H v ks"

lemma lent_live:
  assumes "lent R c H ks v"
  shows "set_mset (handles [v]) \<subseteq> set_mset (R + heap_refs H)"
proof (cases v)
  case (V_ref j)
  then obtain ob where "obj_of H c = Some ob" "j \<in># handles (ob_values ob)"
    using assms by (auto simp: lent_def in_handles ob_values_def)
  then show ?thesis using V_ref heap_refs_member [of H] by simp
qed simp_all

lemma lent_later:
  assumes v: "lent R c H ks v" and inv: "heap_inv R0 H" and ev: "evolves M H H'" and inv': "heap_inv R' H'"
    and "set_mset R \<subseteq> set_mset R'" and "c \<notin> M"
  shows "lent R' c H' ks v"
proof -
  obtain ob where ob: "obj_of H c = Some ob" "v \<in> set (zo_slots ob)" using v by (auto simp: lent_def)
  have c: "c \<in># R'" using v assms(5) by (auto simp: lent_def)
  then have ob': "obj_of H' c = Some ob"
    using evolves_obj [OF ev inv'] obj_below_next [OF inv ob(1)] ob(1) assms(6) by simp
  have "value_ok H' v ks"
  proof (cases v)
    case (V_ref j)
    then have m: "j \<in># handles (ob_values ob)" using ob(2) by (simp add: in_handles ob_values_def)
    have "j \<in># R' + heap_refs H'" using heap_refs_member [OF ob' m] by simp
    moreover have "j < zh_next H"
      using heap_refs_member [OF ob(1) m] held_below [OF inv, of j] by simp
    moreover have "value_ok H v ks" using v by (simp add: lent_def)
    ultimately show ?thesis using value_ok_evolves [OF ev inv'] V_ref by simp
  qed (simp_all add: value_ok_def)
  then show ?thesis using c ob' ob(2) by (auto simp: lent_def)
qed

lemma read_lent:
  assumes "heap_inv R H" and "rooted R H k c" and "k \<noteq> K_array" and "i < length (slot_kinds k)"
  obtains v where "read_slot c i H = Some v" and "lent R c H (slot_kinds k ! i) v"
proof -
  have "kind_of H c = Some k" using assms(2) by (simp add: rooted_def)
  then obtain ob where "obj_of H c = Some ob" "read_slot c i H = Some (zo_slots ob ! i)"
    "value_ok H (zo_slots ob ! i) (slot_kinds k ! i)" "zo_slots ob ! i \<in> set (zo_slots ob)"
    by (rule kind_slot [OF assms(1) _ assms(3,4)])
  then show thesis using assms(2) by (intro that) (auto simp: lent_def rooted_def)
qed

lemma stream_create_produces:
  assumes inv: "heap_inv R H" and c: "rooted R H K_connection c"
  shows "produces R {K_stream} {} H (php_quic_stream_create_rc c H)"
proof -
  obtain h H1 where new: "create_object K_stream H = (h, H1)" by (cases "create_object K_stream H")
  obtain ob where ob: "obj_of H1 h = Some ob" "fresh_slots K_stream (zo_slots ob)"
    using create_object_rooted(5) [OF inv new] by blast
  have "produces R {K_stream} {} H (copy_slot h 0 (V_ref c) H1 \<bind> (\<lambda>H. Some (V_ref h, H)))"
  proof (rule make_object [OF inv new])
    assume H1: "heap_inv (R + {#h#}) H1" "rooted (R + {#h#}) H1 K_stream h" "evolves {} H H1"
    have "rooted (R + {#h#}) H1 K_connection c" using rooted_later [OF c inv H1(3,1)] by auto
    then have "value_ok H1 (V_ref c) {K_connection}"
      and "set_mset (handles [V_ref c]) \<subseteq> set_mset (R + {#h#} + heap_refs H1)"
      by (auto simp: value_ok_def rooted_def)
    moreover have "has_slot H1 h 0 {K_connection}" using H1(2) by (simp add: has_slot_def rooted_def)
    ultimately show "changes (R + {#h#}) {h} H1 (copy_slot h 0 (V_ref c) H1)"
      using copy_slot_inv [OF H1(1) _ _ _ ob(1)] ob(2) unfolding changes_def fresh_slots_def by fastforce
  qed
  then show ?thesis by (simp only: php_quic_stream_create_rc_def new Let_def prod.case)
qed

text \<open>Copying a lent value into an empty field.\<close>

lemma copy_slot_lent:
  assumes inv: "heap_inv R H" and root: "rooted R H k h" and k: "k \<notin> {K_array, K_server_endpoint}"
    and i: "i < length (slot_kinds k)" and v: "lent R c H (slot_kinds k ! i) v"
    and ob: "obj_of H h = Some ob" "zo_slots ob ! i = V_undef"
  obtains H' where "copy_slot h i v H = Some H'" and "heap_inv R H'" and "evolves {h} H H'"
    and "obj_of H' h = Some (ob\<lparr>zo_slots := (zo_slots ob)[i := v]\<rparr>)"
proof -
  have "has_slot H h i (slot_kinds k ! i)" using root k i by (auto simp: has_slot_def rooted_def)
  moreover have "value_ok H v (slot_kinds k ! i)" using v by (simp add: lent_def)
  ultimately show thesis using copy_slot_inv [OF inv _ _ lent_live [OF v] ob] that by blast
qed

subsection \<open>Datagrams and arrays\<close>

lemma set_slot_from_changes:
  assumes inv: "heap_inv R H" and d: "rooted R H K_datagram d" and c: "tabled R H c"
    and i: "i < length (slot_kinds K_datagram)" and j: "j < length (slot_kinds K_connection)"
    and same: "slot_kinds K_datagram ! i = slot_kinds K_connection ! j"
  shows "changes R {d} H (set_slot_from d i c j H)"
proof -
  have k: "kind_of H c = Some K_connection" using c by (simp add: tabled_def)
  obtain ob where ob: "obj_of H c = Some ob" "read_slot c j H = Some (zo_slots ob ! j)"
    "value_ok H (zo_slots ob ! j) (slot_kinds K_connection ! j)" "zo_slots ob ! j \<in> set (zo_slots ob)"
    by (rule kind_slot [OF inv k _ j]) simp
  have "held R d H (zo_slots ob ! j)"
    using d by (intro tabled_held [OF inv c ob(1,4)]) (simp_all add: rooted_def)
  then have "changes R {d} H (set_slot d i (zo_slots ob ! j) H)"
    using ob(3) i same by (intro set_slot_borrowed [OF inv d]) simp_all
  then show ?thesis using ob(2) by (simp add: set_slot_from_def)
qed

lemma datagram_fill_changes:
  assumes inv: "heap_inv R H" and d: "rooted R H K_datagram d" and c: "tabled R H c"
  shows "changes R {d} H (datagram_fill_rc d c H)"
  unfolding datagram_fill_rc_def
proof (rule changes_bind)
  show "changes R {d} H (renew_slot d 0 new_string H)"
    using renew_slot_changes [OF inv d, of 0 K_string] by (simp add: new_string_def)
next
  fix H1 assume H1: "heap_inv R H1" "evolves {d} H H1"
  have d1: "rooted R H1 K_datagram d" using rooted_later [OF d inv H1(2,1)] by simp
  have c1: "tabled R H1 c" using tabled_later [OF c inv H1(2,1)] d by (simp add: rooted_def)
  show "changes R {d} H1 (set_slot_from d 1 c 0 H1 \<bind> set_slot_from d 2 c 1)"
  proof (rule changes_bind)
    show "changes R {d} H1 (set_slot_from d 1 c 0 H1)"
      by (rule set_slot_from_changes [OF H1(1) d1 c1]) simp_all
  next
    fix H2 assume H2: "heap_inv R H2" "evolves {d} H1 H2"
    have d2: "rooted R H2 K_datagram d" using rooted_later [OF d1 H1(1) H2(2,1)] by simp
    have c2: "tabled R H2 c" using tabled_later [OF c1 H1(1) H2(2,1)] d1 by (simp add: rooted_def)
    show "changes R {d} H2 (set_slot_from d 2 c 1 H2)"
      by (rule set_slot_from_changes [OF H2(1) d2 c2]) simp_all
  qed simp
qed simp

lemma datagram_make_produces:
  assumes inv: "heap_inv R H" and c: "tabled R H c"
  shows "produces R {K_datagram} {} H (datagram_make_rc c H)"
proof -
  obtain h H1 where new: "create_object K_datagram H = (h, H1)" by (cases "create_object K_datagram H")
  have "produces R {K_datagram} {} H (datagram_fill_rc h c H1 \<bind> (\<lambda>H. Some (V_ref h, H)))"
  proof (rule make_object [OF inv new])
    assume H1: "heap_inv (R + {#h#}) H1" "rooted (R + {#h#}) H1 K_datagram h" "evolves {} H H1"
    have "tabled (R + {#h#}) H1 c" using tabled_later [OF c inv H1(3,1)] by auto
    then show "changes (R + {#h#}) {h} H1 (datagram_fill_rc h c H1)"
      by (rule datagram_fill_changes [OF H1(1,2)])
  qed
  then show ?thesis by (simp only: datagram_make_rc_def new Let_def prod.case)
qed

lemma add_next_changes:
  assumes inv: "heap_inv (R + handles [v]) H" and a: "kind_of H a = Some K_array" and v: "value_ok H v element_kinds"
  shows "changes R {a} H (add_next_index_zval a v H)"
proof -
  obtain rc ob where c: "cell H a = Some (rc, ob)" "zo_kind ob = K_array"
    using a by (auto simp: kind_of_def obj_of_def)
  let ?ob = "ob\<lparr>zo_slots := zo_slots ob @ [v]\<rparr>"
  have "obj_ok H ob" using inv c by (auto simp: heap_inv_def heap_ok_def obj_of_def)
  then have "obj_ok H ?ob" using v c(2) by (simp add: obj_ok_def)
  moreover have "R + handles (ob_values ?ob) = R + handles [v] + handles (ob_values ob)"
    using handles_Cons [of v "List.map snd (zo_table ob)"] by (simp add: ob_values_def ac_simps)
  ultimately have "heap_inv R (set_cell a (rc, ?ob) H)"
    by (intro inv_set_obj [OF inv c(1)]) simp_all
  then show ?thesis using set_cell_evolves [OF c(1)] c
    by (simp add: changes_def add_next_index_zval_def modify_obj_def)
qed

text \<open>A call that makes a value, at any later time at which only the array \<open>a\<close> has changed.\<close>

definition calm ::
  "zkind set \<Rightarrow> zhandle multiset \<Rightarrow> zheap \<Rightarrow> zhandle \<Rightarrow> (zheap \<Rightarrow> (zval \<times> zheap) option) \<Rightarrow> bool" where
  "calm ks R H a mk \<longleftrightarrow> (\<forall>R' H'. heap_inv R' H' \<longrightarrow> set_mset R \<subseteq> set_mset R' \<longrightarrow> evolves {a} H H' \<longrightarrow>
     produces R' ks {} H' (mk H'))"

lemma calm_later: "calm ks R H a mk \<Longrightarrow> evolves {a} H H1 \<Longrightarrow> set_mset R \<subseteq> set_mset R1 \<Longrightarrow> calm ks R1 H1 a mk"
  using evolves_trans [of "{a}" H H1 "{a}"] unfolding calm_def by blast

lemma calm_now: "calm ks R H a mk \<Longrightarrow> heap_inv R H \<Longrightarrow> produces R ks {} H (mk H)"
  using evolves_refl unfolding calm_def by blast

lemma fill_array_changes:
  assumes "heap_inv R H" and "rooted R H K_array a" and "\<forall>mk \<in> set mks. calm element_kinds R H a mk"
  shows "changes R {a} H (fill_array mks a H)"
  using assms
proof (induction mks arbitrary: H)
  case Nil
  then show ?case by (simp add: changesI evolves_refl)
next
  case (Cons mk mks)
  obtain v H1 where H1: "mk H = Some (v, H1)" "heap_inv (R + handles [v]) H1" "evolves {} H H1"
    "value_ok H1 v element_kinds"
    using calm_now Cons.prems(1,3) producesE by (metis list.set_intros(1))
  have "kind_of H1 a = Some K_array"
    using rooted_later [OF Cons.prems(2,1) H1(3,2)] by (simp add: rooted_def)
  then have "changes R {a} H1 (add_next_index_zval a v H1)" by (rule add_next_changes [OF H1(2) _ H1(4)])
  then have "changes R {a} H (add_next_index_zval a v H1)"
    by (rule changes_from [OF _ evolves_mono [OF H1(3)]]) simp_all
  then have "changes R {a} H (add_next_index_zval a v H1 \<bind> fill_array mks a)"
  proof (rule changes_bind)
    fix H2 assume H2: "heap_inv R H2" "evolves {a} H H2"
    show "changes R {a} H2 (fill_array mks a H2)"
      using rooted_later [OF Cons.prems(2,1) H2(2,1)] calm_later [OF _ H2(2), of element_kinds R]
        Cons.prems(3) by (intro Cons.IH [OF H2(1)]) auto
  qed simp
  then show ?case using H1(1) by simp
qed

lemma array_method_produces:
  assumes inv: "heap_inv R H" and calm: "\<And>a H1. heap_inv (R + {#a#}) H1 \<Longrightarrow> rooted (R + {#a#}) H1 K_array a \<Longrightarrow>
      evolves {} H H1 \<Longrightarrow> \<forall>mk \<in> set mks. calm element_kinds (R + {#a#}) H1 a mk"
  shows "produces R {K_array} {} H
     (let (array, H) = array_init H in do { H \<leftarrow> fill_array mks array H; Some (V_ref array, H) })"
proof -
  obtain a H1 where new: "array_init H = (a, H1)" by (cases "array_init H")
  then have co: "create_object K_array H = (a, H1)" by simp
  have "produces R {K_array} {} H (fill_array mks a H1 \<bind> (\<lambda>H. Some (V_ref a, H)))"
    using fill_array_changes calm by (intro make_object [OF inv co]) blast
  then show ?thesis by (simp only: new Let_def prod.case)
qed

lemma element_kinds_simps: "{K_datagram} \<subseteq> element_kinds" "{K_event} \<subseteq> element_kinds"
    "{K_connection} \<subseteq> element_kinds"
  by (auto simp: element_kinds_def)

lemma Connection_drainOutgoingDatagrams_produces:
  assumes inv: "heap_inv R H" and c: "tabled R H c"
  shows "produces R {K_array} {} H (Connection_drainOutgoingDatagrams_rc c n H)"
  unfolding Connection_drainOutgoingDatagrams_rc_def
proof (rule array_method_produces [OF inv])
  fix a H1 assume H1: "heap_inv (R + {#a#}) H1" "rooted (R + {#a#}) H1 K_array a" "evolves {} H H1"
  have c1: "tabled (R + {#a#}) H1 c" using tabled_later [OF c inv H1(3,1)] by auto
  have "calm element_kinds (R + {#a#}) H1 a (datagram_make_rc c)"
    unfolding calm_def
  proof (intro allI impI)
    fix R' H' assume H': "heap_inv R' H'" "set_mset (R + {#a#}) \<subseteq> set_mset R'" "evolves {a} H1 H'"
    have "tabled R' H' c"
      using tabled_later [OF c1 H1(1) H'(3,1,2)] H1(2) by (simp add: rooted_def)
    from datagram_make_produces [OF H'(1) this] show "produces R' element_kinds {} H' (datagram_make_rc c H')"
      by (rule produces_mono) (rule element_kinds_simps)
  qed
  then show "\<forall>mk \<in> set (replicate n (datagram_make_rc c)). calm element_kinds (R + {#a#}) H1 a mk" by simp
qed

lemma Connection_drainEvents_produces:
  assumes inv: "heap_inv R H"
  shows "produces R {K_array} {} H (Connection_drainEvents_rc reasons H)"
  unfolding Connection_drainEvents_rc_def
proof (rule array_method_produces [OF inv])
  fix a H1
  show "\<forall>mk \<in> set (List.map event_make_rc reasons). calm element_kinds (R + {#a#}) H1 a mk"
    using produces_mono [OF event_make_produces element_kinds_simps(2)] by (auto simp: calm_def)
qed

subsection \<open>Accepting a connection\<close>

lemma accept_addresses_changes:
  assumes inv: "heap_inv R H" and s: "rooted R H K_connection s" and i: "rooted R H K_datagram i"
    and eff: "\<forall>v. effective = Some v \<longrightarrow> lent R c H {K_address} v \<and> c \<noteq> s"
    and ob: "obj_of H s = Some ob" "zo_slots ob = [V_undef, V_undef, V_undef]"
  shows "changes R {s} H (accept_addresses_rc s i effective H)"
proof -
  have ne: "i \<noteq> s" using s i by (auto simp: rooted_def)
  obtain remote where remote: "read_slot i 1 H = Some remote" "lent R i H {K_address} remote"
    using read_lent [OF inv i, of 1] by auto
  have lr: "lent R i H (slot_kinds K_connection ! 0) remote" using remote(2) by simp
  obtain H1 where H1: "copy_slot s 0 remote H = Some H1" "heap_inv R H1" "evolves {s} H H1"
    and o1: "obj_of H1 s = Some (ob\<lparr>zo_slots := (zo_slots ob)[0 := remote]\<rparr>)"
    by (rule copy_slot_lent [OF inv s _ _ lr ob(1)]) (simp_all add: ob(2))
  have s1: "rooted R H1 K_connection s" and i1: "rooted R H1 K_datagram i"
    using rooted_later [OF _ inv H1(3,2)] s i by blast+
  let ?ob = "ob\<lparr>zo_slots := (zo_slots ob)[0 := remote]\<rparr>"
  have copy: "changes R {s} H1 (copy_slot s 1 v H1)" if "lent R d H1 {K_address} v" for v d
  proof -
    have lv: "lent R d H1 (slot_kinds K_connection ! 1) v" using that by simp
    show ?thesis
      by (rule copy_slot_lent [OF H1(2) s1 _ _ lv o1]) (auto simp: ob(2) changes_def)
  qed
  obtain own where own: "read_slot i 2 H1 = Some own" "lent R i H1 {K_address} own"
    using read_lent [OF H1(2) i1, of 2] by auto
  have new: "changes R {s} H1 (address_init_from_sockaddr_rc H1 \<bind> (\<lambda>(address, H). write_slot s 1 address H))"
  proof -
    obtain v H2 where H2: "address_init_from_sockaddr_rc H1 = Some (v, H2)" "heap_inv (R + handles [v]) H2"
      "evolves {} H1 H2" "value_ok H2 v {K_address}"
      using address_init_from_sockaddr_produces [OF H1(2)] by (rule producesE)
    have s2: "rooted R H2 K_connection s"
      using rooted_later [OF s1 H1(2) H2(3,2)] s1 by (auto simp: rooted_def)
    then have "has_slot H2 s 1 {K_address}" by (simp add: has_slot_def rooted_def)
    moreover have "obj_of H2 s = Some ?ob"
      using evolves_obj [OF H2(3,2), of s] s1 o1 obj_below_next [OF H1(2) o1] by (simp add: rooted_def)
    ultimately obtain H3 where "write_slot s 1 v H2 = Some H3" "heap_inv R H3" "evolves {s} H2 H3"
      using store_slot_inv [OF H2(2) _ H2(4), of s 1] ob(2) by fastforce
    then show ?thesis using H2(1) evolves_trans [OF evolves_mono [OF H2(3)], of "{s}" "{s}" H3]
      by (simp add: changes_def)
  qed
  have "changes R {s} H1 (case effective of
        Some v \<Rightarrow> copy_slot s 1 v H1
      | None \<Rightarrow> (case as_object own of
             Some v \<Rightarrow> copy_slot s 1 v H1
           | None \<Rightarrow> do { (address, H) \<leftarrow> address_init_from_sockaddr_rc H1; write_slot s 1 address H }))"
  proof (cases effective)
    case None
    then show ?thesis using new copy own(2) by (cases own) (simp_all add: as_object_def)
  next
    case (Some v)
    then have "lent R c H1 {K_address} v" using lent_later [OF _ inv H1(3,2)] eff by blast
    then show ?thesis using copy Some by simp
  qed
  then have "changes R {s} H (case effective of
        Some v \<Rightarrow> copy_slot s 1 v H1
      | None \<Rightarrow> (case as_object own of
             Some v \<Rightarrow> copy_slot s 1 v H1
           | None \<Rightarrow> do { (address, H) \<leftarrow> address_init_from_sockaddr_rc H1; write_slot s 1 address H }))"
    using H1(3) by (rule changes_from) simp
  then show ?thesis using remote(1) H1(1) own(1) by (simp add: accept_addresses_rc_def)
qed

lemma accept_connection_produces:
  assumes inv: "heap_inv R H" and i: "rooted R H K_datagram i"
    and eff: "\<forall>v. effective = Some v \<longrightarrow> lent R c H {K_address} v"
  shows "produces R {K_connection} {} H (accept_connection_rc i effective H)"
proof -
  obtain h H1 where new: "create_object K_connection H = (h, H1)" by (cases "create_object K_connection H")
  obtain ob where ob: "obj_of H1 h = Some ob" "fresh_slots K_connection (zo_slots ob)"
    using create_object_rooted(5) [OF inv new] by blast
  have "produces R {K_connection} {} H (accept_addresses_rc h i effective H1 \<bind> (\<lambda>H. Some (V_ref h, H)))"
  proof (rule make_object [OF inv new])
    assume H1: "heap_inv (R + {#h#}) H1" "rooted (R + {#h#}) H1 K_connection h" "evolves {} H H1" "zh_next H \<le> h"
    have "rooted (R + {#h#}) H1 K_datagram i" using rooted_later [OF i inv H1(3,1)] by auto
    moreover have "lent (R + {#h#}) c H1 {K_address} v \<and> c \<noteq> h" if "effective = Some v" for v
    proof -
      have "c \<in># R" using eff that by (simp add: lent_def)
      then have "c \<noteq> h" using rooted_live [OF inv] H1(4) by fastforce
      then show ?thesis using lent_later [OF _ inv H1(3,1)] eff that by auto
    qed
    ultimately show "changes (R + {#h#}) {h} H1 (accept_addresses_rc h i effective H1)"
      using ob by (intro accept_addresses_changes [OF H1(1,2)]) (auto simp: fresh_slots_def)
  qed
  then show ?thesis by (simp only: accept_connection_rc_def new Let_def prod.case)
qed

lemma addref_lent:
  assumes "heap_inv R H" and "lent R c H ks v"
  obtains H' where "addref v H = Some H'" and "heap_inv (R + handles [v]) H'" and "evolves {} H H'"
proof -
  obtain H' where "addref v H = Some H'" "heap_inv (R + handles [v]) H'" "zh_next H' = zh_next H"
    "obj_of H' = obj_of H" using inv_addref [OF assms(1) lent_live [OF assms(2)]] by blast
  moreover from this have "evolves {} H H'" by (auto simp: evolves_def)
  ultimately show thesis using that by blast
qed

lemma accept_alpn_produces:
  assumes inv: "heap_inv R H" and c: "rooted R H K_server_config c"
  shows "produces R {K_string} {} H (accept_alpn_rc c H)"
proof -
  obtain v where v: "read_slot c 3 H = Some v" "lent R c H {K_string} v"
    using read_lent [OF inv c, of 3] by auto
  show ?thesis
  proof (cases "as_object v")
    case None
    obtain s H1 where s: "new_string H = (s, H1)" by (cases "new_string H")
    then show ?thesis using new_string_rooted [OF inv s] None v(1)
      by (simp add: accept_alpn_rc_def produces_def value_ok_def rooted_def)
  next
    case (Some w)
    then have w: "w = v" by (auto simp: as_object_def split: zval.splits)
    obtain H1 where H1: "addref v H = Some H1" "heap_inv (R + handles [v]) H1" "evolves {} H H1"
      using addref_lent [OF inv v(2)] .
    have "lent (R + handles [v]) c H1 {K_string} v" using lent_later [OF v(2) inv H1(3,2)] by simp
    then show ?thesis using Some w v(1) H1
      by (simp add: accept_alpn_rc_def return_copy_def produces_def lent_def)
  qed
qed

lemma lent_as_object: "lent R c H ks v \<Longrightarrow> as_object v = Some w \<Longrightarrow> lent R c H ks w"
  by (cases v) (simp_all add: as_object_def)

definition result_handles :: "zval option \<Rightarrow> zhandle multiset" where
  "result_handles r = (case r of None \<Rightarrow> {#} | Some v \<Rightarrow> handles [v])"

text \<open>\<open>L\<close> are the references that are lost.\<close>

definition accepts :: "zhandle multiset \<Rightarrow> zheap \<Rightarrow> bool \<Rightarrow> (zval option \<times> zheap) option \<Rightarrow> bool" where
  "accepts R H loses r \<longleftrightarrow> (\<exists>v H' L. r = Some (v, H') \<and> heap_inv (R + result_handles v + L) H' \<and>
     evolves {} H H' \<and> (\<forall>w. v = Some w \<longrightarrow> value_ok H' w {K_connection}) \<and> (loses \<or> L = {#}))"

lemma accepts_none:
  "heap_inv (R + L) H1 \<Longrightarrow> evolves {} H H1 \<Longrightarrow> loses \<or> L = {#} \<Longrightarrow> accepts R H loses (Some (None, H1))"
  by (auto simp: accepts_def result_handles_def)

lemma accepts_from: "accepts R H1 l r \<Longrightarrow> evolves {} H H1 \<Longrightarrow> accepts R H l r"
  using evolves_trans [of "{}" H H1 "{}"] unfolding accepts_def by blast

lemma accept_finish:
  assumes inv: "heap_inv (R + handles ss) H" and i: "rooted (R + handles ss) H K_datagram i"
    and eff: "\<forall>v. effective = Some v \<longrightarrow> lent (R + handles ss) c H {K_address} v"
  shows "accepts R H False (do {
     (server, H) \<leftarrow> accept_connection_rc i effective H;
     H \<leftarrow> release ss H;
     (if ok then Some (Some server, H)
      else do { H \<leftarrow> zval_ptr_dtor server H; Some (None, H) }) })"
proof -
  obtain v H1 where H1: "accept_connection_rc i effective H = Some (v, H1)"
    "heap_inv (R + handles ss + handles [v]) H1" "evolves {} H H1" "value_ok H1 v {K_connection}"
    using accept_connection_produces [OF inv i eff] by (rule producesE)
  have below: "g < zh_next H1" if "v = V_ref g" for g
    using that by (intro rooted_live [OF H1(2)]) simp
  have "heap_inv (R + handles [v] + handles ss) H1" using H1(2) by (simp only: ac_simps)
  then obtain H2 where H2: "release ss H1 = Some H2" "heap_inv (R + handles [v]) H2" "evolves {} H1 H2"
    using release_inv shrinks_evolves by blast
  have e2: "evolves {} H H2" using evolves_trans [OF H1(3) H2(3)] by simp
  have v2: "value_ok H2 v {K_connection}"
    using value_ok_evolves [OF H2(3,2) H1(4)] below by (cases v) auto
  show ?thesis
  proof (cases ok)
    case True
    have "accepts R H False (Some (Some v, H2))"
      using H2(2) e2 v2 unfolding accepts_def result_handles_def by fastforce
    then show ?thesis using True H1(1) H2(1) by simp
  next
    case False
    obtain H3 where H3: "zval_ptr_dtor v H2 = Some H3" "heap_inv R H3" "evolves {} H2 H3"
      using dtor_changes [OF H2(2)] by (rule changesE)
    have "accepts R H False (Some (None, H3))"
      using accepts_none [of R "{#}" H3 H] H3(2) evolves_trans [OF e2 H3(3)] by simp
    then show ?thesis using False H1(1) H2(1) H3(1) by simp
  qed
qed

lemma accept_accepts:
  assumes inv: "heap_inv R H" and i: "rooted R H K_datagram i" and c: "rooted R H K_server_config c"
  shows "accepts R H (outcome = A_undecodable) (accept_rc i c outcome H)"
proof -
  obtain local where lcl: "read_slot c 0 H = Some local" "lent R c H {K_address} local"
    using read_lent [OF inv c, of 0] by auto
  obtain cert where cert: "read_slot c 1 H = Some cert" "lent R c H {K_string} cert"
    using read_lent [OF inv c, of 1] by auto
  obtain key where key: "read_slot c 2 H = Some key" "lent R c H {K_string} key"
    using read_lent [OF inv c, of 2] by auto
  show ?thesis
  proof (cases "as_object cert = None \<or> as_object key = None")
    case True
    then show ?thesis using lcl(1) cert(1) key(1) accepts_none [of R "{#}" H H] inv evolves_refl
      by (simp add: accept_rc_def)
  next
    case False
    obtain H1 where H1: "addref cert H = Some H1" "heap_inv (R + handles [cert]) H1" "evolves {} H H1"
      using addref_lent [OF inv cert(2)] .
    have k1: "lent (R + handles [cert]) c H1 {K_string} key" using lent_later [OF key(2) inv H1(3,2)] by simp
    let ?R2 = "R + handles [cert] + handles [key]"
    obtain H2 where H2: "addref key H1 = Some H2" "heap_inv ?R2 H2" "evolves {} H1 H2"
      using addref_lent [OF H1(2) k1] .
    have e2: "evolves {} H H2" using evolves_trans [OF H1(3) H2(3)] by simp
    have "rooted ?R2 H2 K_server_config c" using rooted_later [OF c inv e2 H2(2)] by auto
    then obtain alpn H3 where H3: "accept_alpn_rc c H2 = Some (alpn, H3)" "heap_inv (?R2 + handles [alpn]) H3"
      "evolves {} H2 H3" using accept_alpn_produces [OF H2(2)] producesE by metis
    have e3: "evolves {} H H3" using evolves_trans [OF e2 H3(3)] by simp
    let ?L = "handles [cert, key, alpn]"
    have L: "?L = handles [cert] + handles [key] + handles [alpn]"
      using handles_Cons [of cert "[key, alpn]"] handles_Cons [of key "[alpn]"] by (simp add: ac_simps)
    have inv3: "heap_inv (R + ?L) H3" using H3(2) by (simp add: L ac_simps)
    note start = accept_rc_def lcl(1) cert(1) [unfolded One_nat_def] key(1) False H1(1) H2(1) H3(1)
    have early: "accepts R H (outcome = A_undecodable) (accept_rc i c outcome H)"
      if "outcome = A_undecodable" using accepts_none [OF inv3 e3] that by (simp add: start)
    have whole: "accepts R H (outcome = A_undecodable) (accept_rc i c outcome H)"
      if o: "outcome \<noteq> A_undecodable" "outcome \<noteq> A_bad_address"
    proof -
      have l3: "lent (R + ?L) c H3 {K_address} local" using lent_later [OF lcl(2) inv e3 inv3] by auto
      have i3: "rooted (R + ?L) H3 K_datagram i" using rooted_later [OF i inv e3 inv3] by auto
      have "accepts R H3 False (do {
          (server, H) \<leftarrow> accept_connection_rc i (as_object local) H3;
          H \<leftarrow> release [cert, key, alpn] H;
          (if outcome = A_accepted then Some (Some server, H)
           else do { H \<leftarrow> zval_ptr_dtor server H; Some (None, H) }) })"
        using lent_as_object [OF l3] by (intro accept_finish [OF inv3 i3]) blast
      then show ?thesis using accepts_from [OF _ e3] o by (simp add: start)
    qed
    have bad: "accepts R H (outcome = A_undecodable) (accept_rc i c outcome H)"
      if o: "outcome = A_bad_address"
    proof -
      obtain H4 where H4: "release [cert, key, alpn] H3 = Some H4" "heap_inv R H4" "evolves {} H3 H4"
        using release_inv [OF inv3] shrinks_evolves by blast
      have "evolves {} H H4" using evolves_trans [OF e3 H4(3)] by simp
      then show ?thesis using accepts_none [of R "{#}" H4 H] H4 o by (simp add: start)
    qed
    show ?thesis using early bad whole by blast
  qed
qed

end
