(* ===== verification/Quic_Lifetime_Endpoint.thy ===== *)
theory Quic_Lifetime_Endpoint
  imports Quic_Lifetime_Ops
begin

text \<open>
  The contracts of the endpoint's operations: its table and its queue hold one reference each to
  an accepted connection, the arrays that its drains merge hold one reference to each element.
\<close>

subsection \<open>The table\<close>

lemma changes_mono: "changes R M H r \<Longrightarrow> M \<subseteq> N \<Longrightarrow> changes R N H r"
  using evolves_mono by (fastforce simp: changes_def)

lemma hash_remove_handles:
  "map_of table key = Some v \<Longrightarrow>
     handles (List.map snd table) = handles [v] + handles (List.map snd (hash_remove key table))"
proof (induction table)
  case (Cons kv table)
  then show ?case using handles_Cons [of "snd kv" "List.map snd table"]
      handles_Cons [of "snd kv" "List.map snd (hash_remove key table)"]
    by (cases kv) (auto simp: ac_simps split: if_splits)
qed simp

lemma hash_remove_subset: "set (hash_remove key table) \<subseteq> set table"
  by (induction key table rule: hash_remove.induct) auto

lemma root_object:
  assumes "heap_inv R0 H" and "rooted R H k e"
  obtains rc ob where "cell H e = Some (rc, ob)" and "zo_kind ob = k" and "obj_ok H ob"
    and "obj_of H e = Some ob"
proof -
  obtain rc ob where c: "cell H e = Some (rc, ob)" "zo_kind ob = k"
    using assms(2) by (auto simp: rooted_def kind_of_def obj_of_def)
  moreover have "obj_of H e = Some ob" using c by (simp add: obj_of_def)
  moreover from this have "obj_ok H ob" using assms(1) by (auto simp: heap_inv_def heap_ok_def)
  ultimately show thesis using that by blast
qed

text \<open>Replacing the table of an endpoint.\<close>

lemma set_table:
  assumes inv: "heap_inv R H" and e: "rooted R0 H K_server_endpoint e" and o: "obj_of H e = Some ob"
    and t: "R' + handles (List.map snd table) = R + handles (List.map snd (zo_table ob))"
    and ok: "\<forall>v \<in> snd ` set table. value_ok H v {K_connection}"
  shows "changes R' {e} H (modify_obj e (\<lambda>ob. ob\<lparr>zo_table := table\<rparr>) H)"
proof -
  obtain rc where c: "cell H e = Some (rc, ob)" "zo_kind ob = K_server_endpoint" "obj_ok H ob"
    by (rule root_object [OF inv e]) (use o in auto)
  let ?ob = "ob\<lparr>zo_table := table\<rparr>"
  have "obj_ok H ?ob" using c(2,3) ok by (auto simp: obj_ok_def list_all_iff)
  moreover have "R' + handles (ob_values ?ob) = handles (zo_slots ob) + (R' + handles (List.map snd table))"
    by (simp add: ob_values_def)
  then have "R' + handles (ob_values ?ob) = R + handles (ob_values ob)"
    unfolding t by (simp add: ob_values_def)
  ultimately have "heap_inv R' (set_cell e (rc, ?ob) H)"
    by (intro inv_set_obj [OF inv c(1)]) simp_all
  then show ?thesis using set_cell_evolves [OF c(1), of ?ob rc] c
    by (simp add: changes_def modify_obj_def)
qed

lemma modify_obj_cong: "obj_of H e = Some ob \<Longrightarrow> f ob = g ob \<Longrightarrow> modify_obj e f H = modify_obj e g H"
  by (auto simp: modify_obj_def obj_of_def)

lemma table_values:
  assumes "obj_ok H ob" and "v \<in> snd ` set (zo_table ob)"
  shows "value_ok H v {K_connection}"
  using assms by (auto simp: obj_ok_def list_all_iff)

lemma hash_del_changes:
  assumes inv: "heap_inv R H" and e: "rooted R H K_server_endpoint e"
  shows "changes R {e} H (hash_del_rc e key H)"
proof -
  obtain rc ob where ob: "cell H e = Some (rc, ob)" "zo_kind ob = K_server_endpoint" "obj_ok H ob"
    "obj_of H e = Some ob" by (rule root_object [OF inv e])
  show ?thesis
  proof (cases "map_of (zo_table ob) key")
    case None
    then show ?thesis using ob(4) inv
      by (simp add: hash_del_rc_def read_table_def changesI evolves_refl)
  next
    case (Some v)
    have "changes (R + handles [v]) {e} H
        (modify_obj e (\<lambda>o'. o'\<lparr>zo_table := hash_remove key (zo_table ob)\<rparr>) H)"
      using hash_remove_handles [OF Some] hash_remove_subset [of key "zo_table ob"] table_values [OF ob(3)]
      by (intro set_table [OF inv e ob(4)]) (auto simp: ac_simps image_iff)
    then have "changes (R + handles [v]) {e} H
        (modify_obj e (\<lambda>ob. ob\<lparr>zo_table := hash_remove key (zo_table ob)\<rparr>) H)"
      using modify_obj_cong [OF ob(4)] by (metis (no_types, lifting))
    then have "changes R {e} H
        (modify_obj e (\<lambda>ob. ob\<lparr>zo_table := hash_remove key (zo_table ob)\<rparr>) H \<bind> zval_ptr_dtor v)"
      by (rule changes_bind) (auto intro: dtor_changes)
    then show ?thesis using Some ob(4) by (simp add: hash_del_rc_def read_table_def)
  qed
qed

lemma hash_add_changes:
  assumes inv: "heap_inv (R + handles [v]) H" and e: "rooted R H K_server_endpoint e"
    and v: "value_ok H v {K_connection}"
  shows "changes R {e} H (hash_add_rc e key v H)"
proof -
  obtain rc ob where ob: "cell H e = Some (rc, ob)" "zo_kind ob = K_server_endpoint" "obj_ok H ob"
    "obj_of H e = Some ob" by (rule root_object [OF inv e])
  have "changes R {e} H (modify_obj e (\<lambda>o'. o'\<lparr>zo_table := zo_table ob @ [(key, v)]\<rparr>) H)"
    using v table_values [OF ob(3)]
    by (intro set_table [OF inv e ob(4)]) (auto simp: ac_simps)
  then show ?thesis
    using modify_obj_cong [OF ob(4)] unfolding hash_add_rc_def by (metis (no_types, lifting))
qed

lemma cleanup_changes:
  assumes "heap_inv R H" and "rooted R H K_server_endpoint e"
  shows "changes R {e} H (cleanup_rc e keys H)"
  using assms
proof (induction keys arbitrary: H)
  case Nil
  then show ?case by (simp add: changesI evolves_refl)
next
  case (Cons key keys)
  have "changes R {e} H (hash_del_rc e key H \<bind> cleanup_rc e keys)"
    using hash_del_changes [OF Cons.prems]
  proof (rule changes_bind)
    fix H1 assume H1: "heap_inv R H1" "evolves {e} H H1"
    then show "changes R {e} H1 (cleanup_rc e keys H1)"
      using rooted_later [OF Cons.prems(2,1)] by (intro Cons.IH) auto
  qed simp
  then show ?case by simp
qed

lemma ServerEndpoint_construct_changes:
  assumes inv: "heap_inv R H" and e: "rooted R H K_server_endpoint e" and c: "rooted R H K_server_config c"
  shows "changes R {e} H (ServerEndpoint_construct_rc e c H)"
proof -
  have "has_slot H e 0 {K_server_config}" using e by (simp add: has_slot_def rooted_def)
  moreover have "value_ok H (V_ref c) {K_server_config}" using c by (simp add: value_ok_def rooted_def)
  moreover have "held R e H (V_ref c)" using c by (simp add: held_def rooted_def)
  ultimately show ?thesis using set_slot_inv [OF inv] e
    by (simp add: ServerEndpoint_construct_rc_def changes_def rooted_def)
qed

subsection \<open>Receiving\<close>

lemma addref_root:
  assumes "heap_inv R H" and "h \<in># R"
  obtains H1 where "addref (V_ref h) H = Some H1" and "heap_inv (R + {#h#}) H1" and "evolves {} H H1"
proof -
  have "set_mset (handles [V_ref h]) \<subseteq> set_mset (R + heap_refs H)" using assms(2) by simp
  from inv_addref [OF assms(1) this] show thesis using that by (auto simp: evolves_def)
qed

lemma route_changes:
  assumes inv: "heap_inv R H" and e: "rooted R H K_server_endpoint e" and d: "rooted R H K_datagram d"
  shows "changes R {e} H (endpoint_route_rc e d finished H)"
proof -
  have "d \<in># R" using d by (simp add: rooted_def)
  then obtain H1 where H1: "addref (V_ref d) H = Some H1" "heap_inv (R + {#d#}) H1" "evolves {} H H1"
    by (rule addref_root [OF inv])
  have "changes R {e} H1 (zval_ptr_dtor (V_ref d) H1 \<bind> cleanup_rc e finished)"
  proof (rule changes_bind)
    show "changes R {e} H1 (zval_ptr_dtor (V_ref d) H1)"
      using H1(2) by (intro changes_mono [OF dtor_changes]) simp_all
  next
    fix H2 assume H2: "heap_inv R H2" "evolves {e} H1 H2"
    have "evolves {e} H H2" using evolves_trans [OF evolves_mono [OF H1(3)] H2(2)] by simp
    then have "rooted R H2 K_server_endpoint e" using rooted_later [OF e inv _ H2(1)] by simp
    then show "changes R {e} H2 (cleanup_rc e finished H2)" by (rule cleanup_changes [OF H2(1)])
  qed simp
  then have "changes R {e} H (zval_ptr_dtor (V_ref d) H1 \<bind> cleanup_rc e finished)"
    by (rule changes_from [OF _ evolves_mono [OF H1(3)]]) simp_all
  then show ?thesis using H1(1) by (simp add: endpoint_route_rc_def)
qed

lemma addref_lent_root:
  assumes "heap_inv R H" and "rooted R H k h"
  shows "\<exists>H1. addref (V_ref h) H = Some H1 \<and> heap_inv (R + {#h#}) H1 \<and> evolves {} H H1 \<and>
    value_ok H1 (V_ref h) {k}"
proof -
  have "h \<in># R" using assms(2) by (simp add: rooted_def)
  then obtain H1 where H1: "addref (V_ref h) H = Some H1" "heap_inv (R + {#h#}) H1" "evolves {} H H1"
    by (rule addref_root [OF assms(1)])
  have "rooted (R + {#h#}) H1 k h" using rooted_later [OF assms(2,1) H1(3,2)] by auto
  then show ?thesis using H1 by (simp add: rooted_def value_ok_def)
qed

fun dispatch_ok :: "zhandle multiset \<Rightarrow> zheap \<Rightarrow> accept_dispatch \<Rightarrow> bool" where
  "dispatch_ok R H (D_returns h) = rooted R H K_connection h"
| "dispatch_ok R H _ = True"

lemma dispatch_ok_later:
  "dispatch_ok R H dispatch \<Longrightarrow> heap_inv R H \<Longrightarrow> evolves {} H H1 \<Longrightarrow> heap_inv R1 H1 \<Longrightarrow>
    set_mset R \<subseteq> set_mset R1 \<Longrightarrow> dispatch_ok R1 H1 dispatch"
  by (cases dispatch) (auto intro: rooted_later)

lemma dispatch_accepts:
  assumes inv: "heap_inv R H" and d: "rooted R H K_datagram d" and config: "lent R e H {K_server_config} config"
    and own: "set_mset (handles [config]) \<subseteq> set_mset R" and ok: "dispatch_ok R H dispatch"
  shows "accepts R H (dispatch = D_forwards A_undecodable) (dispatch_rc d config dispatch H)"
proof (cases dispatch)
  case D_missing
  then show ?thesis using accepts_none [of R "{#}" H H] inv evolves_refl by simp
next
  case (D_forwards outcome)
  show ?thesis
  proof (cases config)
    case (V_ref c)
    then have "rooted R H K_server_config c" using config own by (auto simp: lent_def value_ok_def rooted_def)
    from accept_accepts [OF inv d this] show ?thesis using V_ref D_forwards by simp
  qed (use D_forwards accepts_none [of R "{#}" H H] inv evolves_refl in \<open>simp_all\<close>)
next
  case (D_returns h)
  with ok addref_lent_root [OF inv, of K_connection h] obtain H1 where
    "addref (V_ref h) H = Some H1" "heap_inv (R + {#h#}) H1" "evolves {} H H1" "value_ok H1 (V_ref h) {K_connection}"
    by auto
  then show ?thesis using D_returns by (auto simp: accepts_def result_handles_def)
qed

lemma call_static_accept_accepts:
  assumes inv: "heap_inv R H" and d: "rooted R H K_datagram d" and config: "lent R e H {K_server_config} config"
    and ok: "dispatch_ok R H dispatch"
  shows "accepts R H (dispatch = D_forwards A_undecodable) (call_static_accept_rc d config dispatch H)"
proof -
  have "d \<in># R" using d by (simp add: rooted_def)
  then obtain H1 where H1: "addref (V_ref d) H = Some H1" "heap_inv (R + {#d#}) H1" "evolves {} H H1"
    by (rule addref_root [OF inv])
  have l1: "lent (R + {#d#}) e H1 {K_server_config} config" using lent_later [OF config inv H1(3,2)] by auto
  let ?R2 = "R + {#d#} + handles [config]"
  obtain H2 where H2: "addref config H1 = Some H2" "heap_inv ?R2 H2" "evolves {} H1 H2"
    using addref_lent [OF H1(2) l1] .
  have e2: "evolves {} H H2" using evolves_trans [OF H1(3) H2(3)] by simp
  have d2: "rooted ?R2 H2 K_datagram d" using rooted_later [OF d inv e2 H2(2)] by auto
  have l2: "lent ?R2 e H2 {K_server_config} config" using lent_later [OF l1 H1(2) H2(3,2)] by auto
  have "dispatch_ok ?R2 H2 dispatch" "set_mset (handles [config]) \<subseteq> set_mset ?R2"
    using dispatch_ok_later [OF ok inv e2 H2(2)] by auto
  from dispatch_accepts [OF H2(2) d2 l2 this(2,1)]
  obtain v H3 L where H3: "dispatch_rc d config dispatch H2 = Some (v, H3)"
    "heap_inv (?R2 + result_handles v + L) H3" "evolves {} H2 H3"
    "\<forall>w. v = Some w \<longrightarrow> value_ok H3 w {K_connection}" "dispatch = D_forwards A_undecodable \<or> L = {#}"
    unfolding accepts_def by blast
  have ds: "handles [V_ref d, config] = {#d#} + handles [config]" by simp
  have "heap_inv ((R + result_handles v + L) + handles [V_ref d, config]) H3"
    using H3(2) unfolding ds by (simp add: ac_simps)
  then obtain H4 where H4: "release [V_ref d, config] H3 = Some H4" "heap_inv (R + result_handles v + L) H4"
    "shrinks H3 H4" using release_inv by blast
  have e4: "evolves {} H H4"
    using evolves_trans [OF evolves_trans [OF e2 H3(3)] shrinks_evolves [OF H4(3), of "{}"]] by simp
  have "value_ok H4 w {K_connection}" if v: "v = Some w" for w
  proof (cases w)
    case (V_ref g)
    then have g: "g \<in># R + result_handles v + L" using v by (simp add: result_handles_def)
    then have "obj_of H4 g = obj_of H3 g" by (intro shrinks_obj [OF H4(3,2)]) simp
    then show ?thesis using H3(4) v V_ref by (simp add: value_ok_def kind_of_def)
  qed (simp_all add: value_ok_def)
  then show ?thesis using H1(1) H2(1) H3(1,5) H4(1,2) e4
    unfolding accepts_def by (auto simp: call_static_accept_rc_def)
qed

lemma endpoint_store_changes:
  assumes inv: "heap_inv (R + handles [v]) H" and e: "rooted R H K_server_endpoint e"
    and v: "value_ok H v {K_connection}"
  shows "\<exists>M. changes R M H (endpoint_store_rc e key v H)"
proof -
  have "set_mset (handles [v]) \<subseteq> set_mset (R + handles [v] + heap_refs H)" by auto
  then obtain H1 where H1: "addref v H = Some H1" "heap_inv (R + handles [v] + handles [v]) H1"
    "zh_next H1 = zh_next H" "obj_of H1 = obj_of H" using inv_addref [OF inv] by blast
  have kinds: "kind_of H1 = kind_of H" using H1(4) by (simp add: fun_eq_iff kind_of_def)
  have e1: "rooted (R + handles [v]) H1 K_server_endpoint e" using e by (simp add: rooted_def kinds)
  have v1: "value_ok H1 v {K_connection}" using v by (simp add: value_ok_def kinds split: zval.splits)
  obtain H2 where H2: "hash_add_rc e key v H1 = Some H2" "heap_inv (R + handles [v]) H2" "evolves {e} H1 H2"
    using hash_add_changes [OF H1(2) e1 v1] by (rule changesE)
  have below: "g < zh_next H1" if "v = V_ref g" for g
    using that by (intro rooted_live [OF H1(2)]) simp
  have v2: "value_ok H2 v {K_connection}"
    using value_ok_evolves [OF H2(3,2) v1] below by (cases v) auto
  have e2: "rooted (R + handles [v]) H2 K_server_endpoint e" using rooted_later [OF e1 H1(2) H2(3,2)] by auto
  obtain ob where ob: "obj_of H2 e = Some ob" "zo_kind ob = K_server_endpoint" "obj_ok H2 ob"
    by (rule root_object [OF H2(2) e2])
  then obtain q where q: "zo_slots ob ! 1 = V_ref q"
    by (cases "zo_slots ob ! 1") (auto simp: obj_ok_def)
  moreover have "kind_of H2 q = Some K_array"
    using ob q by (auto simp: obj_ok_def list_all2_Cons2 value_ok_def)
  moreover have "value_ok H2 v element_kinds" using v2 by (auto simp: value_ok_def element_kinds_def split: zval.splits)
  ultimately have "changes R {q} H2 (add_next_index_zval q v H2)"
    by (intro add_next_changes [OF H2(2)]) simp_all
  then have "changes R {e, q} H2 (add_next_index_zval q v H2)" by (rule changes_mono) simp
  moreover have "evolves {e, q} H H2"
    using H1(3,4) H2(3) by (fastforce simp: evolves_def)
  ultimately have "changes R {e, q} H (add_next_index_zval q v H2)" by (rule changes_from) simp
  moreover have "read_slot e 1 H2 = Some (V_ref q)" using ob(1) q by (simp add: read_slot_def)
  ultimately show ?thesis using H1(1) H2(1) by (auto simp: endpoint_store_rc_def)
qed

text \<open>An operation that may lose the references \<open>L\<close>.\<close>

definition settles :: "zhandle multiset \<Rightarrow> bool \<Rightarrow> zheap option \<Rightarrow> bool" where
  "settles R loses r \<longleftrightarrow> (\<exists>H' L. r = Some H' \<and> heap_inv (R + L) H' \<and> (loses \<or> L = {#}))"

lemma changes_settles: "changes R M H r \<Longrightarrow> settles R loses r"
  unfolding changes_def settles_def by (metis add.right_neutral)

lemma endpoint_accept_settles:
  assumes inv: "heap_inv R H" and e: "rooted R H K_server_endpoint e" and d: "rooted R H K_datagram d"
    and ok: "dispatch_ok R H dispatch"
  shows "settles R (dispatch = D_forwards A_undecodable) (endpoint_accept_rc e d key dispatch finished H)"
proof -
  obtain config where config: "read_slot e 0 H = Some config" "lent R e H {K_server_config} config"
    using read_lent [OF inv e, of 0] by auto
  obtain v H1 L where H1: "call_static_accept_rc d config dispatch H = Some (v, H1)"
    "heap_inv (R + result_handles v + L) H1" "evolves {} H H1"
    "\<forall>w. v = Some w \<longrightarrow> value_ok H1 w {K_connection}" "dispatch = D_forwards A_undecodable \<or> L = {#}"
    using call_static_accept_accepts [OF inv d config(2) ok] unfolding accepts_def by blast
  have e1: "rooted (R + L) H1 K_server_endpoint e"
    using rooted_later [OF e inv H1(3,2)] e by (auto simp: rooted_def)
  show ?thesis
  proof (cases v)
    case None
    then show ?thesis using config(1) H1 
      by (auto simp: settles_def endpoint_accept_rc_def result_handles_def)
  next
    case (Some w)
    have "heap_inv (R + L + handles [w]) H1" using H1(2) Some by (simp add: result_handles_def ac_simps)
    then obtain M where "changes (R + L) M H1 (endpoint_store_rc e key w H1)"
      using endpoint_store_changes [OF _ e1] H1(4) Some by blast
    then obtain H2 where H2: "endpoint_store_rc e key w H1 = Some H2" "heap_inv (R + L) H2" "evolves M H1 H2"
      by (rule changesE)
    have "rooted (R + L) H2 K_server_endpoint e" using rooted_later [OF e1 H1(2) H2(3,2)] by auto
    then obtain H3 where "cleanup_rc e finished H2 = Some H3" "heap_inv (R + L) H3"
      using cleanup_changes [OF H2(2)] changesE by metis
    then show ?thesis using config(1) H1(1,5) H2(1) Some
      by (auto simp: settles_def endpoint_accept_rc_def)
  qed
qed

lemma recv_settles:
  assumes inv: "heap_inv R H" and e: "rooted R H K_server_endpoint e" and d: "rooted R H K_datagram d"
    and ok: "dispatch_ok R H dispatch"
  shows "settles R (dispatch = D_forwards A_undecodable) (ServerEndpoint_recv_rc e d key dispatch finished H)"
proof -
  obtain ob where ob: "obj_of H e = Some ob" by (rule root_object [OF inv e])
  show ?thesis
    using endpoint_accept_settles [OF assms] changes_settles [OF route_changes [OF inv e d]] ob
    by (cases "map_of (zo_table ob) key") (simp_all add: ServerEndpoint_recv_rc_def read_table_def)
qed

subsection \<open>Draining the queue of accepted connections\<close>

lemma queue_of:
  assumes "heap_inv R H" and "rooted R0 H K_server_endpoint e"
  obtains ob c q where "obj_of H e = Some ob" and "zo_kind ob = K_server_endpoint" and "obj_ok H ob"
    and "zo_slots ob = [c, V_ref q]" and "kind_of H q = Some K_array"
proof -
  obtain ob where ob: "obj_of H e = Some ob" "zo_kind ob = K_server_endpoint" "obj_ok H ob"
    by (rule root_object [OF assms])
  then obtain c w where cw: "zo_slots ob = [c, w]" "is_ref w" "value_ok H w {K_array}"
    by (auto simp: obj_ok_def list_all2_Cons2)
  then obtain q where "w = V_ref q" by (cases w) auto
  then show thesis using ob cw by (intro that) (auto simp: value_ok_def)
qed

lemma write_queue_changes:
  assumes inv: "heap_inv (R + {#a#}) H" and e: "rooted R H K_server_endpoint e" and a: "kind_of H a = Some K_array"
    and ob: "obj_of H e = Some ob" "zo_slots ob = [c, V_ref q]"
  shows "changes (R + {#q#}) {e} H (write_slot e 1 (V_ref a) H)"
proof -
  obtain rc where r: "cell H e = Some (rc, ob)" "zo_kind ob = K_server_endpoint" "obj_ok H ob"
    by (rule root_object [OF inv e]) (use ob in auto)
  let ?ob = "ob\<lparr>zo_slots := (zo_slots ob)[1 := V_ref a]\<rparr>"
  have "obj_ok H ?ob" using r(2,3) ob(2) a by (auto simp: obj_ok_def value_ok_def)
  moreover have "R + {#q#} + handles (ob_values ?ob) = R + {#a#} + handles (ob_values ob)"
    using handles_Cons [of c "[V_ref a]"] handles_Cons [of c "[V_ref q]"] ob(2)
      handles_Cons [of c "V_ref a # List.map snd (zo_table ob)"]
      handles_Cons [of c "V_ref q # List.map snd (zo_table ob)"]
    by (simp add: ob_values_def ac_simps)
  ultimately have "heap_inv (R + {#q#}) (set_cell e (rc, ?ob) H)"
    by (intro inv_set_obj [OF inv r(1)]) simp_all
  then show ?thesis using set_cell_evolves [OF r(1), of ?ob rc] r
    by (simp add: changes_def write_slot_def modify_obj_def)
qed

lemma drainAccepted_produces:
  assumes inv: "heap_inv R H" and e: "rooted R H K_server_endpoint e"
  shows "produces R {K_array} {e} H (ServerEndpoint_drainAcceptedConnections_rc e H)"
proof -
  obtain ob c q where ob: "obj_of H e = Some ob" "zo_slots ob = [c, V_ref q]" "kind_of H q = Some K_array"
    by (rule queue_of [OF inv e])
  have "q \<in># heap_refs H" using ob by (intro heap_refs_member [OF ob(1)]) (simp add: in_handles ob_values_def)
  then have "set_mset (handles [V_ref q]) \<subseteq> set_mset (R + heap_refs H)" by simp
  from inv_addref [OF inv this] obtain H1 where H1: "addref (V_ref q) H = Some H1"
    "heap_inv (R + {#q#}) H1" "zh_next H1 = zh_next H" "obj_of H1 = obj_of H" by auto
  have e1: "rooted (R + {#q#}) H1 K_server_endpoint e" and q1: "rooted (R + {#q#}) H1 K_array q"
    using e ob(3) H1(4) by (simp_all add: rooted_def kind_of_def)
  obtain a H2 where new: "array_init H1 = (a, H2)" by (cases "array_init H1")
  then have "new_cell K_array [] H1 = (a, H2)" by (simp add: array_init_def)
  note H2 = new_cell_empty [OF H1(2) this]
  have i2: "heap_inv (R + {#q#} + {#a#}) H2" "evolves {} H1 H2" "kind_of H2 a = Some K_array"
    using H2 by simp_all
  have e2: "rooted (R + {#q#}) H2 K_server_endpoint e"
    using rooted_later [OF e1 H1(2) i2(2,1)] e by (auto simp: rooted_def)
  have "e \<in># R + {#q#} + {#a#} + heap_refs H2" using e by (simp add: rooted_def)
  then have o2: "obj_of H2 e = Some ob"
    using evolves_obj [OF i2(2,1)] obj_below_next [OF H1(2)] ob(1) H1(4) by simp
  obtain H3 where H3: "write_slot e 1 (V_ref a) H2 = Some H3" "heap_inv (R + {#q#} + {#q#}) H3" "evolves {e} H2 H3"
    using write_queue_changes [OF i2(1) e2 i2(3) o2 ob(2)] by (rule changesE)
  have "heap_inv (R + {#q#} + handles [V_ref q]) H3" using H3(2) by simp
  then obtain H4 where H4: "zval_ptr_dtor (V_ref q) H3 = Some H4" "heap_inv (R + {#q#}) H4" "evolves {} H3 H4"
    using dtor_changes changesE by metis
  have e14: "evolves {e} H1 H4"
    using evolves_trans [OF evolves_trans [OF evolves_mono [OF i2(2)] H3(3)] H4(3), of "{e}"] by simp
  have "rooted (R + {#q#}) H4 K_array q" using rooted_later [OF q1 H1(2) e14 H4(2)] by simp
  moreover have "evolves {e} H H4" using e14 H1(3,4) by (simp add: evolves_def)
  ultimately show ?thesis
    using H1(1) new H3(1) H4(1,2) ob(1,2)
    by (simp add: produces_def ServerEndpoint_drainAcceptedConnections_rc_def return_slot_def
        return_copy_def read_slot_def value_ok_def rooted_def)
qed

subsection \<open>Merging arrays\<close>

lemma copy_items_changes:
  assumes "heap_inv R H" and "rooted R H K_array a"
    and "\<forall>v \<in> set vs. lent R r H element_kinds v" and "r \<noteq> a"
  shows "changes R {a} H (copy_items vs a H)"
  using assms
proof (induction vs arbitrary: H)
  case Nil
  then show ?case by (simp add: changesI evolves_refl)
next
  case (Cons v vs)
  have v: "lent R r H element_kinds v" using Cons.prems(3) by simp
  obtain H1 where H1: "addref v H = Some H1" "heap_inv (R + handles [v]) H1" "evolves {} H H1"
    using addref_lent [OF Cons.prems(1) v] .
  have v1: "lent (R + handles [v]) r H1 element_kinds v"
    using lent_later [OF v Cons.prems(1) H1(3,2)] by auto
  have a1: "kind_of H1 a = Some K_array"
    using rooted_later [OF Cons.prems(2,1) H1(3,2)] by (simp add: rooted_def)
  have "changes R {a} H1 (add_next_index_zval a v H1)"
    using v1 by (intro add_next_changes [OF H1(2) a1]) (simp add: lent_def)
  then have "changes R {a} H (add_next_index_zval a v H1)"
    by (rule changes_from [OF _ evolves_mono [OF H1(3)]]) simp_all
  then have "changes R {a} H (add_next_index_zval a v H1 \<bind> copy_items vs a)"
  proof (rule changes_bind)
    fix H2 assume H2: "heap_inv R H2" "evolves {a} H H2"
    have "rooted R H2 K_array a" using rooted_later [OF Cons.prems(2,1) H2(2,1)] by simp
    moreover have "lent R r H2 element_kinds w" if "w \<in> set vs" for w
      using lent_later [OF _ Cons.prems(1) H2(2,1), of R r] Cons.prems(3,4) that by auto
    ultimately show "changes R {a} H2 (copy_items vs a H2)"
      using Cons.prems(4) by (intro Cons.IH H2(1)) auto
  qed simp
  then show ?case using H1(1) by simp
qed

lemma merge_array_changes:
  assumes inv: "heap_inv (R + {#r#}) H" and a: "rooted R H K_array a" and r: "kind_of H r = Some K_array"
    and ne: "r \<noteq> a"
  shows "changes R {a} H (merge_array a (V_ref r) H)"
proof -
  have "rooted (R + {#r#}) H K_array r" using r by (simp add: rooted_def)
  then obtain ob where ob: "obj_of H r = Some ob" "zo_kind ob = K_array" "obj_ok H ob"
    by (rule root_object [OF inv])
  then have "\<forall>v \<in> set (zo_slots ob). lent (R + {#r#}) r H element_kinds v"
    by (auto simp: lent_def obj_ok_def list_all_iff)
  moreover have "rooted (R + {#r#}) H K_array a" using a by (simp add: rooted_def)
  ultimately have "changes (R + {#r#}) {a} H (copy_items (zo_slots ob) a H)"
    using ne by (intro copy_items_changes [OF inv]) auto
  then have "changes R {a} H (copy_items (zo_slots ob) a H \<bind> zval_ptr_dtor (V_ref r))"
    by (rule changes_bind) (auto intro: dtor_changes)
  then show ?thesis using ob(1) by (simp add: merge_array_def)
qed

text \<open>A call of a connection's method: it makes an array of its own.\<close>

definition array_call :: "zhandle multiset \<Rightarrow> zheap \<Rightarrow> zhandle \<Rightarrow> (zheap \<Rightarrow> (zval \<times> zheap) option) \<Rightarrow> bool" where
  "array_call R H a drain \<longleftrightarrow> calm {K_array} R H a drain \<and>
     (\<forall>H v H'. drain H = Some (v, H') \<longrightarrow> v = V_ref (zh_next H))"

lemma array_call_later:
  "array_call R H a drain \<Longrightarrow> evolves {a} H H1 \<Longrightarrow> set_mset R \<subseteq> set_mset R1 \<Longrightarrow> array_call R1 H1 a drain"
  using calm_later unfolding array_call_def by blast

lemma array_callE:
  assumes "array_call R H a drain" and "heap_inv R H"
  obtains H1 where "drain H = Some (V_ref (zh_next H), H1)" and "heap_inv (R + {#zh_next H#}) H1"
    and "evolves {} H H1" and "kind_of H1 (zh_next H) = Some K_array"
proof -
  obtain v H1 where "drain H = Some (v, H1)" "heap_inv (R + handles [v]) H1" "evolves {} H H1"
    "value_ok H1 v {K_array}"
    using calm_now [of "{K_array}" R H a drain] assms producesE unfolding array_call_def by metis
  moreover from this(1) have "v = V_ref (zh_next H)" using assms(1) by (auto simp: array_call_def)
  ultimately show thesis using that by (auto simp: value_ok_def)
qed

text \<open>One call, discarded or merged.\<close>

lemma discard_changes:
  assumes "array_call R H a drain" and "heap_inv R H"
  shows "changes R {a} H (discard_return_value (drain H))"
proof -
  obtain H1 where H1: "drain H = Some (V_ref (zh_next H), H1)" "heap_inv (R + {#zh_next H#}) H1" "evolves {} H H1"
    using array_callE [OF assms] .
  have "changes R {a} H1 (zval_ptr_dtor (V_ref (zh_next H)) H1)"
    using H1(2) by (intro changes_mono [OF dtor_changes]) simp_all
  then have "changes R {a} H (zval_ptr_dtor (V_ref (zh_next H)) H1)"
    by (rule changes_from [OF _ evolves_mono [OF H1(3)]]) simp_all
  then show ?thesis using H1(1) by (simp add: discard_return_value_def)
qed

lemma merge_changes:
  assumes "array_call R H a drain" and inv: "heap_inv R H" and a: "rooted R H K_array a"
  shows "changes R {a} H (drain H \<bind> (\<lambda>(retval, H). merge_array a retval H))"
proof -
  obtain H1 where H1: "drain H = Some (V_ref (zh_next H), H1)" "heap_inv (R + {#zh_next H#}) H1" "evolves {} H H1"
    "kind_of H1 (zh_next H) = Some K_array"
    using array_callE [OF assms(1,2)] .
  have "a < zh_next H" using rooted_live [OF inv] a by (simp add: rooted_def)
  then have ne: "zh_next H \<noteq> a" by simp
  have "rooted R H1 K_array a" using rooted_later [OF a inv H1(3,2)] a by (auto simp: rooted_def)
  then have "changes R {a} H1 (merge_array a (V_ref (zh_next H)) H1)"
    by (rule merge_array_changes [OF H1(2) _ H1(4) ne])
  then have "changes R {a} H (merge_array a (V_ref (zh_next H)) H1)"
    by (rule changes_from [OF _ evolves_mono [OF H1(3)]]) simp_all
  then show ?thesis using H1(1) by simp
qed

subsection \<open>The drains of the endpoint\<close>

lemma endpoint_drain_changes:
  assumes "heap_inv R H" and "rooted R H K_array a" and "\<forall>(throws, drain) \<in> set calls. array_call R H a drain"
  shows "\<exists>p H'. endpoint_drain_rc False calls pending a H = Some (True, p, H') \<and>
     changes R {a} H (Some H')"
  using assms
proof (induction calls arbitrary: pending H)
  case Nil
  then show ?case by (simp add: changesI evolves_refl)
next
  case (Cons c calls)
  obtain throws drain where c: "c = (throws, drain)" by (cases c)
  have call: "array_call R H a drain" using Cons.prems(3) c by simp
  have go: "\<exists>p H'. endpoint_drain_rc False calls pending' a H1 = Some (True, p, H') \<and>
      changes R {a} H (Some H')" if H1: "heap_inv R H1" "evolves {a} H H1" for pending' H1
  proof -
    have "rooted R H1 K_array a" using rooted_later [OF Cons.prems(2,1) H1(2,1)] by simp
    moreover have "\<forall>(throws, drain) \<in> set calls. array_call R H1 a drain"
      using Cons.prems(3) array_call_later [OF _ H1(2), of R] by fastforce
    ultimately obtain p H' where "endpoint_drain_rc False calls pending' a H1 = Some (True, p, H')"
      "changes R {a} H1 (Some H')" using Cons.IH [OF H1(1)] by blast
    then show ?thesis using changes_from [OF _ H1(2)] by blast
  qed
  show ?case
  proof (cases "pending \<or> throws")
    case False
    then show ?thesis
      using merge_changes [OF call Cons.prems(1,2)] go [of _ False] c
      by (cases "drain H") (auto simp: changes_def split: prod.splits)
  next
    case True
    then show ?thesis
      using discard_changes [OF call Cons.prems(1)] go [of _ True] go [OF Cons.prems(1) evolves_refl, of True] c
      by (cases pending) (auto simp: changes_def)
  qed
qed

text \<open>The whole method, which either returns the array or leaves an exception.\<close>

definition yields :: "zhandle multiset \<Rightarrow> (zval option \<times> zheap) option \<Rightarrow> bool" where
  "yields R r \<longleftrightarrow> (\<exists>v H'. r = Some (v, H') \<and> heap_inv (R + result_handles v) H')"

lemma endpoint_drain_method_yields:
  assumes inv: "heap_inv R H" and e: "rooted R H K_server_endpoint e"
    and calls: "\<And>a H1. heap_inv (R + {#a#}) H1 \<Longrightarrow> rooted (R + {#a#}) H1 K_array a \<Longrightarrow> evolves {} H H1 \<Longrightarrow>
      \<forall>(throws, drain) \<in> set calls. array_call (R + {#a#}) H1 a drain"
  shows "yields R (endpoint_drain_method_rc False e calls finished H)"
proof -
  obtain a H1 where new: "array_init H = (a, H1)" by (cases "array_init H")
  then have "new_cell K_array [] H = (a, H1)" by (simp add: array_init_def)
  note H1 = new_cell_empty [OF inv this, simplified]
  have H1: "heap_inv (R + {#a#}) H1" "evolves {} H H1" "rooted (R + {#a#}) H1 K_array a"
    using H1 by (simp_all add: rooted_def)
  obtain p H2 where H2: "endpoint_drain_rc False calls False a H1 = Some (True, p, H2)"
    "heap_inv (R + {#a#}) H2" "evolves {a} H1 H2"
    using endpoint_drain_changes [OF H1(1,3) calls [OF H1(1,3,2)], of False]
    by (auto simp: changes_def)
  have "rooted (R + {#a#}) H1 K_server_endpoint e" using rooted_later [OF e inv H1(2,1)] by auto
  then have "rooted (R + {#a#}) H2 K_server_endpoint e" using rooted_later [OF _ H1(1) H2(3,2)] by blast
  then obtain H3 where H3: "cleanup_rc e finished H2 = Some H3" "heap_inv (R + {#a#}) H3"
    using cleanup_changes [OF H2(2)] changesE by metis
  show ?thesis
  proof (cases p)
    case True
    have "heap_inv (R + handles [V_ref a]) H3" using H3(2) by simp
    then obtain H4 where "zval_ptr_dtor (V_ref a) H3 = Some H4" "heap_inv R H4"
      using dtor_changes changesE by metis
    then show ?thesis using True new H2(1) H3(1)
      by (simp add: yields_def endpoint_drain_method_rc_def result_handles_def)
  next
    case False
    then show ?thesis using new H2(1) H3
      by (simp add: yields_def endpoint_drain_method_rc_def result_handles_def)
  qed
qed

end
