(* ===== verification/Quic_Lifetime_Props.thy ===== *)
theory Quic_Lifetime_Props
  imports Quic_Lifetime_Endpoint
begin

text \<open>
  A script that makes objects of the extension, calls their methods in any order with any outcome
  and keeps or drops the values it gets. Its variables are the \<open>roots\<close>, one entry for each
  reference; a call whose arguments are not values of the script, or not of the declared class,
  does not happen.
\<close>

subsection \<open>The script\<close>

record life =
  lf_roots :: "zhandle list"
  lf_heap :: zheap

definition life_start :: life where
  "life_start = \<lparr>lf_roots = [], lf_heap = zheap_empty\<rparr>"

text \<open>
  \<open>L_getter\<close> is any method that returns a field, \<open>L_stream\<close> any of the three that return a
  stream. The numbers, reasons and flags say what a drain writes or pops and whether it throws;
  \<open>finished\<close> are the keys of the connections that the endpoint's cleanup removes.
\<close>

datatype life_op =
    L_new zkind
  | L_copy zhandle
  | L_drop zhandle
  | L_getter zhandle nat
  | L_element zhandle nat
  | L_Address_construct zhandle zhandle
  | L_Address_fromString
  | L_Datagram_construct zhandle zhandle zhandle "zhandle option"
  | L_Event_construct zhandle "zhandle option"
  | L_ClientConfig_construct zhandle "zhandle option" "zhandle option" "zhandle option"
  | L_ServerConfig_construct zhandle "zhandle option" "zhandle option" "zhandle option" "zhandle option"
  | L_withLocalAddress zhandle "zhandle option"
  | L_withString zhandle nat "zhandle option"
  | L_withCertificate zhandle zhandle zhandle
  | L_Connection_construct zhandle zhandle "zhandle option"
  | L_Connection_close zhandle "zhandle option"
  | L_stream zhandle
  | L_drainOutgoingDatagrams zhandle nat bool
  | L_drainEvents zhandle "bool list"
  | L_accept zhandle zhandle accept_outcome
  | L_Endpoint_construct zhandle zhandle
  | L_Endpoint_recv zhandle zhandle zstring accept_dispatch "zstring list"
  | L_Endpoint_handleTimers zhandle "zstring list"
  | L_Endpoint_drainAccepted zhandle
  | L_Endpoint_drainOutgoing zhandle "(bool \<times> nat) list" "zstring list"
  | L_Endpoint_drainEvents zhandle "(bool \<times> bool list) list" "zstring list"

definition arg :: "life \<Rightarrow> zkind \<Rightarrow> zhandle \<Rightarrow> bool" where
  "arg s k h \<longleftrightarrow> h \<in> set (lf_roots s) \<and> kind_of (lf_heap s) h = Some k"

definition opt_arg :: "life \<Rightarrow> zkind \<Rightarrow> zhandle option \<Rightarrow> bool" where
  "opt_arg s k x \<longleftrightarrow> (case x of None \<Rightarrow> True | Some h \<Rightarrow> arg s k h)"

definition config_arg :: "life \<Rightarrow> zhandle \<Rightarrow> bool" where
  "config_arg s h \<longleftrightarrow> arg s K_client_config h \<or> arg s K_server_config h"

text \<open>The fields a getter returns, and those a \<^verbatim>\<open>with\<close> method sets to a string.\<close>

definition getter_ok :: "life \<Rightarrow> zhandle \<Rightarrow> nat \<Rightarrow> bool" where
  "getter_ok s h i \<longleftrightarrow> h \<in> set (lf_roots s) \<and>
     (case kind_of (lf_heap s) h of
        None \<Rightarrow> False
      | Some k \<Rightarrow>
          k \<in> {K_address, K_datagram, K_event, K_client_config, K_server_config} \<and>
          i < length (slot_kinds k))"

definition with_string_ok :: "life \<Rightarrow> zhandle \<Rightarrow> nat \<Rightarrow> bool" where
  "with_string_ok s h i \<longleftrightarrow>
     arg s K_client_config h \<and> i \<in> {1, 2} \<or> arg s K_server_config h \<and> i = 3"

definition element_of :: "life \<Rightarrow> zhandle \<Rightarrow> nat \<Rightarrow> zval" where
  "element_of s h i =
     (case obj_of (lf_heap s) h of
        None \<Rightarrow> V_undef
      | Some ob \<Rightarrow> if zo_kind ob = K_array \<and> i < length (zo_slots ob) then zo_slots ob ! i else V_undef)"

definition table_conns :: "zheap \<Rightarrow> zhandle \<Rightarrow> zhandle list" where
  "table_conns H e =
     (case obj_of H e of
        None \<Rightarrow> []
      | Some ob \<Rightarrow> concat (List.map zv_handles (List.map snd (zo_table ob))))"

fun allowed :: "life \<Rightarrow> life_op \<Rightarrow> bool" where
  "allowed s (L_new k) = True"
| "allowed s (L_copy h) = (h \<in> set (lf_roots s))"
| "allowed s (L_drop h) = (h \<in> set (lf_roots s))"
| "allowed s (L_getter h i) = getter_ok s h i"
| "allowed s (L_element h i) = arg s K_array h"
| "allowed s (L_Address_construct this host) = (arg s K_address this \<and> arg s K_string host)"
| "allowed s L_Address_fromString = True"
| "allowed s (L_Datagram_construct this payload peer local) =
     (arg s K_datagram this \<and> arg s K_string payload \<and> arg s K_address peer \<and> opt_arg s K_address local)"
| "allowed s (L_Event_construct this reason) = (arg s K_event this \<and> opt_arg s K_string reason)"
| "allowed s (L_ClientConfig_construct this local server_name alpn) =
     (arg s K_client_config this \<and> opt_arg s K_address local \<and> opt_arg s K_string server_name \<and>
      opt_arg s K_string alpn)"
| "allowed s (L_ServerConfig_construct this local cert_file key_file alpn) =
     (arg s K_server_config this \<and> opt_arg s K_address local \<and> opt_arg s K_string cert_file \<and>
      opt_arg s K_string key_file \<and> opt_arg s K_string alpn)"
| "allowed s (L_withLocalAddress this local) = (config_arg s this \<and> opt_arg s K_address local)"
| "allowed s (L_withString this i string) = (with_string_ok s this i \<and> opt_arg s K_string string)"
| "allowed s (L_withCertificate this cert_file key_file) =
     (arg s K_server_config this \<and> arg s K_string cert_file \<and> arg s K_string key_file)"
| "allowed s (L_Connection_construct this remote config) =
     (arg s K_connection this \<and> arg s K_address remote \<and> opt_arg s K_client_config config)"
| "allowed s (L_Connection_close this reason) = (arg s K_connection this \<and> opt_arg s K_string reason)"
| "allowed s (L_stream this) = arg s K_connection this"
| "allowed s (L_drainOutgoingDatagrams this n throws) = arg s K_connection this"
| "allowed s (L_drainEvents this reasons) = arg s K_connection this"
| "allowed s (L_accept datagram config outcome) = (arg s K_datagram datagram \<and> arg s K_server_config config)"
| "allowed s (L_Endpoint_construct this config) = (arg s K_server_endpoint this \<and> arg s K_server_config config)"
| "allowed s (L_Endpoint_recv this datagram key dispatch finished) =
     (arg s K_server_endpoint this \<and> arg s K_datagram datagram \<and>
      (case dispatch of D_returns h \<Rightarrow> arg s K_connection h | _ \<Rightarrow> True))"
| "allowed s (L_Endpoint_handleTimers this finished) = arg s K_server_endpoint this"
| "allowed s (L_Endpoint_drainAccepted this) = arg s K_server_endpoint this"
| "allowed s (L_Endpoint_drainOutgoing this calls finished) =
     (arg s K_server_endpoint this \<and> length calls = length (table_conns (lf_heap s) this))"
| "allowed s (L_Endpoint_drainEvents this calls finished) =
     (arg s K_server_endpoint this \<and> length calls = length (table_conns (lf_heap s) this))"

text \<open>What a call leaves: the heap, and the references that the script gets.\<close>

definition quiet :: "zheap option \<Rightarrow> (zval option \<times> zheap) option" where
  "quiet r = map_option (\<lambda>H. (None, H)) r"

definition giving :: "(zval \<times> zheap) option \<Rightarrow> (zval option \<times> zheap) option" where
  "giving r = map_option (\<lambda>(v, H). (Some v, H)) r"

fun life_call :: "bool \<Rightarrow> life \<Rightarrow> life_op \<Rightarrow> zheap \<Rightarrow> (zval option \<times> zheap) option" where
  "life_call fp s (L_new k) H = (let (h, H) = create_object k H in Some (Some (V_ref h), H))"
| "life_call fp s (L_copy h) H = giving (return_copy (V_ref h) H)"
| "life_call fp s (L_drop h) H = quiet (zval_ptr_dtor (V_ref h) H)"
| "life_call fp s (L_getter h i) H = giving (return_slot h i H)"
| "life_call fp s (L_element h i) H = giving (return_copy (element_of s h i) H)"
| "life_call fp s (L_Address_construct this host) H = quiet (Address_construct_rc this host H)"
| "life_call fp s L_Address_fromString H = giving (Address_fromString_rc H)"
| "life_call fp s (L_Datagram_construct this payload peer local) H =
     quiet (Datagram_construct_rc this payload peer local H)"
| "life_call fp s (L_Event_construct this reason) H = quiet (Event_construct_rc this reason H)"
| "life_call fp s (L_ClientConfig_construct this local server_name alpn) H =
     quiet (ClientConfig_construct_rc this local server_name alpn H)"
| "life_call fp s (L_ServerConfig_construct this local cert_file key_file alpn) H =
     quiet (ServerConfig_construct_rc this local cert_file key_file alpn H)"
| "life_call fp s (L_withLocalAddress this local) H = giving (Config_withLocalAddress_rc this local H)"
| "life_call fp s (L_withString this i string) H = giving (Config_withString_rc this i string H)"
| "life_call fp s (L_withCertificate this cert_file key_file) H =
     giving (ServerConfig_withCertificate_rc this cert_file key_file H)"
| "life_call fp s (L_Connection_construct this remote config) H =
     quiet (Connection_construct_rc this remote config H)"
| "life_call fp s (L_Connection_close this reason) H = quiet (Connection_close_rc this reason H)"
| "life_call fp s (L_stream this) H = giving (php_quic_stream_create_rc this H)"
| "life_call fp s (L_drainOutgoingDatagrams this n throws) H =
     (if throws then quiet (discard_return_value (Connection_drainOutgoingDatagrams_rc this n H))
      else giving (Connection_drainOutgoingDatagrams_rc this n H))"
| "life_call fp s (L_drainEvents this reasons) H = giving (Connection_drainEvents_rc reasons H)"
| "life_call fp s (L_accept datagram config outcome) H = accept_rc datagram config outcome H"
| "life_call fp s (L_Endpoint_construct this config) H = quiet (ServerEndpoint_construct_rc this config H)"
| "life_call fp s (L_Endpoint_recv this datagram key dispatch finished) H =
     quiet (ServerEndpoint_recv_rc this datagram key dispatch finished H)"
| "life_call fp s (L_Endpoint_handleTimers this finished) H = quiet (cleanup_rc this finished H)"
| "life_call fp s (L_Endpoint_drainAccepted this) H =
     giving (ServerEndpoint_drainAcceptedConnections_rc this H)"
| "life_call fp s (L_Endpoint_drainOutgoing this calls finished) H =
     endpoint_drain_method_rc fp this
       (List.map2 (\<lambda>(throws, n) c. (throws, Connection_drainOutgoingDatagrams_rc c n)) calls
         (table_conns H this)) finished H"
| "life_call fp s (L_Endpoint_drainEvents this calls finished) H =
     endpoint_drain_method_rc fp this
       (List.map2 (\<lambda>(throws, reasons) c. (throws, Connection_drainEvents_rc reasons)) calls
         (table_conns H this)) finished H"

definition roots_after :: "life_op \<Rightarrow> zval option \<Rightarrow> zhandle list \<Rightarrow> zhandle list" where
  "roots_after op v roots =
     (case v of None \<Rightarrow> [] | Some w \<Rightarrow> zv_handles w) @ (case op of L_drop h \<Rightarrow> remove1 h roots | _ \<Rightarrow> roots)"

definition life_step :: "bool \<Rightarrow> life_op \<Rightarrow> life \<Rightarrow> life option" where
  "life_step fp op s =
     (if allowed s op
      then (case life_call fp s op (lf_heap s) of
              None \<Rightarrow> None
            | Some (v, H) \<Rightarrow> Some \<lparr>lf_roots = roots_after op v (lf_roots s), lf_heap = H\<rparr>)
      else Some s)"

fun life_run :: "bool \<Rightarrow> life_op list \<Rightarrow> life \<Rightarrow> life option" where
  "life_run fp [] s = Some s"
| "life_run fp (op # ops) s = do { s \<leftarrow> life_step fp op s; life_run fp ops s }"

text \<open>At the end of the script every variable is released.\<close>

definition script_end :: "life \<Rightarrow> zheap option" where
  "script_end s = release (List.map V_ref (lf_roots s)) (lf_heap s)"

fun undecodable :: "life_op \<Rightarrow> bool" where
  "undecodable (L_accept d c outcome) = (outcome = A_undecodable)"
| "undecodable (L_Endpoint_recv e d key dispatch finished) = (dispatch = D_forwards A_undecodable)"
| "undecodable _ = False"

subsection \<open>Every call keeps the counts exact\<close>

definition ends :: "zhandle multiset \<Rightarrow> bool \<Rightarrow> (zval option \<times> zheap) option \<Rightarrow> bool" where
  "ends R loses r \<longleftrightarrow> (\<exists>v H' L. r = Some (v, H') \<and> heap_inv (R + result_handles v + L) H' \<and>
     (loses \<or> L = {#}))"

lemma result_handles_simps [simp]:
  "result_handles None = {#}" "result_handles (Some v) = handles [v]"
  by (simp_all add: result_handles_def)

lemma endsI: "heap_inv (R + result_handles v + L) H' \<Longrightarrow> loses \<or> L = {#} \<Longrightarrow> ends R loses (Some (v, H'))"
  unfolding ends_def by blast

lemma settles_ends:
  assumes "settles R loses r"
  shows "ends R loses (quiet r)"
proof -
  obtain H' L where "r = Some H'" "heap_inv (R + L) H'" "loses \<or> L = {#}"
    using assms by (auto simp: settles_def)
  then show ?thesis using endsI [of R None L H' loses] by (simp add: quiet_def)
qed

lemma changes_ends: "changes R M H r \<Longrightarrow> ends R loses (quiet r)"
  by (intro settles_ends changes_settles)

lemma produces_ends: "produces R ks M H r \<Longrightarrow> ends R loses (giving r)"
  using endsI [of R "Some v" "{#}" for v] by (auto simp: produces_def giving_def)

lemma accepts_ends: "accepts R H loses r \<Longrightarrow> ends R loses r"
  unfolding accepts_def ends_def by blast

lemma yields_ends: "yields R r \<Longrightarrow> ends R loses r"
  unfolding yields_def ends_def by (metis add.right_neutral)

lemmas ends_intros = changes_ends produces_ends accepts_ends yields_ends settles_ends

definition roots_of :: "life \<Rightarrow> zhandle multiset \<Rightarrow> zhandle multiset" where
  "roots_of s L = mset (lf_roots s) + L"

lemma arg_rooted: "arg s k h \<Longrightarrow> rooted (roots_of s L) (lf_heap s) k h"
  by (simp add: arg_def rooted_def roots_of_def)

lemma opt_arg_rooted: "opt_arg s k x \<Longrightarrow> \<forall>h. x = Some h \<longrightarrow> rooted (roots_of s L) (lf_heap s) k h"
  by (auto simp: opt_arg_def arg_rooted)

lemma lent_produces:
  assumes "heap_inv R H" and "lent R c H ks v"
  shows "produces R ks {} H (return_copy v H)"
proof -
  obtain H1 where H1: "addref v H = Some H1" "heap_inv (R + handles [v]) H1" "evolves {} H H1"
    using addref_lent [OF assms] .
  moreover have "lent (R + handles [v]) c H1 ks v" using lent_later [OF assms(2,1) H1(3,2)] by auto
  ultimately show ?thesis by (simp add: produces_def return_copy_def lent_def)
qed

lemma getter_produces:
  assumes inv: "heap_inv (roots_of s L) (lf_heap s)" and "getter_ok s h i"
  shows "\<exists>ks. produces (roots_of s L) ks {} (lf_heap s) (return_slot h i (lf_heap s))"
proof -
  obtain k where k: "kind_of (lf_heap s) h = Some k" "k \<noteq> K_array" "i < length (slot_kinds k)"
    "h \<in> set (lf_roots s)"
    using assms(2) by (auto simp: getter_ok_def split: option.splits)
  then have "rooted (roots_of s L) (lf_heap s) k h" by (simp add: rooted_def roots_of_def)
  then obtain v where "read_slot h i (lf_heap s) = Some v" "lent (roots_of s L) h (lf_heap s) (slot_kinds k ! i) v"
    using k by (elim read_lent [OF inv])
  then show ?thesis using lent_produces [OF inv] by (auto simp: return_slot_def)
qed

lemma element_produces:
  assumes inv: "heap_inv (roots_of s L) (lf_heap s)" and h: "arg s K_array h"
  shows "produces (roots_of s L) element_kinds {} (lf_heap s) (return_copy (element_of s h i) (lf_heap s))"
proof (cases "element_of s h i")
  case (V_ref g)
  obtain ob where ob: "obj_of (lf_heap s) h = Some ob" "zo_kind ob = K_array" "obj_ok (lf_heap s) ob"
    by (rule root_object [OF inv arg_rooted [OF h]])
  then have i: "i < length (zo_slots ob)" and v: "element_of s h i = zo_slots ob ! i"
    using V_ref by (auto simp: element_of_def split: if_splits)
  have "zo_slots ob ! i \<in> set (zo_slots ob)" using i by (rule nth_mem)
  then have "lent (roots_of s L) h (lf_heap s) element_kinds (element_of s h i)"
    using h ob v by (auto simp: lent_def arg_def roots_of_def obj_ok_def list_all_iff)
  then show ?thesis by (rule lent_produces [OF inv])
qed (use inv evolves_refl in \<open>simp_all add: return_copy_def addref_def produces_def value_ok_def\<close>)

lemma create_ends:
  assumes inv: "heap_inv R H"
  shows "ends R loses (let (h, H) = create_object k H in Some (Some (V_ref h), H))"
proof -
  obtain h H1 where new: "create_object k H = (h, H1)" by (cases "create_object k H")
  from create_object_rooted(1) [OF inv this] show ?thesis
    using endsI [of R "Some (V_ref h)" "{#}" H1] by (simp add: new)
qed

text \<open>The connections of an endpoint's table.\<close>

lemma table_conns_tabled:
  assumes inv: "heap_inv R H" and e: "rooted R H K_server_endpoint e" and c: "c \<in> set (table_conns H e)"
  shows "tabled R H c"
proof -
  obtain ob where ob: "obj_of H e = Some ob" "zo_kind ob = K_server_endpoint" "obj_ok H ob"
    by (rule root_object [OF inv e])
  have v: "V_ref c \<in> snd ` set (zo_table ob)"
  proof -
    obtain w where "w \<in> snd ` set (zo_table ob)" "c \<in> set (zv_handles w)"
      using c ob(1) by (auto simp: table_conns_def)
    then show ?thesis by (cases w) simp_all
  qed
  then have "kind_of H c = Some K_connection" using table_values [OF ob(3) v] by (simp add: value_ok_def)
  moreover have "c \<in># handles (ob_values ob)" using v by (simp add: in_handles ob_values_def)
  ultimately show ?thesis using e ob unfolding tabled_def rooted_def by blast
qed

lemma drained_array_fresh:
  "Connection_drainOutgoingDatagrams_rc c n H = Some (v, H') \<Longrightarrow> v = V_ref (zh_next H)"
  "Connection_drainEvents_rc reasons H = Some (v, H') \<Longrightarrow> v = V_ref (zh_next H)"
  by (auto simp: Connection_drainOutgoingDatagrams_rc_def Connection_drainEvents_rc_def array_init_def
      new_cell_def split: bind_splits)

text \<open>A method of a connection in the table, called at any time during the endpoint's drain.\<close>

lemma outgoing_array_call:
  assumes inv: "heap_inv R H" and c: "tabled R H c" and a: "rooted R H K_array a"
  shows "array_call R H a (Connection_drainOutgoingDatagrams_rc c n)"
  unfolding array_call_def calm_def
proof (intro conjI allI impI)
  fix R' H' assume H': "heap_inv R' H'" "set_mset R \<subseteq> set_mset R'" "evolves {a} H H'"
  have "tabled R' H' c" using tabled_later [OF c inv H'(3,1,2)] a by (simp add: rooted_def)
  then show "produces R' {K_array} {} H' (Connection_drainOutgoingDatagrams_rc c n H')"
    by (rule Connection_drainOutgoingDatagrams_produces [OF H'(1)])
qed (rule drained_array_fresh)

lemma events_array_call: "array_call R H a (Connection_drainEvents_rc reasons)"
  using Connection_drainEvents_produces drained_array_fresh(2) by (auto simp: array_call_def calm_def)

lemma in_map2: "z \<in> set (List.map2 f xs ys) \<Longrightarrow> \<exists>x y. z = f x y \<and> y \<in> set ys"
  by (auto dest: set_zip_rightD)

lemma endpoint_outgoing_yields:
  assumes inv: "heap_inv R H" and e: "rooted R H K_server_endpoint e"
  shows "yields R (endpoint_drain_method_rc False e
     (List.map2 (\<lambda>(throws, n) c. (throws, Connection_drainOutgoingDatagrams_rc c n)) calls (table_conns H e))
     finished H)"
proof (rule endpoint_drain_method_yields [OF inv e])
  fix a H1 assume H1: "heap_inv (R + {#a#}) H1" "rooted (R + {#a#}) H1 K_array a" "evolves {} H H1"
  have "array_call (R + {#a#}) H1 a (Connection_drainOutgoingDatagrams_rc c n)"
    if "c \<in> set (table_conns H e)" for c n
    using tabled_later [OF table_conns_tabled [OF inv e that] inv H1(3,1)]
    by (intro outgoing_array_call [OF H1(1) _ H1(2)]) auto
  then show "\<forall>(throws, drain) \<in> set (List.map2
      (\<lambda>(throws, n) c. (throws, Connection_drainOutgoingDatagrams_rc c n)) calls (table_conns H e)).
      array_call (R + {#a#}) H1 a drain"
    by (auto dest!: set_zip_rightD)
qed

lemma endpoint_events_yields:
  assumes inv: "heap_inv R H" and e: "rooted R H K_server_endpoint e"
  shows "yields R (endpoint_drain_method_rc False e
     (List.map2 (\<lambda>(throws, reasons) c. (throws, Connection_drainEvents_rc reasons)) calls (table_conns H e))
     finished H)"
  by (rule endpoint_drain_method_yields [OF inv e]) (auto simp: events_array_call)

lemma with_string_produces:
  assumes inv: "heap_inv (roots_of s L) (lf_heap s)" and i: "with_string_ok s this i"
    and x: "opt_arg s K_string string"
  shows "\<exists>ks. produces (roots_of s L) ks {this} (lf_heap s) (Config_withString_rc this i string (lf_heap s))"
proof -
  obtain k where k: "rooted (roots_of s L) (lf_heap s) k this" "k = K_client_config \<or> k = K_server_config"
    "i < length (slot_kinds k)" "0 < i"
    using i arg_rooted by (fastforce simp: with_string_ok_def)
  then show ?thesis using Config_withString_produces [OF inv k] opt_arg_rooted [OF x] by blast
qed

lemma with_local_produces:
  assumes inv: "heap_inv (roots_of s L) (lf_heap s)" and c: "config_arg s this" and x: "opt_arg s K_address local"
  shows "\<exists>ks. produces (roots_of s L) ks {this} (lf_heap s) (Config_withLocalAddress_rc this local (lf_heap s))"
proof -
  obtain k where "rooted (roots_of s L) (lf_heap s) k this" "k = K_client_config \<or> k = K_server_config"
    using c arg_rooted unfolding config_arg_def by blast
  then show ?thesis using Config_withLocalAddress_produces [OF inv] opt_arg_rooted [OF x] by blast
qed

lemma call_ends:
  assumes inv: "heap_inv (roots_of s L) (lf_heap s)" and ok: "allowed s op" and "\<forall>h. op \<noteq> L_drop h"
  shows "ends (roots_of s L) (undecodable op) (life_call False s op (lf_heap s))"
proof (cases op)
  case (L_new k)
  then show ?thesis using create_ends [OF inv] by simp
next
  case (L_copy h)
  then have "fits (roots_of s L) (lf_heap s) {k. True} (V_ref h)"
    using ok live_obj [OF inv, of h] by (auto simp: fits_def roots_of_def kind_of_def)
  then show ?thesis using L_copy produces_ends [OF return_copy_produces [OF inv]] by simp
next
  case (L_drop h)
  then show ?thesis using assms(3) by simp
next
  case (L_getter h i)
  then show ?thesis using getter_produces [OF inv] ok by (auto intro: produces_ends)
next
  case (L_element h i)
  then show ?thesis using element_produces [OF inv] ok by (auto intro: produces_ends)
next
  case (L_Address_construct this host)
  then show ?thesis using Address_construct_changes [OF inv] ok by (auto intro: ends_intros arg_rooted)
next
  case L_Address_fromString
  then show ?thesis using Address_fromString_produces [OF inv] by (auto intro: produces_ends)
next
  case (L_Datagram_construct this payload peer local)
  then show ?thesis using Datagram_construct_changes [OF inv arg_rooted arg_rooted arg_rooted opt_arg_rooted] ok
    by (auto intro!: changes_ends)
next
  case (L_Event_construct this reason)
  then show ?thesis using Event_construct_changes [OF inv arg_rooted opt_arg_rooted] ok
    by (auto intro!: changes_ends)
next
  case (L_ClientConfig_construct this local server_name alpn)
  then show ?thesis using ClientConfig_construct_changes [OF inv arg_rooted opt_arg_rooted opt_arg_rooted opt_arg_rooted] ok
    by (auto intro!: changes_ends)
next
  case (L_ServerConfig_construct this local cert_file key_file alpn)
  then show ?thesis
    using ServerConfig_construct_changes
      [OF inv arg_rooted opt_arg_rooted opt_arg_rooted opt_arg_rooted opt_arg_rooted] ok
    by (auto intro!: changes_ends)
next
  case (L_withLocalAddress this local)
  then show ?thesis using with_local_produces [OF inv, of this local] ok by (auto intro: produces_ends)
next
  case (L_withString this i string)
  then show ?thesis using with_string_produces [OF inv, of this i string] ok by (auto intro: produces_ends)
next
  case (L_withCertificate this cert_file key_file)
  then show ?thesis
    using ServerConfig_withCertificate_produces [OF inv arg_rooted arg_rooted arg_rooted] ok
    by (auto intro!: produces_ends)
next
  case (L_Connection_construct this remote config)
  then show ?thesis using Connection_construct_changes [OF inv arg_rooted arg_rooted opt_arg_rooted] ok
    by (auto intro!: changes_ends)
next
  case (L_Connection_close this reason)
  then show ?thesis using Connection_close_changes [OF inv arg_rooted opt_arg_rooted] ok
    by (auto intro!: changes_ends)
next
  case (L_stream this)
  then show ?thesis using stream_create_produces [OF inv arg_rooted] ok by (auto intro!: produces_ends)
next
  case (L_drainOutgoingDatagrams this n throws)
  then have p: "produces (roots_of s L) {K_array} {} (lf_heap s) (Connection_drainOutgoingDatagrams_rc this n (lf_heap s))"
    using Connection_drainOutgoingDatagrams_produces [OF inv rooted_tabled] arg_rooted ok by simp
  show ?thesis
  proof (cases throws)
    case True
    obtain v H1 where H1: "Connection_drainOutgoingDatagrams_rc this n (lf_heap s) = Some (v, H1)"
      "heap_inv (roots_of s L + handles [v]) H1" using p by (rule producesE)
    have "ends (roots_of s L) (undecodable op) (quiet (zval_ptr_dtor v H1))"
      using dtor_changes [OF H1(2)] by (rule changes_ends)
    then show ?thesis using L_drainOutgoingDatagrams True H1(1) by (simp add: discard_return_value_def)
  qed (use p L_drainOutgoingDatagrams in \<open>auto intro: produces_ends\<close>)
next
  case (L_drainEvents this reasons)
  then show ?thesis using Connection_drainEvents_produces [OF inv] by (auto intro: produces_ends)
next
  case (L_accept datagram config outcome)
  then show ?thesis using accept_accepts [OF inv arg_rooted arg_rooted] ok by (auto intro!: accepts_ends)
next
  case (L_Endpoint_construct this config)
  then show ?thesis using ServerEndpoint_construct_changes [OF inv arg_rooted arg_rooted] ok
    by (auto intro!: changes_ends)
next
  case (L_Endpoint_recv this datagram key dispatch finished)
  then have "dispatch_ok (roots_of s L) (lf_heap s) dispatch" using ok arg_rooted by (cases dispatch) auto
  then show ?thesis using L_Endpoint_recv recv_settles [OF inv arg_rooted arg_rooted] ok
    by (auto intro!: settles_ends)
next
  case (L_Endpoint_handleTimers this finished)
  then show ?thesis using cleanup_changes [OF inv arg_rooted] ok by (auto intro!: changes_ends)
next
  case (L_Endpoint_drainAccepted this)
  then show ?thesis using drainAccepted_produces [OF inv arg_rooted] ok by (auto intro!: produces_ends)
next
  case (L_Endpoint_drainOutgoing this calls finished)
  then show ?thesis using endpoint_outgoing_yields [OF inv arg_rooted] ok by (auto intro!: yields_ends)
next
  case (L_Endpoint_drainEvents this calls finished)
  then show ?thesis using endpoint_events_yields [OF inv arg_rooted] ok by (auto intro!: yields_ends)
qed

text \<open>A script state with \<open>L\<close> the references lost so far.\<close>

definition life_inv :: "zhandle multiset \<Rightarrow> life \<Rightarrow> bool" where
  "life_inv L s \<longleftrightarrow> heap_inv (roots_of s L) (lf_heap s)"

lemma life_start_inv: "life_inv {#} life_start"
  by (simp add: life_inv_def roots_of_def life_start_def heap_inv_empty)

lemma roots_after_mset:
  "(\<And>h. op \<noteq> L_drop h) \<Longrightarrow> mset (roots_after op v roots) = result_handles v + mset roots"
  by (cases op) (auto simp: roots_after_def handles_def split: option.splits)

lemma life_step_inv:
  assumes inv: "life_inv L s"
  shows "\<exists>s' L'. life_step False op s = Some s' \<and> life_inv (L + L') s' \<and> (undecodable op \<or> L' = {#})"
proof (cases "allowed s op")
  case False
  then have "life_step False op s = Some s \<and> life_inv (L + {#}) s" using inv by (simp add: life_step_def)
  then show ?thesis by blast
next
  case ok: True
  have inv': "heap_inv (roots_of s L) (lf_heap s)" using inv by (simp add: life_inv_def)
  show ?thesis
  proof (cases "\<exists>h. op = L_drop h")
    case True
    then obtain h where op: "op = L_drop h" by blast
    then have h: "h \<in> set (lf_roots s)" using ok by simp
    then have "roots_of s L = mset (remove1 h (lf_roots s)) + L + handles [V_ref h]"
      by (simp add: roots_of_def)
    then obtain H1 where "zval_ptr_dtor (V_ref h) (lf_heap s) = Some H1"
      "heap_inv (mset (remove1 h (lf_roots s)) + L) H1"
      using inv' dtor_changes changesE by metis
    then have "life_step False op s = Some \<lparr>lf_roots = remove1 h (lf_roots s), lf_heap = H1\<rparr> \<and>
        life_inv (L + {#}) \<lparr>lf_roots = remove1 h (lf_roots s), lf_heap = H1\<rparr>"
      using op h by (simp add: life_step_def quiet_def roots_after_def life_inv_def roots_of_def)
    then show ?thesis by blast
  next
    case False
    then obtain v H1 L' where c: "life_call False s op (lf_heap s) = Some (v, H1)"
      "heap_inv (roots_of s L + result_handles v + L') H1" "undecodable op \<or> L' = {#}"
      using call_ends [OF inv' ok] unfolding ends_def by blast
    let ?s = "\<lparr>lf_roots = roots_after op v (lf_roots s), lf_heap = H1\<rparr>"
    have "roots_of ?s (L + L') = roots_of s L + result_handles v + L'"
      using roots_after_mset [of op v "lf_roots s"] False by (simp add: roots_of_def)
    then have "life_inv (L + L') ?s" using c(2) by (simp add: life_inv_def)
    moreover have "life_step False op s = Some ?s" using c(1) ok by (simp add: life_step_def)
    ultimately show ?thesis using c(3) by blast
  qed
qed

lemma life_run_inv:
  assumes "life_inv L s"
  shows "\<exists>s' L'. life_run False ops s = Some s' \<and> life_inv (L + L') s' \<and>
     ((\<exists>op \<in> set ops. undecodable op) \<or> L' = {#})"
  using assms
proof (induction ops arbitrary: s L)
  case Nil
  then have "life_run False [] s = Some s \<and> life_inv (L + {#}) s" by simp
  then show ?case by blast
next
  case (Cons op ops)
  obtain s1 L1 where s1: "life_step False op s = Some s1" "life_inv (L + L1) s1" "undecodable op \<or> L1 = {#}"
    using life_step_inv [OF Cons.prems] by blast
  obtain s2 L2 where s2: "life_run False ops s1 = Some s2" "life_inv (L + L1 + L2) s2"
    "(\<exists>op \<in> set ops. undecodable op) \<or> L2 = {#}"
    using Cons.IH [OF s1(2)] by blast
  have "life_inv (L + (L1 + L2)) s2" using s2(2) by (simp add: add.assoc)
  moreover have "life_run False (op # ops) s = Some s2" using s1(1) s2(1) by simp
  moreover have "(\<exists>op \<in> set (op # ops). undecodable op) \<or> L1 + L2 = {#}" using s1(3) s2(3) by auto
  ultimately show ?case by blast
qed

lemma script_end_inv:
  assumes "life_inv L s"
  shows "\<exists>H. script_end s = Some H \<and> heap_inv L H"
proof -
  have "handles (List.map V_ref hs) = mset hs" for hs by (induction hs) simp_all
  then have "heap_inv (L + handles (List.map V_ref (lf_roots s))) (lf_heap s)"
    using assms by (simp add: life_inv_def roots_of_def ac_simps)
  then show ?thesis unfolding script_end_def using release_inv by blast
qed

subsection \<open>What a script can rely on\<close>

text \<open>
  C7. No sequence of calls uses or releases a freed string, array or object, whatever their outcomes,
  and neither does the release of the script's variables at its end: every constructor, getter,
  \<^verbatim>\<open>with\<close> method, drain, \<^verbatim>\<open>accept\<close> and endpoint method takes a reference for everything it stores
  or returns and releases what it replaces exactly once. This is for the engine from PHP 8.2 on.
\<close>

theorem lifetime_safe:
  "\<exists>s H. life_run False ops life_start = Some s \<and> script_end s = Some H"
proof -
  obtain s L where "life_run False ops life_start = Some s" "life_inv L s"
    using life_run_inv [OF life_start_inv, of ops] by auto
  then show ?thesis using script_end_inv by blast
qed

text \<open>
  C8. Nothing leaks: when the script's variables are released, every string, array and object that
  any of the calls made has been freed, provided no \<^verbatim>\<open>accept\<close> was given a datagram that cannot be
  decoded.
\<close>

theorem lifetime_no_leak:
  assumes "list_all (\<lambda>op. \<not> undecodable op) ops"
  shows "\<exists>s H. life_run False ops life_start = Some s \<and> script_end s = Some H \<and> zh_cells H = []"
proof -
  obtain s L where s: "life_run False ops life_start = Some s" "life_inv L s"
    "(\<exists>op \<in> set ops. undecodable op) \<or> L = {#}"
    using life_run_inv [OF life_start_inv, of ops] by auto
  then obtain H where H: "script_end s = Some H" "heap_inv L H" using script_end_inv by blast
  have "L = {#}" using s(3) assms by (auto simp: list_all_iff)
  then show ?thesis using s(1) H nothing_left by blast
qed

text \<open>An endpoint with two connections, the first of which throws.\<close>

definition two_connections :: "life_op list" where
  "two_connections =
     [L_new K_server_endpoint, L_new K_server_config, L_new K_string,
      L_ServerConfig_construct 2 None (Some 3) (Some 3) None, L_Endpoint_construct 1 2,
      L_new K_datagram, L_Address_fromString, L_Datagram_construct 5 3 8 None,
      L_Endpoint_recv 1 5 ''a'' (D_forwards A_accepted) [], L_Endpoint_recv 1 5 ''b'' (D_forwards A_accepted) [],
      L_Endpoint_recv 1 5 ''c'' D_missing [],
      L_Endpoint_drainAccepted 1]"

lemma two_connections_accepted:
  "map_option (\<lambda>s. length (table_conns (lf_heap s) 1)) (life_run False two_connections life_start) = Some 2"
  by code_simp

theorem lifetime_no_leak_witness:
  "\<exists>s H. life_run False (two_connections @ [L_Endpoint_drainOutgoing 1 [(False, 2), (True, 1)] [''b'']]) life_start = Some s \<and>
     script_end s = Some H \<and> zh_cells H = []"
  by (rule lifetime_no_leak) (simp add: two_connections_def)

text \<open>
  Before PHP 8.2 the second call fails with the first one's exception pending. The method then
  releases the array in \<^verbatim>\<open>return_value\<close>, which the engine destroys once more.
\<close>

lemma endpoint_drain_double_free:
  "life_run True (two_connections @ [L_Endpoint_drainOutgoing 1 [(True, 0), (False, 0)] []]) life_start = None"
  "life_run True (two_connections @ [L_Endpoint_drainEvents 1 [(True, []), (False, [])] []]) life_start = None"
  by code_simp+

end
