(* ===== verification/Quic_Endpoint_Single.thy ===== *)
theory Quic_Endpoint_Single
  imports Quic_Endpoint_Props
begin

text \<open>
  An endpoint with one connection against that connection alone. A script that feeds datagrams,
  runs timers and drains can talk to either: the answers are the same, value by value and
  exception by exception, until the endpoint lets go of a connection that is finished.
\<close>

subsection \<open>The two sides\<close>

datatype peer_call =
    P_recv php_quic_datagram
  | P_handleTimers
  | P_getNextExpiry "(zend_long \<times> zend_long) option"
  | P_getNextTimeout
  | P_drainOutgoingDatagrams
  | P_drainEvents

datatype peer_answer =
    A_nothing "unit outcome"
  | A_time "zend_long option outcome"
  | A_datagrams "php_quic_datagram list outcome"
  | A_events "php_quic_event_object list outcome"

fun connection_call ::
  "('c, 'r) system \<Rightarrow> peer_call \<Rightarrow> 'c php_quic_connection \<Rightarrow> (peer_answer \<times> 'c php_quic_connection) option"
  where
  "connection_call Y (P_recv dg) c =
     Some (map_prod A_nothing id (Connection_recv (y_ngtcp2 Y) (y_getaddrinfo Y) dg c))"
| "connection_call Y P_handleTimers c = Some (map_prod A_nothing id (Connection_handleTimers (y_ngtcp2 Y) c))"
| "connection_call Y (P_getNextExpiry tv) c =
     Some (map_prod (A_time \<circ> Inr) id (Connection_getNextExpiry (y_ngtcp2 Y) tv c))"
| "connection_call Y P_getNextTimeout c =
     Some (map_prod (A_time \<circ> Inr) id (Connection_getNextTimeout (y_ngtcp2 Y) c))"
| "connection_call Y P_drainOutgoingDatagrams c =
     map_option (map_prod A_datagrams id) (Connection_drainOutgoingDatagrams (y_ngtcp2 Y) c)"
| "connection_call Y P_drainEvents c = Some (map_prod (A_events \<circ> Inr) id (Connection_drainEvents c))"

fun endpoint_call ::
  "bool \<Rightarrow> ('c, 'r) system \<Rightarrow> ('c, 'r) function_table \<Rightarrow> peer_call \<Rightarrow> php_quic_server_endpoint \<Rightarrow> ('c, 'r) php_heap \<Rightarrow>
   (peer_answer \<times> php_quic_server_endpoint \<times> ('c, 'r) php_heap) option" where
  "endpoint_call fp Y globals (P_recv dg) ep heap =
     Some (map_prod A_nothing id (ServerEndpoint_recv fp Y globals dg ep heap))"
| "endpoint_call fp Y globals P_handleTimers ep heap =
     Some (map_prod A_nothing id (ServerEndpoint_handleTimers fp Y ep heap))"
| "endpoint_call fp Y globals (P_getNextExpiry tv) ep heap =
     Some (map_prod A_time (Pair ep) (ServerEndpoint_getNextExpiry fp Y (\<lambda>h. tv) ep heap))"
| "endpoint_call fp Y globals P_getNextTimeout ep heap =
     Some (map_prod A_time (Pair ep) (ServerEndpoint_getNextTimeout fp Y ep heap))"
| "endpoint_call fp Y globals P_drainOutgoingDatagrams ep heap =
     map_option (map_prod A_datagrams id) (ServerEndpoint_drainOutgoingDatagrams fp Y ep heap)"
| "endpoint_call fp Y globals P_drainEvents ep heap =
     Some (map_prod A_events id (ServerEndpoint_drainEvents fp ep heap))"

text \<open>The calls after which the endpoint looks for finished connections.\<close>

fun cleans_up :: "peer_call \<Rightarrow> bool" where
  "cleans_up (P_getNextExpiry tv) = False"
| "cleans_up P_getNextTimeout = False"
| "cleans_up _ = True"

text \<open>
  A session: the answers to a list of calls, up to the one after which the connection is out of
  the table. The flag tells whether it still is in it.
\<close>

fun connection_session ::
  "('c, 'r) system \<Rightarrow> peer_call list \<Rightarrow> 'c php_quic_connection \<Rightarrow>
   (peer_answer list \<times> bool \<times> 'c php_quic_connection) option" where
  "connection_session Y [] c = Some ([], True, c)"
| "connection_session Y (call # calls) c =
     (case connection_call Y call c of
        None \<Rightarrow> None
      | Some (a, c1) \<Rightarrow>
          if cleans_up call \<and> connection_finished c1 then Some ([a], False, c1)
          else map_option (map_prod (Cons a) id) (connection_session Y calls c1))"

fun endpoint_session ::
  "bool \<Rightarrow> ('c, 'r) system \<Rightarrow> ('c, 'r) function_table \<Rightarrow> peer_call list \<Rightarrow> php_quic_server_endpoint \<Rightarrow>
   ('c, 'r) php_heap \<Rightarrow> (peer_answer list \<times> php_quic_server_endpoint \<times> ('c, 'r) php_heap) option" where
  "endpoint_session fp Y globals [] ep heap = Some ([], ep, heap)"
| "endpoint_session fp Y globals (call # calls) ep heap =
     (case endpoint_call fp Y globals call ep heap of
        None \<Rightarrow> None
      | Some (a, ep1, heap1) \<Rightarrow>
          if ep_connections ep1 = [] then Some ([a], ep1, heap1)
          else map_option (map_prod (Cons a) id) (endpoint_session fp Y globals calls ep1 heap1))"

subsection \<open>One call\<close>

definition put_connection :: "nat \<Rightarrow> 'c php_quic_connection \<Rightarrow> ('c, 'r) php_heap \<Rightarrow> ('c, 'r) php_heap" where
  "put_connection h c heap = heap\<lparr>hp_connections := (hp_connections heap)(h \<mapsto> c)\<rparr>"

definition with_table :: "bool \<Rightarrow> zstring \<Rightarrow> nat \<Rightarrow> php_quic_server_endpoint \<Rightarrow> php_quic_server_endpoint" where
  "with_table kept key h ep = ep\<lparr>ep_connections := (if kept then [(key, h)] else [])\<rparr>"

text \<open>What a call of the connection comes to at the endpoint.\<close>

definition seen_from_endpoint ::
  "peer_call \<Rightarrow> zstring \<Rightarrow> nat \<Rightarrow> php_quic_server_endpoint \<Rightarrow> ('c, 'r) php_heap \<Rightarrow>
   peer_answer \<times> 'c php_quic_connection \<Rightarrow> peer_answer \<times> php_quic_server_endpoint \<times> ('c, 'r) php_heap" where
  "seen_from_endpoint call key h ep heap r =
     (fst r, with_table (\<not> (cleans_up call \<and> connection_finished (snd r))) key h ep,
      put_connection h (snd r) heap)"

lemma cleanup_single:
  assumes "ep_connections ep = [(key, h)]"
  shows "php_quic_server_endpoint_cleanup_connections (put_connection h c heap) ep =
    with_table (\<not> connection_finished c) key h ep"
  using assms
  by (simp add: cleanup_filter hash_keys_def handle_finished_def put_connection_def with_table_def)

lemma call_method_single:
  assumes "hp_connections heap h = Some c"
  shows "php_quic_server_endpoint_call_method fp (on_connection h m) None heap =
     (case m c of
        (Inl e, c1) \<Rightarrow> (Call_undef, Some e, put_connection h c1 heap)
      | (Inr v, c1) \<Rightarrow> (Call_value v, None, put_connection h c1 heap))"
  using assms
  by (auto simp: php_quic_server_endpoint_call_method_def on_connection_def put_connection_def
      split: prod.splits sum.splits)

lemma with_table_same: "ep_connections ep = [(key, h)] \<Longrightarrow> with_table True key h ep = ep"
  by (simp add: with_table_def)

lemma min_of_one: "min_result (update_min v (False, 0)) = v"
  by (cases v) (simp_all add: min_result_def update_min_def)

lemma single_call:
  assumes ep: "ep_connections ep = [(key, h)]" and h: "hp_connections heap h = Some c"
    and dg: "\<And>dg. call = P_recv dg \<Longrightarrow> php_quic_server_endpoint_connection_key dg = Some key"
  shows "endpoint_call fp Y globals call ep heap =
    map_option (seen_from_endpoint call key h ep heap) (connection_call Y call c)"
proof -
  note defs = seen_from_endpoint_def endpoint_handles_def ep call_method_single [OF h]
    cleanup_single [OF ep] unless_pending_def with_table_same [OF ep]
  show ?thesis
  proof (cases call)
    case (P_recv dg)
    have "zend_hash_find (ep_connections ep) key = Some h" by (simp add: ep zend_hash_find_def)
    moreover obtain r c1 where "Connection_recv (y_ngtcp2 Y) (y_getaddrinfo Y) dg c = (r, c1)" by fastforce
    ultimately show ?thesis using assms(3) [OF P_recv] P_recv
      by (cases r) (simp_all add: defs ServerEndpoint_recv_def)
  next
    case P_handleTimers
    obtain r c1 where r: "Connection_handleTimers (y_ngtcp2 Y) c = (r, c1)" by fastforce
    then show ?thesis using P_handleTimers
      by (cases r) (simp_all add: defs ServerEndpoint_handleTimers_def)
  next
    case (P_getNextExpiry tv)
    then show ?thesis
      by (cases "Connection_getNextExpiry (y_ngtcp2 Y) tv c")
        (simp add: defs ServerEndpoint_getNextExpiry_def min_of_one)
  next
    case P_getNextTimeout
    then show ?thesis
      by (cases "Connection_getNextTimeout (y_ngtcp2 Y) c")
        (simp add: defs ServerEndpoint_getNextTimeout_def min_of_one)
  next
    case P_drainOutgoingDatagrams
    then show ?thesis
      by (cases "Connection_drainOutgoingDatagrams (y_ngtcp2 Y) c")
        (auto simp: defs h ServerEndpoint_drainOutgoingDatagrams_def put_connection_def [symmetric] Let_def
          split: prod.splits sum.splits)
  next
    case P_drainEvents
    then show ?thesis
      by (cases "Connection_drainEvents c") (simp add: defs ServerEndpoint_drainEvents_def)
  qed
qed

subsection \<open>Any number of calls\<close>

definition session_from_endpoint ::
  "zstring \<Rightarrow> nat \<Rightarrow> php_quic_server_endpoint \<Rightarrow> ('c, 'r) php_heap \<Rightarrow>
   peer_answer list \<times> bool \<times> 'c php_quic_connection \<Rightarrow>
   peer_answer list \<times> php_quic_server_endpoint \<times> ('c, 'r) php_heap" where
  "session_from_endpoint key h ep heap r =
     (case r of (answers, kept, c) \<Rightarrow> (answers, with_table kept key h ep, put_connection h c heap))"

lemma put_twice: "put_connection h c2 (put_connection h c1 heap) = put_connection h c2 heap"
  by (simp add: put_connection_def)

lemma put_same: "hp_connections heap h = Some c \<Longrightarrow> put_connection h c heap = heap"
  by (simp add: put_connection_def map_upd_triv)

definition peer_recvs :: "zstring \<Rightarrow> peer_call list \<Rightarrow> bool" where
  "peer_recvs key calls \<longleftrightarrow>
     list_all (\<lambda>call. case call of
         P_recv dg \<Rightarrow> php_quic_server_endpoint_connection_key dg = Some key | _ \<Rightarrow> True) calls"

text \<open>
  C13. An endpoint with one connection is that connection: any sequence of datagrams of the peer,
  timers, deadline queries and drains gives the same answers and exceptions through the endpoint as
  on the connection itself and leaves the connection in the same state, whatever the engine's
  version; the endpoint keeps the connection exactly until a call after which it is finished.
\<close>

theorem endpoint_transparent:
  assumes "ep_connections ep = [(key, h)]" and "hp_connections heap h = Some c" and "peer_recvs key calls"
  shows "endpoint_session fp Y globals calls ep heap =
    map_option (session_from_endpoint key h ep heap) (connection_session Y calls c)"
  using assms
proof (induction calls arbitrary: heap c)
  case Nil
  then show ?case by (simp add: session_from_endpoint_def with_table_same put_same)
next
  case (Cons call calls)
  have one: "endpoint_call fp Y globals call ep heap =
      map_option (seen_from_endpoint call key h ep heap) (connection_call Y call c)"
    using Cons.prems by (intro single_call) (auto simp: peer_recvs_def)
  show ?case
  proof (cases "connection_call Y call c")
    case None
    then show ?thesis by (simp add: one)
  next
    case (Some r)
    obtain a c1 where r: "r = (a, c1)" by (cases r)
    show ?thesis
    proof (cases "cleans_up call \<and> connection_finished c1")
      case True
      then show ?thesis using Some r
        by (simp add: one seen_from_endpoint_def session_from_endpoint_def with_table_def)
    next
      case False
      have "hp_connections (put_connection h c1 heap) h = Some c1" by (simp add: put_connection_def)
      moreover have "peer_recvs key calls" using Cons.prems(3) by (simp add: peer_recvs_def)
      ultimately have "endpoint_session fp Y globals calls ep (put_connection h c1 heap) =
          map_option (session_from_endpoint key h ep (put_connection h c1 heap)) (connection_session Y calls c1)"
        by (rule Cons.IH [OF Cons.prems(1)])
      then show ?thesis using Some r False Cons.prems(1)
        by (cases "connection_session Y calls c1")
          (auto simp: one seen_from_endpoint_def session_from_endpoint_def with_table_same put_twice)
    qed
  qed
qed

theorem endpoint_transparent_witness:
  "endpoint_session True closing_system Map.empty [P_getNextTimeout, P_drainEvents, P_recv closing_datagram, P_handleTimers]
     closing_ep closing_hp =
   map_option (session_from_endpoint ''192.0.2.1|443'' 0 closing_ep closing_hp)
     (connection_session closing_system
       [P_getNextTimeout, P_drainEvents, P_recv closing_datagram, P_handleTimers] sample_connection)"
proof (rule endpoint_transparent)
  have "php_quic_server_endpoint_connection_key closing_datagram = Some ''192.0.2.1|443''"
    using closing_key
    by (simp add: php_quic_server_endpoint_connection_key_def closing_datagram_def Datagram_construct_def)
  then show "peer_recvs ''192.0.2.1|443'' [P_getNextTimeout, P_drainEvents, P_recv closing_datagram, P_handleTimers]"
    by (simp add: peer_recvs_def)
qed (simp_all add: closing_ep_def closing_hp_def)

end
