(* ===== verification/Spec2Isabelle.thy ===== *)
theory Spec2Isabelle
  imports Quic_Buffer Quic_Event_Queue Quic_Address Quic_Rx Quic_Tx Quic_Stream_Props
    Quic_Datagram Quic_Drain_Props Quic_Drain_Data Quic_Method_Props Quic_Machine_Props
    Quic_Tls Quic_Config Quic_Construct Quic_Server_Connection Quic_Peer
    Quic_Server_Endpoint Quic_Endpoint_Props Quic_Session Quic_Drain_Live Quic_Module_Props
    Quic_Lifetime_Props Quic_Endpoint_Single
begin

text \<open>
  A model of the PHP extension \<^verbatim>\<open>ngtcp2\<close>: QUIC connections for PHP scripts, over the
  C library ngtcp2 and over GnuTLS. The extension does no input or output of its own. A script
  feeds received datagrams to a connection, or to an endpoint that owns the server connections of
  one socket, asks it for the datagrams to send and for its next timeout, and gets events and
  streams back. Between the script and the library the extension keeps, for every connection, a
  table of streams with receive and transmit buffers, a queue of events, and the flags of the
  connection's life. That state, its operations, and the objects around it are the model; paths
  below are those of the repository.

  \<^bold>\<open>Parts, and the theories that model them.\<close>

  \<^item> Shared: \<open>Quic_Prelude\<close> (types, exceptions, the engine's ordered hash table as the locale
    \<open>ordered_table\<close>, the locale \<open>invariant_machine\<close>), \<open>Quic_Cstring\<close> (the C string functions
    and decimal conversions the sources use), \<open>Quic_Ngtcp2\<close> (the library's interface),
    \<open>Quic_Sample\<close> (a concrete library for the witnesses).
  \<^item> \<^verbatim>\<open>src/address.c\<close>: \<open>Quic_Address\<close>. \<^verbatim>\<open>src/buffer.c\<close>:
    \<open>Quic_Buffer\<close>, with the contract \<open>byte_fifo\<close>. \<^verbatim>\<open>src/datagram.c\<close>:
    \<open>Quic_Datagram\<close>. \<^verbatim>\<open>src/event.c\<close> and the event types of
    \<^verbatim>\<open>src/internal/types.h\<close>: \<open>Quic_Event\<close>. \<^verbatim>\<open>src/queue.c\<close>:
    \<open>Quic_Event_Queue\<close>, on the level of nodes and pointers, with the contract \<open>event_fifo\<close>.
  \<^item> \<^verbatim>\<open>src/connection.c\<close>: the state of a connection and its helpers in
    \<open>Quic_Connection\<close>, its methods in \<open>Quic_Methods\<close>,
    \<^verbatim>\<open>drainOutgoingDatagrams\<close> in \<open>Quic_Drain\<close>, \<^verbatim>\<open>ClientConfig\<close> in
    \<open>Quic_Config\<close>, the constructor in \<open>Quic_Construct\<close>, the native resources and their
    release in \<open>Quic_Native\<close>.
  \<^item> \<^verbatim>\<open>src/callbacks.c\<close>: \<open>Quic_Callbacks\<close>. \<^verbatim>\<open>src/stream.c\<close>:
    \<open>Quic_Stream\<close>. \<^verbatim>\<open>src/tls_gnutls.c\<close>: \<open>Quic_Tls\<close>.
  \<^item> \<^verbatim>\<open>src/server_connection.c\<close>: \<^verbatim>\<open>ServerConfig\<close> in \<open>Quic_Config\<close>,
    \<^verbatim>\<open>ServerConnection::accept\<close> in \<open>Quic_Server_Connection\<close>.
    \<^verbatim>\<open>src/server_endpoint.c\<close>: \<open>Quic_Server_Endpoint\<close>.
  \<^item> \<^verbatim>\<open>ngtcp2.c\<close> and the last part of every source file, where classes are declared and
    registered: \<open>Quic_Zend\<close> (what the engine does with argument tables, parameter parsing and
    class registration), \<open>Quic_Arginfo\<close> (the argument tables, method tables and parameter blocks
    of all methods), \<open>Quic_Module\<close> (the registrations, module start and shutdown).
  \<^item> The reference counts of all objects, across the files: \<open>Quic_Refcount\<close> (the engine's heap of
    counted cells, the \<^verbatim>\<open>free_object\<close> handlers, releasing), \<open>Quic_Lifetime\<close> (for every operation
    the references it takes and releases, in source order; definitions end in \<open>_rc\<close>).

  Definitions carry the names of the C functions; a PHP method is \<open>Class_method\<close>. A C function
  that is long, or that changes what it is doing halfway, is split into definitions that the
  model composes as the code does: the drain loop into \<open>drain_step\<close>, \<open>drain_open_pending\<close>
  and \<open>drain_write\<close>; \<^verbatim>\<open>accept\<close> into \<open>accept_decode\<close>, \<open>accept_addresses\<close>,
  \<open>accept_object\<close> and \<open>accept_native\<close>.

  \<^bold>\<open>State.\<close> A connection is the record \<open>php_quic_connection\<close>; the C pointer to the native
  connection is \<open>c_conn\<close>, of the library's own type \<open>'c\<close>. A stream object holds a handle of
  its connection object and a stream id, and resolves both anew in every method, over a store from
  handles to connections (\<open>objects\<close>). An endpoint holds handles too; \<open>php_heap\<close> is the store
  with the configuration objects and the outside world. A pointer to a stream entry is its key in
  the table: entries are never removed while the connection lives. Exceptions are values of
  \<open>php_throw\<close>; a method is a function to \<open>php_throw + 'a\<close> and the new state. The endpoint calls
  its connections through the engine, which does not start a call while an exception is pending;
  what it then reports depends on its version and is the parameter \<open>fp\<close>.

  \<^bold>\<open>The libraries.\<close> ngtcp2, GnuTLS, the resolver, the clocks and the random source are not in
  the repository. They are arguments: \<open>L\<close> (\<open>ngtcp2\<close>), \<open>G\<close>, \<open>gai\<close>, the clock readings
  \<open>c_hrtime\<close>, and \<open>system\<close> for all of them. A library call that may call back returns the
  list of its callbacks, which the caller runs through the table the extension registered
  (\<open>run_callbacks\<close>). Where a theorem relies on documented behaviour of the library it says so:
  \<open>writes_bounded\<close> (room in a packet shrinks while frames are added to it, packets fit the
  buffer), \<open>writes_counted\<close> and \<open>library_faithful\<close> (how each call changes what has been
  accepted and delivered on a stream), \<open>library_starts\<close> (a new native connection has accepted
  and delivered nothing). The sample libraries satisfy them, and the witnesses use them. They speak
  of bytes as values at the time of the call; what the library does later with the pointers it was
  given is outside the model.

  \<^bold>\<open>What is shown.\<close>

  \<^item> Bytes (\<open>Quic_Session\<close>, \<open>Quic_Transfer\<close>, \<open>Quic_Drain_Data\<close>,
    \<open>Quic_Stream_Props\<close>, \<open>Quic_Rx\<close>, \<open>Quic_Tx\<close>, \<open>Quic_Buffer\<close>): through any sequence of
    calls every byte written is accepted once and in order or still waits, and every byte delivered
    is read once and in order or can still be read. For a connection that the constructor or
    \<^verbatim>\<open>accept\<close> made this holds from the first datagram on (\<open>session_bytes_exact\<close>).
  \<^item> The drain loop: it ends (\<open>Quic_Drain_Term\<close>; a lexicographic measure of the datagrams left,
    the streams that want to send, the room in the packet and the one retry without data), what it
    returns (\<open>Quic_Drain_Props\<close>), and why it stops: 256 datagrams are out, nothing is left to
    send, or the library refused the last write (\<open>Quic_Drain_Live\<close>).
  \<^item> The life of a connection (\<open>Quic_Conn_Inv\<close>, \<open>Quic_Event_Log\<close>, \<open>Quic_Machine\<close>,
    \<open>Quic_Machine_Props\<close>, \<open>Quic_Method_Props\<close>, \<open>Quic_Peer\<close>): the invariant of the
    connection, what never goes back, events announced exactly once, the contracts of single
    methods. \<open>conn_operation\<close>, \<open>event_operation\<close> and \<open>connection_method\<close> are the locales
    that carry these from the helpers to the methods.
  \<^item> Resources (\<open>Quic_Tls\<close>, \<open>Quic_Construct\<close>, \<open>Quic_Server_Connection\<close>): whichever native
    step of a constructor fails, no TLS handle or native connection is lost or freed twice.
  \<^item> The endpoint (\<open>Quic_Endpoint_Inv\<close>, \<open>Quic_Endpoint_Loops\<close>, \<open>Quic_Endpoint_Props\<close>): the
    routing table and the accept queue over any sequence of calls, routing, timers, events and
    draining. The first datagram of a peer goes through \<^verbatim>\<open>call_user_function\<close> without an object,
    which looks for a global function \<^verbatim>\<open>accept\<close>: the functions of the script are the parameter
    \<open>globals\<close>. The theorems on the table and the queue assume \<open>accept_script\<close>: there is no such
    function, or it returns what \<^verbatim>\<open>ServerConnection::accept\<close> gives. Without one the endpoint
    never has a connection (\<open>endpoint_never_accepts\<close>). An endpoint with a single connection
    behaves as that connection (\<open>Quic_Endpoint_Single\<close>).
  \<^item> The PHP side (\<open>Quic_Module_Props\<close>): classes are registered in an order that gives every
    object its structure; what a method parses is what its argument table declares.
  \<^item> Lifetimes (\<open>Quic_Refcount\<close>, \<open>Quic_Lifetime\<close>, \<open>Quic_Lifetime_Ops\<close>,
    \<open>Quic_Lifetime_Endpoint\<close>, \<open>Quic_Lifetime_Props\<close>): the invariant is that every count is the
    number of references, nothing refers to a freed cell and every field holds a kind it may hold;
    kinds have levels, so that there are no cycles. Each operation has a contract (\<open>changes\<close>,
    \<open>produces\<close>, \<open>accepts\<close>); any script of them is memory safe and leaves nothing behind.
  \<^item> Data objects and texts: the queue refines a list, exactly the endpoints are parsed as addresses
    and are read back, configurations, datagrams and events report what they were given.
  \<^item> Behaviours a caller has to know about: a stream that is blocked keeps the others waiting
    and a stream opened before the library has an id can be returned twice
    (\<open>Quic_Method_Props\<close>, \<open>blocked_open_reuses_id\<close>); an ended stream can report itself
    writable (\<open>acked_reports_ended_stream_writable\<close>) and a reset one readable
    (\<open>stream_reset_abandons\<close>); a connection without a timer has a timeout far in the future
    where \<^verbatim>\<open>null\<close> is documented (\<open>next_timeout_bounds\<close>); a second call of the constructor and a
    refused first packet leak (\<open>construct_twice_leaks\<close>, \<open>accept_decode_leaks\<close>); the endpoint
    accepts nothing by itself (\<open>endpoint_never_accepts\<close>), drops a connection together with the
    event of its closing, and a connection that throws keeps the timers of later ones from running
    (\<open>Quic_Endpoint_Props\<close>, \<open>throwing_timer_stops_others\<close>), which before PHP 8.2 also frees the array of a drain twice
    (\<open>endpoint_drain_double_free\<close>); a client grants its peer unidirectional streams without
    credit (\<open>client_uni_stream_credit\<close>); many getters take any arguments
    (\<open>arginfo_matches_parsing\<close>), an unconstructed datagram returns unset values
    (\<open>datagram_reports\<close>), cloned objects have no structure of their own and the event
    subclasses lack the event constants (\<open>module_startup\<close>).

  \<^bold>\<open>Bounds.\<close> Machine integers have their width. The source's own bounds are kept: 256 datagrams
  per drain, packet buffers of 1452 bytes, 8 bytes for a port's text. Nothing is bounded by fuel:
  loops are structural, have a measure, or, for the drain loop, are partial functions
  (\<open>drain_loop\<close>, \<open>None\<close> when it never ends) that are proved to return. A transmit buffer
  longer than a 64-bit offset can count is excluded where it matters (\<open>tx_fits\<close>).

  \<^bold>\<open>Not modelled.\<close> What the engine does beyond the parts named above, its memory manager and
  the accessor macros of \<^verbatim>\<open>src/internal/macros.h\<close> among it: an object and its structure are one
  value. The component theories keep objects in a store that never shrinks, and take values of the
  declared types; the reference counts and the parameter parsing are separate models, whose
  branches are arguments where the component theories compute them. The buffers of streams and the
  reasons of queued events are values, not counted cells: nothing else refers to them. In \<open>Quic_Server_Endpoint\<close> a
  global \<^verbatim>\<open>accept\<close> of the script that returns an object which is not a connection, or that calls
  the endpoint again, is left out; the extension would use any object as a connection. The helpers
  that \<^verbatim>\<open>src/server_connection.c\<close> repeats from \<^verbatim>\<open>src/connection.c\<close> are modelled once. What
  GnuTLS and ngtcp2 do inside, congestion control and loss recovery among it. Examples, tests and
  documents are not part of the extension.
\<close>

end
